(* ===== verification/Prelude.thy ===== *)
theory Prelude
  imports Complex_Main "HOL-Library.Multiset"
begin

text \<open>
  Shared vocabulary of the price-board development: the JavaScript values the
  program handles (numbers, JSON-like values, functions found on
  \<open>Object.prototype\<close>), the coercions of the language it relies on (truthiness,
  \<open>||\<close>, property access) and the ASCII character classes used by its regular
  expressions and case mappings. Strings are byte strings (\<open>char list\<close>): the case
  mappings and character classes act on ASCII, which is what the program's data
  (commodity names, exchange codes) consist of.

  A finite JavaScript number is modelled exactly as a terminating decimal
  \<open>Num m k\<close>, the value \<open>m / 10^k\<close>. Every IEEE double is such a decimal, and the
  program only adds, subtracts, multiplies and compares numbers, so the model is
  closed under its operations; rounding to 53 bits and overflow to Infinity are
  not modelled, and \<open>-0\<close> is identified with \<open>0\<close>.
\<close>

named_theorems js_simps "evaluation rules of the JavaScript primitives"

section \<open>Numbers\<close>

datatype jsnum = Num int nat | PosInf | NegInf | NaN

definition dec_val :: "int \<Rightarrow> nat \<Rightarrow> rat" where
  "dec_val m k = of_int m / 10 ^ k"

fun num_val :: "jsnum \<Rightarrow> rat option" where
  "num_val (Num m k) = Some (dec_val m k)"
| "num_val _ = None"

fun js_is_nan :: "jsnum \<Rightarrow> bool" where
  "js_is_nan NaN = True"
| "js_is_nan _ = False"

fun js_finite :: "jsnum \<Rightarrow> bool" where
  "js_finite (Num _ _) = True"
| "js_finite _ = False"

fun js_neg :: "jsnum \<Rightarrow> jsnum" where
  "js_neg (Num m k) = Num (- m) k"
| "js_neg PosInf = NegInf"
| "js_neg NegInf = PosInf"
| "js_neg NaN = NaN"

text \<open>Sign of a value (\<open>NaN\<close> has none).\<close>

fun js_sgn :: "jsnum \<Rightarrow> int" where
  "js_sgn (Num m k) = sgn m"
| "js_sgn PosInf = 1"
| "js_sgn NegInf = -1"
| "js_sgn NaN = 0"

fun js_add :: "jsnum \<Rightarrow> jsnum \<Rightarrow> jsnum" where
  "js_add (Num a i) (Num b j) = Num (a * 10 ^ j + b * 10 ^ i) (i + j)"
| "js_add NaN _ = NaN"
| "js_add _ NaN = NaN"
| "js_add PosInf NegInf = NaN"
| "js_add NegInf PosInf = NaN"
| "js_add PosInf _ = PosInf"
| "js_add NegInf _ = NegInf"
| "js_add _ PosInf = PosInf"
| "js_add _ NegInf = NegInf"

definition js_sub :: "jsnum \<Rightarrow> jsnum \<Rightarrow> jsnum" where
  "js_sub a b = js_add a (js_neg b)"

fun js_mul :: "jsnum \<Rightarrow> jsnum \<Rightarrow> jsnum" where
  "js_mul (Num a i) (Num b j) = Num (a * b) (i + j)"
| "js_mul NaN _ = NaN"
| "js_mul _ NaN = NaN"
| "js_mul x y =
     (let s = js_sgn x * js_sgn y in
      if s = 0 then NaN else if 0 < s then PosInf else NegInf)"

text \<open>The relational operator \<open><\<close> on numbers: false as soon as one side is \<open>NaN\<close>.\<close>

fun js_less :: "jsnum \<Rightarrow> jsnum \<Rightarrow> bool" where
  "js_less (Num a i) (Num b j) = (a * 10 ^ j < b * 10 ^ i)"
| "js_less NaN _ = False"
| "js_less _ NaN = False"
| "js_less NegInf y = (y \<noteq> NegInf)"
| "js_less x PosInf = (x \<noteq> PosInf)"
| "js_less _ _ = False"

abbreviation js_zero :: jsnum where
  "js_zero \<equiv> Num 0 0"

text \<open>\<open>ToIntegerOrInfinity\<close> on a finite value: truncation toward zero.\<close>

definition int_trunc :: "int \<Rightarrow> nat \<Rightarrow> int" where
  "int_trunc m k = sgn m * (\<bar>m\<bar> div 10 ^ k)"

section \<open>Values\<close>

text \<open>
  The values the program reads from JSON and from its own objects. Objects carry
  their own properties (distinct keys, as \<open>JSON.parse\<close> produces them);
  \<open>JFun name\<close> is a built-in function reached through a property lookup.
\<close>

datatype jsval =
    JUndef
  | JNull
  | JBool bool
  | JNumber jsnum
  | JStr string
  | JArr "jsval list"
  | JObj "(string \<times> jsval) list"
  | JFun string

text \<open>\<open>ToBoolean\<close>.\<close>

fun js_truthy :: "jsval \<Rightarrow> bool" where
  "js_truthy JUndef = False"
| "js_truthy JNull = False"
| "js_truthy (JBool b) = b"
| "js_truthy (JNumber n) = (js_sgn n \<noteq> 0)"
| "js_truthy (JStr s) = (s \<noteq> [])"
| "js_truthy (JArr _) = True"
| "js_truthy (JObj _) = True"
| "js_truthy (JFun _) = True"

text \<open>\<open>a || b\<close>.\<close>

definition js_or :: "jsval \<Rightarrow> jsval \<Rightarrow> jsval" where
  "js_or a b = (if js_truthy a then a else b)"

text \<open>
  \<open>v.key\<close> for the keys the program reads from data (none of them is a member of
  \<open>Object.prototype\<close> or of the primitive wrappers): an own property or \<open>undefined\<close>.
  On \<open>null\<close> and \<open>undefined\<close> JavaScript throws; \<open>get_prop_strict\<close> models that.
\<close>

fun get_prop :: "jsval \<Rightarrow> string \<Rightarrow> jsval" where
  "get_prop (JObj kvs) k = (case map_of kvs k of Some v \<Rightarrow> v | None \<Rightarrow> JUndef)"
| "get_prop _ k = JUndef"

datatype error = TypeError | RangeError | SyntaxError | NoCommodityPrices

fun get_prop_strict :: "jsval \<Rightarrow> string \<Rightarrow> error + jsval" where
  "get_prop_strict JUndef k = Inl TypeError"
| "get_prop_strict JNull k = Inl TypeError"
| "get_prop_strict v k = Inr (get_prop v k)"

section \<open>Characters\<close>

abbreviation code_of :: "char \<Rightarrow> nat" where
  "code_of c \<equiv> of_char c"

definition is_digit :: "char \<Rightarrow> bool" where
  "is_digit c \<longleftrightarrow> 48 \<le> code_of c \<and> code_of c \<le> 57"

definition is_upper :: "char \<Rightarrow> bool" where
  "is_upper c \<longleftrightarrow> 65 \<le> code_of c \<and> code_of c \<le> 90"

definition is_lower :: "char \<Rightarrow> bool" where
  "is_lower c \<longleftrightarrow> 97 \<le> code_of c \<and> code_of c \<le> 122"

text \<open>The regular-expression class \<open>\w\<close>: \<open>[A-Za-z0-9_]\<close>.\<close>

definition is_word_char :: "char \<Rightarrow> bool" where
  "is_word_char c \<longleftrightarrow> is_upper c \<or> is_lower c \<or> is_digit c \<or> c = CHR ''_''"

text \<open>The ASCII members of \<open>\s\<close> and of \<open>StrWhiteSpaceChar\<close>: tab, LF, VT, FF, CR, space.\<close>

definition is_space :: "char \<Rightarrow> bool" where
  "is_space c \<longleftrightarrow> c \<in> set [CHR 0x09, CHR 0x0A, CHR 0x0B, CHR 0x0C, CHR 0x0D, CHR 0x20]"

definition to_lower_char :: "char \<Rightarrow> char" where
  "to_lower_char c = (if is_upper c then ''abcdefghijklmnopqrstuvwxyz'' ! (code_of c - 65) else c)"

definition to_upper_char :: "char \<Rightarrow> char" where
  "to_upper_char c = (if is_lower c then ''ABCDEFGHIJKLMNOPQRSTUVWXYZ'' ! (code_of c - 97) else c)"

abbreviation to_lower :: "string \<Rightarrow> string" where
  "to_lower s \<equiv> map to_lower_char s"

definition digit_char :: "nat \<Rightarrow> char" where
  "digit_char d = ''0123456789'' ! d"

text \<open>\<open>s.startsWith(t)\<close> and \<open>s.includes(t)\<close>.\<close>

fun starts_with :: "string \<Rightarrow> string \<Rightarrow> bool" where
  "starts_with s [] = True"
| "starts_with [] (c # cs) = False"
| "starts_with (d # ds) (c # cs) = (d = c \<and> starts_with ds cs)"

fun js_includes :: "string \<Rightarrow> string \<Rightarrow> bool" where
  "js_includes [] t = (t = [])"
| "js_includes (c # cs) t = (starts_with (c # cs) t \<or> js_includes cs t)"

section \<open>Exceptions through a loop\<close>

text \<open>\<open>xs.map(f)\<close> where \<open>f\<close> may throw: the first exception aborts the whole map.\<close>

fun map_ex :: "('a \<Rightarrow> error + 'b) \<Rightarrow> 'a list \<Rightarrow> error + 'b list" where
  "map_ex f [] = Inr []"
| "map_ex f (x # xs) =
     (case f x of
        Inl e \<Rightarrow> Inl e
      | Inr y \<Rightarrow> (case map_ex f xs of Inl e \<Rightarrow> Inl e | Inr ys \<Rightarrow> Inr (y # ys)))"

text \<open>\<open>xs.filter(p)\<close> where \<open>p\<close> may throw.\<close>

fun filter_ex :: "('a \<Rightarrow> error + bool) \<Rightarrow> 'a list \<Rightarrow> error + 'a list" where
  "filter_ex p [] = Inr []"
| "filter_ex p (x # xs) =
     (case p x of
        Inl e \<Rightarrow> Inl e
      | Inr b \<Rightarrow> (case filter_ex p xs of Inl e \<Rightarrow> Inl e | Inr ys \<Rightarrow> Inr (if b then x # ys else ys)))"

section \<open>Sets built from lists\<close>

text \<open>
  \<open>[...new Set(xs)]\<close>: the distinct elements in order of first occurrence.
\<close>

fun dedup :: "'a list \<Rightarrow> 'a list" where
  "dedup [] = []"
| "dedup (x # xs) = x # dedup (filter (\<lambda>y. y \<noteq> x) xs)"

section \<open>Generic lemmas\<close>

lemma starts_with_iff [simp]: "starts_with s t \<longleftrightarrow> take (length t) s = t"
  by (induction s t rule: starts_with.induct) auto

lemma js_includes_iff: "js_includes s t \<longleftrightarrow> (\<exists>i \<le> length s. take (length t) (drop i s) = t)"
proof (induction s)
  case Nil
  then show ?case by auto
next
  case (Cons c cs)
  have "(\<exists>i \<le> length (c # cs). take (length t) (drop i (c # cs)) = t) \<longleftrightarrow>
        take (length t) (c # cs) = t \<or> (\<exists>i \<le> length cs. take (length t) (drop i cs) = t)"
    (is "?l \<longleftrightarrow> ?r")
  proof
    assume ?l
    then obtain i where "i \<le> length (c # cs)" "take (length t) (drop i (c # cs)) = t" by blast
    then show ?r by (cases i) auto
  next
    assume ?r
    then show ?l by (metis Suc_le_mono drop_Suc_Cons drop0 le0 length_Cons)
  qed
  then show ?case using Cons.IH by simp
qed

lemma map_ex_Inr_iff: "map_ex f xs = Inr ys \<longleftrightarrow> list_all2 (\<lambda>x y. f x = Inr y) xs ys"
proof
  show "map_ex f xs = Inr ys \<Longrightarrow> list_all2 (\<lambda>x y. f x = Inr y) xs ys"
    by (induction xs arbitrary: ys) (auto split: sum.splits)
next
  assume "list_all2 (\<lambda>x y. f x = Inr y) xs ys"
  then show "map_ex f xs = Inr ys"
    by (induction rule: list_all2_induct) auto
qed

lemma map_ex_Inl_iff: "(\<exists>e. map_ex f xs = Inl e) \<longleftrightarrow> (\<exists>x \<in> set xs. \<exists>e. f x = Inl e)"
  by (induction xs) (auto split: sum.splits)

lemma filter_ex_Inr: "(\<And>x. x \<in> set xs \<Longrightarrow> p x = Inr (P x)) \<Longrightarrow> filter_ex p xs = Inr (filter P xs)"
  by (induction xs) auto

lemma filter_ex_Inl: "x \<in> set xs \<Longrightarrow> p x = Inl e \<Longrightarrow> \<exists>e'. filter_ex p xs = Inl e'"
  by (induction xs) (auto split: sum.splits)

lemma filter_ex_InlD: "filter_ex p xs = Inl e \<Longrightarrow> \<exists>x \<in> set xs. p x = Inl e"
  by (induction xs) (auto split: sum.splits)

lemma filter_ex_InrD:
  "filter_ex p xs = Inr zs \<Longrightarrow> zs = filter (\<lambda>x. p x = Inr True) xs \<and> (\<forall>x \<in> set xs. \<exists>b. p x = Inr b)"
  by (induction xs arbitrary: zs) (auto split: sum.splits)

lemma set_dedup [simp]: "set (dedup xs) = set xs"
  by (induction xs rule: dedup.induct) auto

lemma distinct_dedup [simp]: "distinct (dedup xs)"
  by (induction xs rule: dedup.induct) auto

lemma dedup_distinct_id: "distinct xs \<Longrightarrow> dedup xs = xs"
  by (induction xs rule: dedup.induct) (auto simp: filter_id_conv)

lemma length_dedup: "length (dedup xs) = card (set xs)"
  by (metis distinct_card distinct_dedup set_dedup)

lemma js_less_num [js_simps]: "js_less (Num a i) (Num b j) \<longleftrightarrow> dec_val a i < dec_val b j"
proof -
  have p: "(0::rat) < 10 ^ i" "(0::rat) < 10 ^ j" by simp_all
  have "dec_val a i < dec_val b j \<longleftrightarrow> of_int a * 10 ^ j < of_int b * (10 ^ i :: rat)"
    using p by (simp add: dec_val_def field_simps)
  also have "\<dots> \<longleftrightarrow> a * 10 ^ j < b * 10 ^ i"
    using of_int_less_iff [of "a * 10 ^ j" "b * 10 ^ i", where 'a = rat] by simp
  finally show ?thesis by simp
qed

lemma dec_val_add [js_simps]: "dec_val (a * 10 ^ j + b * 10 ^ i) (i + j) = dec_val a i + dec_val b j"
  by (simp add: dec_val_def field_simps power_add)

lemma dec_val_sub [js_simps]: "dec_val (a * 10 ^ j - b * 10 ^ i) (i + j) = dec_val a i - dec_val b j"
  by (simp add: dec_val_def field_simps power_add)

lemma dec_val_mul [js_simps]: "dec_val (a * b) (i + j) = dec_val a i * dec_val b j"
  by (simp add: dec_val_def power_add)

lemma dec_val_neg [js_simps]: "dec_val (- a) k = - dec_val a k"
  by (simp add: dec_val_def)

lemma num_val_js_mul [js_simps]:
  "num_val x = Some a \<Longrightarrow> num_val y = Some b \<Longrightarrow> num_val (js_mul x y) = Some (a * b)"
  by (cases x; cases y) (auto simp: dec_val_mul)

lemma num_val_js_sub [js_simps]:
  "num_val x = Some a \<Longrightarrow> num_val y = Some b \<Longrightarrow> num_val (js_sub x y) = Some (a - b)"
  by (cases x; cases y) (auto simp: js_sub_def dec_val_sub)

lemma dec_val_zero [simp]: "dec_val 0 k = 0"
  by (simp add: dec_val_def)

lemma dec_val_pos_iff [js_simps]: "0 < dec_val m k \<longleftrightarrow> 0 < m"
  by (simp add: dec_val_def zero_less_divide_iff)

end
