(* ===== verification/Js_Number.thy ===== *)
theory Js_Number
  imports Prelude
begin

text \<open>
  The number coercions the program calls: \<open>String(v)\<close> (with
  \<open>Number::toString\<close> for numbers), \<open>parseFloat(s)\<close> and \<open>ToNumber\<close> (used by
  the \<open>*\<close> in \<open>item.updated * 1000\<close>). They follow ECMA-262 on the byte model of
  strings fixed in \<open>Prelude\<close>. \<open>parseFloat\<close> and \<open>StringToNumber\<close> share one
  scanner for \<open>StrDecimalLiteral\<close>: the first takes the longest prefix, the second
  demands that the whole (trimmed) string be a literal.
\<close>

section \<open>Digits\<close>

fun nat_digits :: "nat \<Rightarrow> string" where
  "nat_digits n = (if n < 10 then [digit_char n] else nat_digits (n div 10) @ [digit_char (n mod 10)])"

declare nat_digits.simps [simp del]

definition digit_val :: "char \<Rightarrow> nat" where
  "digit_val c = code_of c - 48"

definition digits_val :: "string \<Rightarrow> nat" where
  "digits_val ds = foldl (\<lambda>a c. 10 * a + digit_val c) 0 ds"

section \<open>Number::toString (radix 10)\<close>

text \<open>
  \<open>strip_zeros s e\<close> removes the trailing zeros of the mantissa of \<open>s \<times> 10^e\<close>; the
  result is the shortest digit string \<open>s\<close> of ECMA-262 7.1.12.1.
\<close>

fun strip_zeros :: "nat \<Rightarrow> int \<Rightarrow> nat \<times> int" where
  "strip_zeros s e = (if s \<noteq> 0 \<and> s mod 10 = 0 then strip_zeros (s div 10) (e + 1) else (s, e))"

declare strip_zeros.simps [simp del]

text \<open>The four layouts of \<open>Number::toString\<close> for digits \<open>ds\<close> and decimal point position \<open>n\<close>.\<close>

definition fmt_digits :: "string \<Rightarrow> int \<Rightarrow> string" where
  "fmt_digits ds n =
    (let k = int (length ds) in
     if k \<le> n \<and> n \<le> 21 then ds @ replicate (nat (n - k)) CHR ''0''
     else if 0 < n \<and> n \<le> 21 then take (nat n) ds @ ''.'' @ drop (nat n) ds
     else if -6 < n \<and> n \<le> 0 then ''0.'' @ replicate (nat (- n)) CHR ''0'' @ ds
     else
       (let x = n - 1;
            es = (if x < 0 then CHR ''-'' else CHR ''+'') # nat_digits (nat \<bar>x\<bar>)
        in if k = 1 then ds @ ''e'' @ es else take 1 ds @ ''.'' @ drop 1 ds @ ''e'' @ es))"

fun num_to_string :: "jsnum \<Rightarrow> string" where
  "num_to_string NaN = ''NaN''"
| "num_to_string PosInf = ''Infinity''"
| "num_to_string NegInf = ''-Infinity''"
| "num_to_string (Num m k) =
     (if m = 0 then ''0''
      else (if m < 0 then ''-'' else []) @
        (case strip_zeros (nat \<bar>m\<bar>) (- int k) of
           (s, e) \<Rightarrow> fmt_digits (nat_digits s) (e + int (length (nat_digits s)))))"

section \<open>String(v)\<close>

fun join_with :: "string \<Rightarrow> string list \<Rightarrow> string" where
  "join_with sep [] = []"
| "join_with sep [x] = x"
| "join_with sep (x # xs) = x @ sep @ join_with sep xs"

text \<open>
  \<open>Array.prototype.toString\<close> is \<open>join(",")\<close>, which writes \<open>null\<close> and
  \<open>undefined\<close> elements as the empty string.
\<close>

fun to_js_string :: "jsval \<Rightarrow> string" where
  "to_js_string JUndef = ''undefined''"
| "to_js_string JNull = ''null''"
| "to_js_string (JBool b) = (if b then ''true'' else ''false'')"
| "to_js_string (JNumber n) = num_to_string n"
| "to_js_string (JStr s) = s"
| "to_js_string (JArr xs) =
     join_with '','' (map (\<lambda>x. if x = JUndef \<or> x = JNull then [] else to_js_string x) xs)"
| "to_js_string (JObj _) = ''[object Object]''"
| "to_js_string (JFun f) = ''function '' @ f @ ''() { [native code] }''"

section \<open>The decimal literal scanner\<close>

text \<open>\<open>ExponentPart\<close>: consumed only when at least one digit follows the \<open>e\<close> and sign.\<close>

definition scan_exp :: "string \<Rightarrow> int \<times> string" where
  "scan_exp s =
    (case s of
       [] \<Rightarrow> (0, [])
     | c # r \<Rightarrow>
         if c = CHR ''e'' \<or> c = CHR ''E'' then
           (let (sg, r') =
                  (case r of
                     [] \<Rightarrow> (1::int, r)
                   | d # r'' \<Rightarrow> if d = CHR ''+'' then (1, r'') else if d = CHR ''-'' then (-1, r'') else (1, r));
                ds = takeWhile is_digit r'
            in if ds = [] then (0, s) else (sg * int (digits_val ds), dropWhile is_digit r'))
         else (0, s))"

text \<open>The value \<open>m \<times> 10^x / 10^k\<close> of mantissa \<open>m\<close>, \<open>k\<close> fraction digits and exponent \<open>x\<close>.\<close>

definition scale_num :: "nat \<Rightarrow> nat \<Rightarrow> int \<Rightarrow> jsnum" where
  "scale_num m k x = (if 0 \<le> x then Num (int m * 10 ^ nat x) k else Num (int m) (k + nat (- x)))"

text \<open>\<open>StrUnsignedDecimalLiteral\<close>, longest prefix.\<close>

definition scan_unsigned :: "string \<Rightarrow> (jsnum \<times> string) option" where
  "scan_unsigned s =
    (if take 8 s = ''Infinity'' then Some (PosInf, drop 8 s)
     else
       (let ip = takeWhile is_digit s;
            r1 = dropWhile is_digit s;
            (fp, r2) =
              (case r1 of
                 [] \<Rightarrow> ([], [])
               | c # r \<Rightarrow> if c = CHR ''.'' then (takeWhile is_digit r, dropWhile is_digit r) else ([], r1))
        in if ip = [] \<and> fp = [] then None
           else (case scan_exp r2 of (x, r3) \<Rightarrow> Some (scale_num (digits_val (ip @ fp)) (length fp) x, r3))))"

text \<open>\<open>StrDecimalLiteral\<close>: an optional sign, then the unsigned literal.\<close>

definition scan_decimal :: "string \<Rightarrow> (jsnum \<times> string) option" where
  "scan_decimal s =
    (case s of
       [] \<Rightarrow> None
     | c # r \<Rightarrow>
         if c = CHR ''-'' then map_option (apfst js_neg) (scan_unsigned r)
         else if c = CHR ''+'' then scan_unsigned r
         else scan_unsigned s)"

text \<open>\<open>parseFloat(string)\<close>: leading white space skipped, longest literal prefix, else \<open>NaN\<close>.\<close>

definition parse_float :: "string \<Rightarrow> jsnum" where
  "parse_float s = (case scan_decimal (dropWhile is_space s) of Some (v, _) \<Rightarrow> v | None \<Rightarrow> NaN)"

section \<open>ToNumber\<close>

definition hex_val :: "char \<Rightarrow> nat option" where
  "hex_val c =
    (if is_digit c then Some (digit_val c)
     else if 97 \<le> code_of c \<and> code_of c \<le> 102 then Some (code_of c - 87)
     else if 65 \<le> code_of c \<and> code_of c \<le> 70 then Some (code_of c - 55)
     else None)"

text \<open>The digits of a \<open>0x\<close>, \<open>0o\<close> or \<open>0b\<close> literal (at least one, all below the radix).\<close>

fun radix_val :: "nat \<Rightarrow> nat \<Rightarrow> string \<Rightarrow> nat option" where
  "radix_val b acc [] = Some acc"
| "radix_val b acc (c # cs) =
     (case hex_val c of
        Some d \<Rightarrow> if d < b then radix_val b (b * acc + d) cs else None
      | None \<Rightarrow> None)"

definition trim_js :: "string \<Rightarrow> string" where
  "trim_js s = rev (dropWhile is_space (rev (dropWhile is_space s)))"

definition radix_literal :: "nat \<Rightarrow> string \<Rightarrow> jsnum" where
  "radix_literal b ds = (if ds = [] then NaN else case radix_val b 0 ds of Some n \<Rightarrow> Num (int n) 0 | None \<Rightarrow> NaN)"

text \<open>\<open>StringToNumber\<close>: the whole trimmed string must be a numeric literal; empty is 0.\<close>

definition string_to_number :: "string \<Rightarrow> jsnum" where
  "string_to_number s =
    (let t = trim_js s in
     if t = [] then js_zero
     else if take 2 t \<in> {''0x'', ''0X''} then radix_literal 16 (drop 2 t)
     else if take 2 t \<in> {''0o'', ''0O''} then radix_literal 8 (drop 2 t)
     else if take 2 t \<in> {''0b'', ''0B''} then radix_literal 2 (drop 2 t)
     else (case scan_decimal t of Some (v, []) \<Rightarrow> v | _ \<Rightarrow> NaN))"

text \<open>\<open>ToNumber\<close>; objects go through \<open>ToPrimitive\<close>, i.e. their \<open>toString\<close>.\<close>

fun js_to_number :: "jsval \<Rightarrow> jsnum" where
  "js_to_number JUndef = NaN"
| "js_to_number JNull = js_zero"
| "js_to_number (JBool b) = (if b then Num 1 0 else js_zero)"
| "js_to_number (JNumber n) = n"
| "js_to_number (JStr s) = string_to_number s"
| "js_to_number (JArr xs) = string_to_number (to_js_string (JArr xs))"
| "js_to_number (JObj _) = NaN"
| "js_to_number (JFun _) = NaN"

section \<open>Evaluation rules\<close>

text \<open>
  \<open>nat_digits\<close> and \<open>strip_zeros\<close> unfold on literals only, so that \<open>simp\<close> never
  unfolds them on a variable; with the definitions of the scanner they make up
  \<open>js_simps\<close>, the rules that evaluate the primitives on concrete strings.
\<close>

lemma nat_digits_numeral [js_simps]:
  "nat_digits (numeral w) =
     (if numeral w < (10::nat) then [digit_char (numeral w)]
      else nat_digits (numeral w div 10) @ [digit_char (numeral w mod 10)])"
  by (rule nat_digits.simps)

lemma nat_digits_small [js_simps]: "nat_digits 0 = ''0''" "nat_digits 1 = ''1''" "nat_digits (Suc 0) = ''1''"
  by (simp_all add: nat_digits.simps digit_char_def)

lemma strip_zeros_numeral [js_simps]:
  "strip_zeros (numeral w) e =
     (if numeral w mod 10 = (0::nat) then strip_zeros (numeral w div 10) (e + 1) else (numeral w, e))"
  by (simp add: strip_zeros.simps [of "numeral w"])

lemma strip_zeros_small [js_simps]: "strip_zeros 0 e = (0, e)" "strip_zeros 1 e = (1, e)" "strip_zeros (Suc 0) e = (1, e)"
  by (simp_all add: strip_zeros.simps)

lemmas scan_defs [js_simps] = parse_float_def scan_decimal_def scan_unsigned_def scan_exp_def
  scale_num_def digits_val_def digit_val_def is_digit_def is_space_def digit_char_def
  fmt_digits_def string_to_number_def trim_js_def radix_literal_def hex_val_def

section \<open>Digits\<close>

lemma digit_char_props:
  assumes "d < 10"
  shows "is_digit (digit_char d)" and "digit_val (digit_char d) = d"
  using assms
  by (auto simp: less_Suc_eq numeral_eq_Suc digit_char_def is_digit_def digit_val_def)

lemma nat_digits_props: "nat_digits n \<noteq> [] \<and> list_all is_digit (nat_digits n)"
proof (induction n rule: nat_digits.induct)
  case (1 n)
  then show ?case
    by (simp add: nat_digits.simps [of n] digit_char_props)
qed

lemma digits_val_append: "digits_val (xs @ ys) = digits_val xs * 10 ^ length ys + digits_val ys"
proof (induction ys rule: rev_induct)
  case Nil
  then show ?case by (simp add: digits_val_def)
next
  case (snoc y ys)
  have step: "digits_val (zs @ [y]) = 10 * digits_val zs + digit_val y" for zs
    by (simp add: digits_val_def)
  show ?case
    using snoc.IH by (simp only: step append_assoc [symmetric]) (simp add: algebra_simps)
qed

lemma digits_val_nat_digits [simp]: "digits_val (nat_digits n) = n"
proof (induction n rule: nat_digits.induct)
  case (1 n)
  show ?case
  proof (cases "n < 10")
    case True
    then show ?thesis
      by (simp add: nat_digits.simps [of n] digits_val_def digit_char_props)
  next
    case False
    then have "digits_val (nat_digits n) = (n div 10) * 10 + n mod 10"
      using "1" by (simp add: nat_digits.simps [of n] digits_val_append digits_val_def digit_char_props)
    then show ?thesis by simp
  qed
qed

section \<open>Scanning what toString writes\<close>

lemma digit_simps [simp]:
  "\<not> is_digit CHR ''.''" "\<not> is_digit CHR ''e''" "\<not> is_digit CHR ''+''" "\<not> is_digit CHR ''-''" "is_digit CHR ''0''"
  by (simp_all add: is_digit_def)

lemma digits_val_zeros [simp]: "digits_val (replicate j CHR ''0'' @ ds) = digits_val ds"
  by (induction j) (simp_all add: digits_val_def digit_val_def)

lemma digits_val_append_zeros: "digits_val (ds @ replicate j CHR ''0'') = digits_val ds * 10 ^ j"
proof -
  have z: "digits_val (replicate j CHR ''0'') = 0" using digits_val_zeros [of j "[]"] by (simp add: digits_val_def)
  show ?thesis by (simp add: digits_val_append z)
qed

lemma num_val_scale_num:
  "num_val (scale_num a b x) = Some (of_nat a * 10 powi x / 10 ^ b)"
  by (auto simp: scale_num_def dec_val_def power_int_def power_add field_simps nat_add_distrib)

lemma not_infinity: "is_digit c \<Longrightarrow> take 8 (c # r) \<noteq> ''Infinity''"
  by (auto simp: is_digit_def)

lemma all_digits_take [simp]: "list_all is_digit ds \<Longrightarrow> takeWhile is_digit (ds @ r) = ds @ takeWhile is_digit r"
  by (simp add: takeWhile_append2 list_all_iff)

lemma all_digits_drop [simp]: "list_all is_digit ds \<Longrightarrow> dropWhile is_digit (ds @ r) = dropWhile is_digit r"
  by (simp add: dropWhile_append2 list_all_iff)

lemma all_digits_take_drop_Nil [simp]:
  "list_all is_digit ds \<Longrightarrow> takeWhile is_digit ds = ds"
  "list_all is_digit ds \<Longrightarrow> dropWhile is_digit ds = []"
  by (simp_all add: list_all_iff)

lemma nat_digits_take_drop [simp]:
  "takeWhile is_digit (nat_digits x) = nat_digits x" "dropWhile is_digit (nat_digits x) = []"
  using nat_digits_props [of x] by (simp_all add: list_all_iff)

lemma scan_exp_digits:
  "sg \<in> {CHR ''+'', CHR ''-''} \<Longrightarrow>
   scan_exp (CHR ''e'' # sg # nat_digits x) = ((if sg = CHR ''-'' then -1 else 1) * int x, [])"
  using nat_digits_props [of x] by (auto simp: scan_exp_def)

lemma scan_exp_Nil [simp]: "scan_exp [] = (0, [])"
  by (simp add: scan_exp_def)

lemma scan_unsigned_shape:
  assumes "ip \<noteq> []" "list_all is_digit ip" "list_all is_digit fp"
    and "tail = [] \<or> (\<exists>sg x. sg \<in> {CHR ''+'', CHR ''-''} \<and> tail = CHR ''e'' # sg # nat_digits x)"
  shows "scan_unsigned (ip @ (if fp = [] then [] else CHR ''.'' # fp) @ tail) =
         Some (scale_num (digits_val (ip @ fp)) (length fp) (fst (scan_exp tail)), [])"
proof -
  obtain c r where ip: "ip = c # r" using assms(1) by (cases ip) auto
  have c: "is_digit c" using assms(2) ip by simp
  have inf: "take 8 (ip @ rest) \<noteq> ''Infinity''" for rest using not_infinity [OF c, of "r @ rest"] ip by simp
  from assms(4) consider (nil) "tail = []" | (ex) sg x where "sg \<in> {CHR ''+'', CHR ''-''}" "tail = CHR ''e'' # sg # nat_digits x"
    by blast
  then show ?thesis
  proof cases
    case nil
    then show ?thesis using assms(1,2,3) inf [of "[]"] inf [of "CHR ''.'' # fp"]
      by (cases "fp = []") (simp_all add: scan_unsigned_def Let_def)
  next
    case ex
    then show ?thesis using assms(1,2,3) inf
      by (cases "fp = []") (auto simp: scan_unsigned_def Let_def scan_exp_digits)
  qed
qed

lemma num_val_scale_num':
  "num_val (scale_num a b x) = Some (of_nat a * 10 powi (x - int b))"
  by (simp add: num_val_scale_num power_int_diff power_int_of_nat)

text \<open>
  The text \<open>fmt_digits\<close> writes is an integer part, an optional fraction and an
  optional exponent; its value is that of the digits scaled to the point
  position, and the integer part has no leading zero unless it is \<open>0\<close>.
\<close>

lemma fmt_digits_shape_intro:
  assumes "fmt_digits ds n = ip @ (if fp = [] then [] else CHR ''.'' # fp) @ tail"
    and "ip \<noteq> []" and "list_all is_digit ip" and "list_all is_digit fp"
    and "tail = [] \<or> (\<exists>sg x. sg \<in> {CHR ''+'', CHR ''-''} \<and> tail = CHR ''e'' # sg # nat_digits x)"
    and "(of_nat (digits_val (ip @ fp)) :: rat) * 10 powi (fst (scan_exp tail) - int (length fp)) =
           of_nat (digits_val ds) * 10 powi (n - int (length ds))"
    and "hd ds \<noteq> CHR ''0'' \<longrightarrow> hd ip \<noteq> CHR ''0'' \<or> ip = ''0''"
  shows "\<exists>ip fp tail. fmt_digits ds n = ip @ (if fp = [] then [] else CHR ''.'' # fp) @ tail \<and>
           ip \<noteq> [] \<and> list_all is_digit ip \<and> list_all is_digit fp \<and>
           (tail = [] \<or> (\<exists>sg x. sg \<in> {CHR ''+'', CHR ''-''} \<and> tail = CHR ''e'' # sg # nat_digits x)) \<and>
           (of_nat (digits_val (ip @ fp)) :: rat) * 10 powi (fst (scan_exp tail) - int (length fp)) =
             of_nat (digits_val ds) * 10 powi (n - int (length ds)) \<and>
           (hd ds \<noteq> CHR ''0'' \<longrightarrow> hd ip \<noteq> CHR ''0'' \<or> ip = ''0'')"
  using assms by blast

lemma fmt_digits_shape:
  assumes ne: "ds \<noteq> []" and dg: "list_all is_digit ds"
  shows "\<exists>ip fp tail. fmt_digits ds n = ip @ (if fp = [] then [] else CHR ''.'' # fp) @ tail \<and>
           ip \<noteq> [] \<and> list_all is_digit ip \<and> list_all is_digit fp \<and>
           (tail = [] \<or> (\<exists>sg x. sg \<in> {CHR ''+'', CHR ''-''} \<and> tail = CHR ''e'' # sg # nat_digits x)) \<and>
           (of_nat (digits_val (ip @ fp)) :: rat) * 10 powi (fst (scan_exp tail) - int (length fp)) =
             of_nat (digits_val ds) * 10 powi (n - int (length ds)) \<and>
           (hd ds \<noteq> CHR ''0'' \<longrightarrow> hd ip \<noteq> CHR ''0'' \<or> ip = ''0'')"
proof -
  let ?k = "int (length ds)"
  have dg_take: "list_all is_digit (take i ds)" and dg_drop: "list_all is_digit (drop i ds)" for i
    using dg by (auto simp: list_all_iff dest: in_set_takeD in_set_dropD)
  have dg_zeros: "list_all is_digit (replicate j CHR ''0'' @ xs)" if "list_all is_digit xs" for j xs
    using that by (auto simp: list_all_iff)
  consider (l1) "?k \<le> n" "n \<le> 21" | (l2) "0 < n" "n \<le> 21" "n < ?k" | (l3) "-6 < n" "n \<le> 0"
    | (l4) "\<not> (?k \<le> n \<and> n \<le> 21)" "\<not> (0 < n \<and> n \<le> 21)" "\<not> (-6 < n \<and> n \<le> 0)"
    by linarith
  then show ?thesis
  proof cases
    case l1
    let ?ip = "ds @ replicate (nat (n - ?k)) CHR ''0''"
    have f: "fmt_digits ds n = ?ip @ (if [] = [] then [] else CHR ''.'' # []) @ []"
      using l1 by (simp add: fmt_digits_def)
    have nk: "n - ?k = int (nat (n - ?k))" using l1 by simp
    have v: "(of_nat (digits_val (?ip @ [])) :: rat) * 10 powi (fst (scan_exp []) - int (length ([]::string))) =
             of_nat (digits_val ds) * 10 powi (n - ?k)"
      by (subst nk) (simp only: append_Nil2 digits_val_append_zeros scan_exp_Nil fst_conv power_int_of_nat
                       list.size(3) of_nat_0 diff_zero power_int_0_right of_nat_mult of_nat_power mult_1_right, simp)
    have d: "list_all is_digit ?ip" using dg by (auto simp: list_all_iff)
    show ?thesis by (rule fmt_digits_shape_intro [OF f _ d _ _ v]) (use ne in simp_all)
  next
    case l2
    let ?ip = "take (nat n) ds" and ?fp = "drop (nat n) ds"
    have f: "fmt_digits ds n = ?ip @ (if ?fp = [] then [] else CHR ''.'' # ?fp) @ []"
      using l2 by (simp add: fmt_digits_def)
    have e: "int (length ?fp) = ?k - n" using l2 by (simp add: of_nat_diff)
    have v: "(of_nat (digits_val (?ip @ ?fp)) :: rat) * 10 powi (fst (scan_exp []) - int (length ?fp)) =
             of_nat (digits_val ds) * 10 powi (n - ?k)"
      by (simp only: e append_take_drop_id scan_exp_Nil fst_conv) simp
    have ipne: "?ip \<noteq> []" using l2 ne by simp
    have h: "hd ?ip = hd ds" using l2 ne by (simp add: hd_take)
    show ?thesis by (rule fmt_digits_shape_intro [OF f ipne dg_take dg_drop _ v]) (use h in simp_all)
  next
    case l3
    let ?fp = "replicate (nat (- n)) CHR ''0'' @ ds"
    have f: "fmt_digits ds n = ''0'' @ (if ?fp = [] then [] else CHR ''.'' # ?fp) @ []"
    proof -
      have k: "\<not> int (length ds) \<le> n" using ne l3 by (cases ds) auto
      show ?thesis using l3 k ne by (simp add: fmt_digits_def Let_def)
    qed
    have z: "digits_val (''0'' @ ?fp) = digits_val ds"
      using digits_val_zeros [of "Suc (nat (- n))" ds] by simp
    have v: "(of_nat (digits_val (''0'' @ ?fp)) :: rat) * 10 powi (fst (scan_exp []) - int (length ?fp)) =
             of_nat (digits_val ds) * 10 powi (n - ?k)"
      using l3 by (simp only: z scan_exp_Nil fst_conv) simp
    have d0: "list_all is_digit ''0''" by simp
    show ?thesis by (rule fmt_digits_shape_intro [OF f _ d0 dg_zeros [OF dg] _ v]) simp_all
  next
    case l4
    define x where "x = n - 1"
    define sg where "sg = (if x < 0 then CHR ''-'' else CHR ''+'')"
    let ?t = "CHR ''e'' # sg # nat_digits (nat \<bar>x\<bar>)"
    have sg: "sg \<in> {CHR ''+'', CHR ''-''}" and ex: "fst (scan_exp ?t) = x"
      by (auto simp: sg_def scan_exp_digits)
    show ?thesis
    proof (cases "length ds = 1")
      case True
      have f: "fmt_digits ds n = ds @ (if ([]::string) = [] then [] else CHR ''.'' # []) @ ?t"
        using l4 True by (auto simp: fmt_digits_def x_def sg_def Let_def)
      have v: "(of_nat (digits_val (ds @ [])) :: rat) * 10 powi (fst (scan_exp ?t) - int (length ([]::string))) =
               of_nat (digits_val ds) * 10 powi (n - ?k)"
        using True by (simp only: ex) (simp add: x_def)
      show ?thesis by (rule fmt_digits_shape_intro [OF f ne dg _ _ v]) (use sg in auto)
    next
      case False
      have two: "2 \<le> length ds" using False ne by (cases ds) (auto simp: Suc_le_eq)
      let ?ip = "take 1 ds" and ?fp = "drop 1 ds"
      have f: "fmt_digits ds n = ?ip @ (if ?fp = [] then [] else CHR ''.'' # ?fp) @ ?t"
        using l4 two by (auto simp: fmt_digits_def x_def sg_def Let_def)
      have e: "x - int (length ?fp) = n - ?k" using two by (simp add: x_def of_nat_diff)
      have v: "(of_nat (digits_val (?ip @ ?fp)) :: rat) * 10 powi (fst (scan_exp ?t) - int (length ?fp)) =
               of_nat (digits_val ds) * 10 powi (n - ?k)"
        by (simp only: ex e append_take_drop_id)
      have ipne: "?ip \<noteq> []" using ne by simp
      have h: "hd ?ip = hd ds" using ne by (cases ds) auto
      show ?thesis by (rule fmt_digits_shape_intro [OF f ipne dg_take dg_drop _ v]) (use h sg in auto)
    qed
  qed
qed

lemma fmt_digits_scan:
  assumes ne: "ds \<noteq> []" and dg: "list_all is_digit ds"
  shows "\<exists>v. scan_unsigned (fmt_digits ds n) = Some (v, []) \<and>
             num_val v = Some (of_nat (digits_val ds) * 10 powi (n - int (length ds)))"
proof -
  obtain ip fp tail where f: "fmt_digits ds n = ip @ (if fp = [] then [] else CHR ''.'' # fp) @ tail"
      and ip: "ip \<noteq> []" "list_all is_digit ip" and fp: "list_all is_digit fp"
      and t: "tail = [] \<or> (\<exists>sg x. sg \<in> {CHR ''+'', CHR ''-''} \<and> tail = CHR ''e'' # sg # nat_digits x)"
      and v: "(of_nat (digits_val (ip @ fp)) :: rat) * 10 powi (fst (scan_exp tail) - int (length fp)) =
                of_nat (digits_val ds) * 10 powi (n - int (length ds))"
    using fmt_digits_shape [OF ne dg, of n] by blast
  show ?thesis
    using scan_unsigned_shape [OF ip fp t] f v by (simp add: num_val_scale_num')
qed

lemma strip_zeros_val:
  "strip_zeros s e = (s', e') \<Longrightarrow> (of_nat s' :: rat) * 10 powi e' = of_nat s * 10 powi e \<and> (s \<noteq> 0 \<longrightarrow> s' \<noteq> 0)"
proof (induction s e rule: strip_zeros.induct)
  case (1 s e)
  show ?case
  proof (cases "s \<noteq> 0 \<and> s mod 10 = 0")
    case True
    then have "strip_zeros (s div 10) (e + 1) = (s', e')" using "1.prems" by (simp add: strip_zeros.simps)
    then have ih: "(of_nat s' :: rat) * 10 powi e' = of_nat (s div 10) * 10 powi (e + 1) \<and> (s div 10 \<noteq> 0 \<longrightarrow> s' \<noteq> 0)"
      using "1.IH" True by blast
    have s: "s = s div 10 * 10" using True by (metis add.right_neutral div_mult_mod_eq)
    have "(of_nat (s div 10) :: rat) * 10 powi (e + 1) = of_nat s * 10 powi e"
      by (subst (2) s) (simp add: power_int_add)
    moreover have "s div 10 \<noteq> 0" using True by auto
    ultimately show ?thesis using ih by simp
  next
    case False
    have "strip_zeros s e = (s, e)" using False by (subst strip_zeros.simps) auto
    then show ?thesis using "1.prems" by simp
  qed
qed

lemma digit_no_space: "is_digit c \<Longrightarrow> \<not> is_space c"
  by (auto simp: is_digit_def is_space_def)

lemma fmt_digits_hd:
  "ds \<noteq> [] \<Longrightarrow> list_all is_digit ds \<Longrightarrow> \<exists>c r. fmt_digits ds n = c # r \<and> is_digit c"
  by (cases ds) (auto simp: fmt_digits_def Let_def take_Cons' split: if_splits)

lemma nat_digits_hd: "n \<noteq> 0 \<Longrightarrow> hd (nat_digits n) \<noteq> CHR ''0''"
proof (induction n rule: nat_digits.induct)
  case (1 n)
  show ?case
  proof (cases "n < 10")
    case True
    have "digit_val (digit_char n) = n" using True by (simp add: digit_char_props)
    then have "digit_char n \<noteq> CHR ''0''" using "1.prems" by (auto simp: digit_val_def)
    then show ?thesis using True by (simp add: nat_digits.simps [of n])
  next
    case False
    have ne: "nat_digits (n div 10) \<noteq> []" using nat_digits_props by blast
    have "hd (nat_digits (n div 10)) \<noteq> CHR ''0''" using "1.IH" False by simp
    then show ?thesis using False ne by (simp add: nat_digits.simps [of n])
  qed
qed

lemma scan_decimal_num_to_string:
  "\<exists>v. scan_decimal (num_to_string (Num m k)) = Some (v, []) \<and> num_val v = Some (dec_val m k)"
proof (cases "m = 0")
  case True
  then show ?thesis by (simp add: scan_decimal_def scan_unsigned_def is_digit_def
                                  digits_val_def digit_val_def scale_num_def scan_exp_def dec_val_def)
next
  case False
  obtain s e where st: "strip_zeros (nat \<bar>m\<bar>) (- int k) = (s, e)" by fastforce
  have sv: "(of_nat s :: rat) * 10 powi e = of_nat (nat \<bar>m\<bar>) * 10 powi (- int k)" and s0: "s \<noteq> 0"
    using strip_zeros_val [OF st] False by auto
  let ?ds = "nat_digits s"
  have ne: "?ds \<noteq> []" and dg: "list_all is_digit ?ds" using nat_digits_props by auto
  obtain v where v: "scan_unsigned (fmt_digits ?ds (e + int (length ?ds))) = Some (v, [])"
      and vv: "num_val v = Some (of_nat s * 10 powi e)"
    using fmt_digits_scan [OF ne dg, of "e + int (length ?ds)"] by auto
  obtain c r where cr: "fmt_digits ?ds (e + int (length ?ds)) = c # r" and c: "is_digit c"
    using fmt_digits_hd [OF ne dg] by blast
  have cn: "c \<noteq> CHR ''-''" "c \<noteq> CHR ''+''" using c by (auto simp: is_digit_def)
  have val: "of_nat s * 10 powi e = \<bar>dec_val m k\<bar>"
  proof -
    have a: "(of_nat (nat \<bar>m\<bar>) :: rat) = \<bar>of_int m\<bar>" by simp
    have b: "(10::rat) powi (- int k) = inverse (10 ^ k)" by (simp add: power_int_minus)
    show ?thesis using sv by (simp only: a b dec_val_def divide_inverse) (simp add: abs_mult)
  qed
  show ?thesis
  proof (cases "m < 0")
    case True
    obtain a b where ab: "v = Num a b" using vv by (cases v) auto
    have "num_to_string (Num m k) = CHR ''-'' # c # r" using False True st cr by simp
    then have "scan_decimal (num_to_string (Num m k)) = Some (js_neg v, [])"
      using v cr by (simp add: scan_decimal_def)
    moreover have "\<bar>dec_val m k\<bar> = - dec_val m k" using True by (simp add: dec_val_def divide_neg_pos)
    ultimately show ?thesis using vv val ab by (simp add: dec_val_def)
  next
    case nm: False
    have "num_to_string (Num m k) = c # r" using False nm st cr by simp
    then have "scan_decimal (num_to_string (Num m k)) = Some (v, [])"
      using v cr cn by (simp add: scan_decimal_def)
    moreover have "\<bar>dec_val m k\<bar> = dec_val m k" using nm by (simp add: dec_val_def)
    ultimately show ?thesis using vv val by simp
  qed
qed

lemma num_to_string_hd: "\<exists>c r. num_to_string (Num m k) = c # r \<and> (c = CHR ''-'' \<or> is_digit c)"
proof (cases "m = 0")
  case False
  obtain s e where st: "strip_zeros (nat \<bar>m\<bar>) (- int k) = (s, e)" by fastforce
  have ne: "nat_digits s \<noteq> []" and dg: "list_all is_digit (nat_digits s)" using nat_digits_props by auto
  obtain c r where cr: "fmt_digits (nat_digits s) (e + int (length (nat_digits s))) = c # r" and c: "is_digit c"
    using fmt_digits_hd [OF ne dg] by blast
  show ?thesis using False st cr c by auto
qed (simp add: is_digit_def)

lemma parse_float_num_to_string_Num:
  "num_val (parse_float (num_to_string (Num m k))) = Some (dec_val m k)"
proof -
  obtain c r where cr: "num_to_string (Num m k) = c # r" and c: "c = CHR ''-'' \<or> is_digit c"
    using num_to_string_hd by blast
  have "\<not> is_space c" using c digit_no_space by (auto simp: is_space_def)
  then show ?thesis using scan_decimal_num_to_string [of m k] cr by (auto simp: parse_float_def)
qed

text \<open>The text of a finite number as JSON reads it: a sign, an integer part
  without leading zero, an optional fraction and an optional exponent.\<close>

lemma num_to_string_json_shape:
  "\<exists>sg ip fp tail. num_to_string (Num m k) = sg @ ip @ (if fp = [] then [] else CHR ''.'' # fp) @ tail \<and>
     sg \<in> {[], ''-''} \<and> ip \<noteq> [] \<and> list_all is_digit ip \<and> list_all is_digit fp \<and>
     (tail = [] \<or> (\<exists>sg x. sg \<in> {CHR ''+'', CHR ''-''} \<and> tail = CHR ''e'' # sg # nat_digits x)) \<and>
     (hd ip \<noteq> CHR ''0'' \<or> ip = ''0'')"
proof (cases "m = 0")
  case True
  then show ?thesis
    by (intro exI [of _ "[]"] exI [of _ "''0''"] exI [of _ "[]"]) (simp add: is_digit_def)
next
  case False
  obtain s e where st: "strip_zeros (nat \<bar>m\<bar>) (- int k) = (s, e)" by fastforce
  have s0: "s \<noteq> 0" using strip_zeros_val [OF st] False by auto
  let ?ds = "nat_digits s"
  have ne: "?ds \<noteq> []" and dg: "list_all is_digit ?ds" using nat_digits_props by auto
  obtain ip fp tail where f: "fmt_digits ?ds (e + int (length ?ds)) = ip @ (if fp = [] then [] else CHR ''.'' # fp) @ tail"
      and p: "ip \<noteq> []" "list_all is_digit ip" "list_all is_digit fp"
      and t: "tail = [] \<or> (\<exists>sg x. sg \<in> {CHR ''+'', CHR ''-''} \<and> tail = CHR ''e'' # sg # nat_digits x)"
      and h: "hd ?ds \<noteq> CHR ''0'' \<longrightarrow> hd ip \<noteq> CHR ''0'' \<or> ip = ''0''"
    using fmt_digits_shape [OF ne dg, of "e + int (length ?ds)"] by blast
  have "num_to_string (Num m k) = (if m < 0 then ''-'' else []) @ ip @ (if fp = [] then [] else CHR ''.'' # fp) @ tail"
    using False st f by simp
  moreover have "(if m < 0 then ''-'' else []) \<in> {[], ''-''}" by simp
  ultimately show ?thesis using p t h nat_digits_hd [OF s0] by blast
qed

section \<open>Properties of the number conversions\<close>

text \<open>
  Round trip of \<open>String\<close> and \<open>parseFloat\<close> on numbers: parsing the text
  \<open>Number::toString\<close> writes for a finite number gives back its value (in all four
  layouts, exponent forms included); \<open>Infinity\<close>, \<open>-Infinity\<close> and \<open>NaN\<close>
  come back exactly.
\<close>

lemma parse_float_num_to_string:
  "(case n of Num m k \<Rightarrow> num_val (parse_float (num_to_string n)) = num_val n
            | _ \<Rightarrow> parse_float (num_to_string n) = n)"
proof (cases n)
  case (Num m k)
  then show ?thesis by (simp add: parse_float_num_to_string_Num del: num_to_string.simps)
qed (simp_all add: parse_float_def scan_decimal_def scan_unsigned_def is_space_def is_digit_def)

end
