(* ===== verification/Dates.thy ===== *)
theory Dates
  imports Js_Number
begin

text \<open>
  The \<open>Date\<close> operations the program uses: \<open>new Date(v)\<close> for a number \<open>v\<close>
  (\<open>TimeClip\<close>), \<open>new Date()\<close> (the current time, a parameter \<open>now\<close> of the
  model), \<open>toISOString()\<close> (which throws \<open>RangeError\<close> on an invalid date) and
  \<open>new Date(s)\<close> for the ISO date-only strings \<open>YYYY-MM-DD\<close> and
  \<open>\<plusminus>YYYYYY-MM-DD\<close> that the program itself produces. A time value is an
  \<open>int\<close> of milliseconds since 1970-01-01 UTC, \<open>None\<close> standing for the invalid date.
  The calendar is the proleptic Gregorian one of ECMA-262, computed by the usual
  era-based conversion between day numbers and civil dates. The lemmas show that
  the two conversions are inverse and that \<open>Date.parse\<close> reads the date part of
  \<open>toISOString()\<close> back as the UTC midnight of its day
  (\<open>parse_iso_date_iso_date\<close>).
\<close>

definition ms_per_day :: int where
  "ms_per_day = 86400000"

definition max_time :: int where
  "max_time = 8640000000000000"

text \<open>\<open>TimeClip\<close>: \<open>NaN\<close> beyond \<open>\<plusminus>8.64e15\<close> ms, else truncation toward zero.\<close>

fun time_clip :: "jsnum \<Rightarrow> int option" where
  "time_clip (Num m k) = (if max_time * 10 ^ k < \<bar>m\<bar> then None else Some (int_trunc m k))"
| "time_clip _ = None"

section \<open>Day numbers and civil dates\<close>

text \<open>
  Each stage takes the values of the one before as arguments, so that a concrete
  day number evaluates stage by stage.
\<close>

definition civil_ymd :: "int \<Rightarrow> int \<Rightarrow> int \<Rightarrow> int \<times> int \<times> int" where
  "civil_ymd y m d = (if m \<le> 2 then y + 1 else y, m, d)"

definition civil_of_mp :: "int \<Rightarrow> int \<Rightarrow> int \<Rightarrow> int \<times> int \<times> int" where
  "civil_of_mp y doy mp = civil_ymd y (if mp < 10 then mp + 3 else mp - 9) (doy - (153 * mp + 2) div 5 + 1)"

definition civil_of_doy :: "int \<Rightarrow> int \<Rightarrow> int \<times> int \<times> int" where
  "civil_of_doy y doy = civil_of_mp y doy ((5 * doy + 2) div 153)"

definition civil_of_yoe :: "int \<Rightarrow> int \<Rightarrow> int \<Rightarrow> int \<times> int \<times> int" where
  "civil_of_yoe y400 doe yoe = civil_of_doy (yoe + y400) (doe - (365 * yoe + yoe div 4 - yoe div 100))"

definition yoe_of_doe :: "int \<Rightarrow> int" where
  "yoe_of_doe doe = (doe - doe div 1460 + doe div 36524 - doe div 146096) div 365"

definition civil_of_era :: "int \<Rightarrow> int \<Rightarrow> int \<times> int \<times> int" where
  "civil_of_era era doe = civil_of_yoe (era * 400) doe (yoe_of_doe doe)"

text \<open>Day number (days since 1970-01-01) to proleptic Gregorian year, month, day.\<close>

definition civil_from_days :: "int \<Rightarrow> int \<times> int \<times> int" where
  "civil_from_days z = civil_of_era ((z + 719468) div 146097) ((z + 719468) mod 146097)"

definition days_of_yoe :: "int \<Rightarrow> int \<Rightarrow> int \<Rightarrow> int" where
  "days_of_yoe era yoe doy = era * 146097 + (yoe * 365 + yoe div 4 - yoe div 100 + doy) - 719468"

definition days_of_shifted :: "int \<Rightarrow> int \<Rightarrow> int" where
  "days_of_shifted y doy = days_of_yoe (y div 400) (y mod 400) doy"

text \<open>Year, month, day to day number (\<open>MakeDay\<close>).\<close>

definition days_from_civil :: "int \<Rightarrow> int \<Rightarrow> int \<Rightarrow> int" where
  "days_from_civil y m d =
     days_of_shifted (if m \<le> 2 then y - 1 else y) ((153 * (if 2 < m then m - 3 else m + 9) + 2) div 5 + d - 1)"

section \<open>toISOString\<close>

definition pad_digits :: "nat \<Rightarrow> nat \<Rightarrow> string" where
  "pad_digits w n = (let ds = nat_digits n in replicate (w - length ds) CHR ''0'' @ ds)"

text \<open>Years 0 to 9999 take four digits; others a sign and six digits.\<close>

definition year_string :: "int \<Rightarrow> string" where
  "year_string y =
    (if 0 \<le> y \<and> y \<le> 9999 then pad_digits 4 (nat y)
     else (if y < 0 then CHR ''-'' else CHR ''+'') # pad_digits 6 (nat \<bar>y\<bar>))"

text \<open>The date part \<open>YYYY-MM-DD\<close> of \<open>toISOString()\<close> for a valid time value.\<close>

definition iso_date :: "int \<Rightarrow> string" where
  "iso_date tv =
    (case civil_from_days (tv div ms_per_day) of
       (y, m, d) \<Rightarrow> year_string y @ ''-'' @ pad_digits 2 (nat m) @ ''-'' @ pad_digits 2 (nat d))"

text \<open>The time part \<open>THH:mm:ss.sssZ\<close>.\<close>

definition iso_time :: "int \<Rightarrow> string" where
  "iso_time tv =
    (let t = nat (tv mod ms_per_day) in
     ''T'' @ pad_digits 2 (t div 3600000) @ '':'' @ pad_digits 2 (t div 60000 mod 60) @ '':'' @
     pad_digits 2 (t div 1000 mod 60) @ ''.'' @ pad_digits 3 (t mod 1000) @ ''Z'')"

text \<open>\<open>d.toISOString()\<close>: \<open>RangeError\<close> on the invalid date.\<close>

fun to_iso_string :: "int option \<Rightarrow> error + string" where
  "to_iso_string None = Inl RangeError"
| "to_iso_string (Some tv) = Inr (iso_date tv @ iso_time tv)"

text \<open>
  \<open>d.toISOString().split('T')[0]\<close>: the date part contains no \<open>T\<close>, so the first
  field of the split is exactly \<open>iso_date\<close> (lemma \<open>iso_date_split\<close> below).
\<close>

fun split_first :: "char \<Rightarrow> string \<Rightarrow> string" where
  "split_first c s = takeWhile (\<lambda>x. x \<noteq> c) s"

section \<open>Parsing the date-only format\<close>

definition all_digits :: "string \<Rightarrow> bool" where
  "all_digits s \<longleftrightarrow> list_all is_digit s"

text \<open>
  \<open>Date.parse\<close> on \<open>YYYY-MM-DD\<close> or \<open>\<plusminus>YYYYYY-MM-DD\<close> with month 1 to 12 and day
  1 to 31 (a day past the end of its month rolls over, as \<open>MakeDay\<close> does); other
  strings are outside the formats this program produces and are taken as invalid.
\<close>

definition parse_year :: "string \<Rightarrow> (int \<times> string) option" where
  "parse_year s =
    (case s of
       [] \<Rightarrow> None
     | c # r \<Rightarrow>
         if c = CHR ''+'' \<or> c = CHR ''-'' then
           (if 6 \<le> length r \<and> all_digits (take 6 r) \<and> \<not> (c = CHR ''-'' \<and> digits_val (take 6 r) = 0)
            then Some ((if c = CHR ''-'' then -1 else 1) * int (digits_val (take 6 r)), drop 6 r)
            else None)
         else if 4 \<le> length s \<and> all_digits (take 4 s) then Some (int (digits_val (take 4 s)), drop 4 s)
         else None)"

definition parse_iso_date :: "string \<Rightarrow> int option" where
  "parse_iso_date s =
    (case parse_year s of
       None \<Rightarrow> None
     | Some (y, r) \<Rightarrow>
         (case r of
            [c1, m1, m2, c2, d1, d2] \<Rightarrow>
              (let m = int (digits_val [m1, m2]); d = int (digits_val [d1, d2]) in
               if c1 = CHR ''-'' \<and> c2 = CHR ''-'' \<and> all_digits [m1, m2, d1, d2]
                  \<and> 1 \<le> m \<and> m \<le> 12 \<and> 1 \<le> d \<and> d \<le> 31
               then (let tv = days_from_civil y m d * ms_per_day in
                     if \<bar>tv\<bar> \<le> max_time then Some tv else None)
               else None)
          | _ \<Rightarrow> None))"

text \<open>\<open>new Date(s)\<close> used as a number: its time value, or \<open>NaN\<close>.\<close>

definition date_value :: "string \<Rightarrow> jsnum" where
  "date_value s = (case parse_iso_date s of Some tv \<Rightarrow> Num tv 0 | None \<Rightarrow> NaN)"

section \<open>The calendar round trip\<close>

text \<open>
  \<open>civil_from_days\<close> inverts \<open>days_from_civil\<close>: the era of 400 years splits into
  centuries of 36524 days and four-year blocks of 1461 days, which bounds the year
  of the era by 399 and the day of the year by 365; the month and day then lie in
  range. With the digit strings this gives the round trip of \<open>toISOString\<close>'s
  date part through \<open>Date.parse\<close>: the UTC midnight of the day.
\<close>

text \<open>The range of the time values \<open>TimeClip\<close> accepts.\<close>

lemma time_clip_range:
  assumes "time_clip x = Some t" shows "\<bar>t\<bar> \<le> max_time"
proof -
  obtain m k where x: "x = Num m k" and le: "\<bar>m\<bar> \<le> max_time * 10 ^ k" and t: "t = int_trunc m k"
    using assms by (cases x) (auto split: if_splits)
  have q: "0 \<le> \<bar>m\<bar> div 10 ^ k" by (simp add: pos_imp_zdiv_nonneg_iff)
  have "\<bar>t\<bar> \<le> \<bar>m\<bar> div 10 ^ k" using q by (auto simp: t int_trunc_def abs_mult abs_sgn_eq)
  also have "\<dots> \<le> max_time * 10 ^ k div 10 ^ k" by (rule zdiv_mono1) (use le in simp_all)
  also have "\<dots> = max_time" by simp
  finally show ?thesis .
qed

lemma zdiv_bounds: "0 < (b::int) \<Longrightarrow> b * (a div b) \<le> a \<and> a < b * (a div b) + b"
proof -
  assume b: "0 < b"
  have "a = b * (a div b) + a mod b" by simp
  moreover have "0 \<le> a mod b" "a mod b < b" using b by simp_all
  ultimately show ?thesis by linarith
qed

lemma zdiv_eqI:
  fixes k a b :: int
  assumes "0 \<le> b" "b < k"
  shows "(b + a * k) div k = a"
  using assms by (simp add: div_pos_pos_trivial)

lemma civil_year_bounds:
  assumes "0 \<le> doe" "doe \<le> 146096" "y = yoe_of_doe doe"
  shows "0 \<le> y \<and> y \<le> 399 \<and> 0 \<le> doe - (365 * y + y div 4 - y div 100) \<and>
         doe - (365 * y + y div 4 - y div 100) \<le> 365"
proof (cases "doe = 146096")
  case True
  then show ?thesis using assms(3) by (simp add: yoe_of_doe_def)
next
  case False
  define c where "c = doe div 36524"
  define r where "r = doe mod 36524"
  define q where "q = r div 1461"
  define s where "s = r mod 1461"
  define t where "t = (24 * c + q + s) div 1460"
  have dr: "doe = 36524 * c + r" by (simp add: c_def r_def)
  have r: "0 \<le> r" "r < 36524" by (simp_all add: r_def)
  have rs: "r = 1461 * q + s" by (simp add: q_def s_def)
  have s: "0 \<le> s" "s < 1461" by (simp_all add: s_def)
  have c: "0 \<le> c" "c \<le> 3" using dr r assms(1,2) False by linarith+
  have q: "0 \<le> q" "q \<le> 24" using rs r s by linarith+
  have tb: "1460 * t \<le> 24 * c + q + s" "24 * c + q + s < 1460 * t + 1460"
    using zdiv_bounds [of 1460 "24 * c + q + s"] by (simp_all add: t_def)
  have t: "0 \<le> t" "t \<le> 1" using tb c q s by linarith+
  have d1: "doe div 146096 = 0" using assms(1,2) False by (simp add: div_pos_pos_trivial)
  have d2: "doe div 36524 = c" by (simp add: c_def)
  have e3: "doe = (24 * c + q + s - 1460 * t) + (25 * c + q + t) * 1460" using dr rs by simp
  have "doe div 1460 = ((24 * c + q + s - 1460 * t) + (25 * c + q + t) * 1460) div 1460"
    using e3 by (rule arg_cong)
  also have "\<dots> = 25 * c + q + t" by (rule zdiv_eqI) (use tb in linarith)+
  finally have d3: "doe div 1460 = 25 * c + q + t" .
  define u where "u = (s - t) div 365"
  have ub: "365 * u \<le> s - t" "s - t < 365 * u + 365"
    using zdiv_bounds [of 365 "s - t"] by (simp_all add: u_def)
  have u: "0 \<le> u" "u \<le> 3" using ub tb t c q s by linarith+
  have f: "doe - doe div 1460 + doe div 36524 - doe div 146096 = (s - t - 365 * u) + (100 * c + 4 * q + u) * 365"
    unfolding d1 d2 d3 using dr rs by simp
  have "y = ((s - t - 365 * u) + (100 * c + 4 * q + u) * 365) div 365"
    unfolding assms(3) yoe_of_doe_def f ..
  also have "\<dots> = 100 * c + 4 * q + u" by (rule zdiv_eqI) (use ub in linarith)+
  finally have y: "y = 100 * c + 4 * q + u" .
  have "y div 4 = (u + (25 * c + q) * 4) div 4" using y by (simp add: algebra_simps)
  also have "\<dots> = 25 * c + q" by (rule zdiv_eqI) (use u in linarith)+
  finally have y4: "y div 4 = 25 * c + q" .
  have "y div 100 = ((4 * q + u) + c * 100) div 100" using y by (simp add: algebra_simps)
  also have "\<dots> = c" by (rule zdiv_eqI) (use u q in linarith)+
  finally have y100: "y div 100 = c" .
  have doy: "doe - (365 * y + y div 4 - y div 100) = s - 365 * u"
    unfolding y4 y100 using y dr rs by simp
  show ?thesis unfolding doy using y ub t u c q by linarith
qed

lemma month_day_bounds:
  fixes doy mp :: int
  assumes "0 \<le> doy" "doy \<le> 365" "mp = (5 * doy + 2) div 153"
  shows "0 \<le> mp \<and> mp \<le> 11 \<and> 1 \<le> doy - (153 * mp + 2) div 5 + 1 \<and> doy - (153 * mp + 2) div 5 + 1 \<le> 31"
proof -
  define q where "q = (153 * mp + 2) div 5"
  have a: "153 * mp \<le> 5 * doy + 2" "5 * doy + 2 < 153 * mp + 153"
    using zdiv_bounds [of 153 "5 * doy + 2"] assms(3) by simp_all
  have b: "5 * q \<le> 153 * mp + 2" "153 * mp + 2 < 5 * q + 5"
    using zdiv_bounds [of 5 "153 * mp + 2"] q_def by simp_all
  have "153 * mp < 153 * 12" using a assms(2) by linarith
  then have "mp < 12" by simp
  moreover have "0 \<le> mp" using a assms(1) by linarith
  moreover have "5 * q < 5 * (doy + 1)" unfolding distrib_left using a b by linarith
  then have "q \<le> doy" by simp
  moreover have "5 * doy < 5 * (q + 31)" unfolding distrib_left using a b by linarith
  then have "doy \<le> q + 30" by simp
  ultimately show ?thesis by (simp add: q_def)
qed

lemma civil_from_days_inverse:
  assumes "civil_from_days z = (y, m, d)"
  shows "days_from_civil y m d = z \<and> 1 \<le> m \<and> m \<le> 12 \<and> 1 \<le> d \<and> d \<le> 31 \<and>
         (z + 719468) div 146097 * 400 \<le> y \<and> y \<le> (z + 719468) div 146097 * 400 + 400"
proof -
  define era where "era = (z + 719468) div 146097"
  define doe where "doe = (z + 719468) mod 146097"
  define yoe where "yoe = yoe_of_doe doe"
  define doy where "doy = doe - (365 * yoe + yoe div 4 - yoe div 100)"
  define mp where "mp = (5 * doy + 2) div 153"
  have doe: "0 \<le> doe" "doe \<le> 146096" by (simp_all add: doe_def)
  have yoe: "0 \<le> yoe" "yoe \<le> 399" and doy: "0 \<le> doy" "doy \<le> 365"
    using civil_year_bounds [OF doe yoe_def] by (simp_all add: doy_def)
  have md: "0 \<le> mp" "mp \<le> 11" "1 \<le> doy - (153 * mp + 2) div 5 + 1" "doy - (153 * mp + 2) div 5 + 1 \<le> 31"
    using month_day_bounds [OF doy mp_def] by simp_all
  have c: "civil_from_days z = civil_ymd (yoe + era * 400) (if mp < 10 then mp + 3 else mp - 9) (doy - (153 * mp + 2) div 5 + 1)"
    unfolding civil_from_days_def civil_of_era_def civil_of_yoe_def civil_of_doy_def civil_of_mp_def
      era_def [symmetric] doe_def [symmetric] yoe_def [symmetric] doy_def [symmetric] mp_def [symmetric]
    by (rule refl)
  have ym: "y = (if 10 \<le> mp then yoe + era * 400 + 1 else yoe + era * 400)"
      "m = (if mp < 10 then mp + 3 else mp - 9)" "d = doy - (153 * mp + 2) div 5 + 1"
    using assms md(1,2) unfolding c civil_ymd_def by (auto split: if_splits)
  have shifted: "(if m \<le> 2 then y - 1 else y) = yoe + era * 400" "(if 2 < m then m - 3 else m + 9) = mp"
    using ym md(1,2) by auto
  have dv: "(yoe + era * 400) div 400 = era" "(yoe + era * 400) mod 400 = yoe" using yoe by simp_all
  have e: "146097 * era + doe = z + 719468" unfolding era_def doe_def by (rule mult_div_mod_eq)
  have "days_from_civil y m d = era * 146097 + (yoe * 365 + yoe div 4 - yoe div 100 + doy) - 719468"
    unfolding days_from_civil_def shifted days_of_shifted_def dv days_of_yoe_def using ym(3) by simp
  also have "\<dots> = z" using e unfolding doy_def by linarith
  finally have dz: "days_from_civil y m d = z" .
  have "era * 400 \<le> y \<and> y \<le> era * 400 + 400"
  proof (cases "10 \<le> mp")
    case True
    then have "y = yoe + era * 400 + 1" using ym(1) by simp
    then show ?thesis using yoe by linarith
  next
    case False
    then have "y = yoe + era * 400" using ym(1) by simp
    then show ?thesis using yoe by linarith
  qed
  then have yb: "(z + 719468) div 146097 * 400 \<le> y \<and> y \<le> (z + 719468) div 146097 * 400 + 400"
    by (simp only: era_def)
  have mb: "1 \<le> m \<and> m \<le> 12"
  proof (cases "mp < 10")
    case True
    then have "m = mp + 3" using ym(2) by simp
    then show ?thesis using True md(1) by linarith
  next
    case False
    then have "m = mp - 9" using ym(2) by simp
    then show ?thesis using False md(2) by linarith
  qed
  have db: "1 \<le> d \<and> d \<le> 31" using ym(3) md(3,4) by linarith
  from dz yb mb db show ?thesis by (elim conjE) (intro conjI; assumption)
qed


lemma pad_digits_digits: "list_all is_digit (pad_digits w n)"
proof -
  have "is_digit CHR ''0''" by (simp add: is_digit_def)
  then show ?thesis using nat_digits_props [of n] by (auto simp: pad_digits_def Let_def list_all_iff)
qed

lemma nat_digits_length: "n < 10 ^ w \<Longrightarrow> 0 < w \<Longrightarrow> length (nat_digits n) \<le> w"
proof (induction n arbitrary: w rule: nat_digits.induct)
  case (1 n)
  show ?case
  proof (cases "n < 10")
    case True
    then show ?thesis using "1.prems"(2) by (simp add: nat_digits.simps [of n])
  next
    case False
    obtain w' where w: "w = Suc w'" using "1.prems"(2) by (cases w) auto
    have "0 < w'" using False "1.prems"(1) w by (cases w') auto
    moreover have "n div 10 < 10 ^ w'" using "1.prems"(1) w by (simp add: less_mult_imp_div_less)
    ultimately have "length (nat_digits (n div 10)) \<le> w'" using "1.IH" False by blast
    then show ?thesis using False w by (simp add: nat_digits.simps [of n])
  qed
qed

lemma pad_digits_parse:
  assumes "n < 10 ^ w" "0 < w"
  shows "length (pad_digits w n) = w \<and> list_all is_digit (pad_digits w n) \<and> digits_val (pad_digits w n) = n"
  using nat_digits_length [OF assms] pad_digits_digits [of w n] by (simp add: pad_digits_def Let_def)

lemma parse_year_string:
  assumes "- 999999 \<le> y" "y \<le> 999999"
  shows "parse_year (year_string y @ r) = Some (y, r)"
proof (cases "0 \<le> y \<and> y \<le> 9999")
  case True
  then have "nat y < 10 ^ 4" by (simp add: nat_less_iff)
  from pad_digits_parse [OF this] obtain c p where p: "pad_digits 4 (nat y) = c # p" "length p = 3"
      "list_all is_digit (c # p)" "digits_val (c # p) = nat y"
    by (cases "pad_digits 4 (nat y)") auto
  then have "c \<noteq> CHR ''+'' \<and> c \<noteq> CHR ''-''" by (auto simp: is_digit_def)
  then show ?thesis using True p by (simp add: year_string_def parse_year_def all_digits_def)
next
  case False
  have "nat \<bar>y\<bar> < 10 ^ 6" using assms by simp
  from pad_digits_parse [OF this] have p: "length (pad_digits 6 (nat \<bar>y\<bar>)) = 6"
      "list_all is_digit (pad_digits 6 (nat \<bar>y\<bar>))" "digits_val (pad_digits 6 (nat \<bar>y\<bar>)) = nat \<bar>y\<bar>"
    by simp_all
  show ?thesis using False p by (auto simp: year_string_def parse_year_def all_digits_def)
qed

lemma pad2_parse:
  assumes "1 \<le> m" "m \<le> 99"
  obtains a b where "pad_digits 2 (nat m) = [a, b]" "all_digits [a, b]" "int (digits_val [a, b]) = m"
proof -
  have "nat m < 10 ^ 2" using assms by simp
  from pad_digits_parse [OF this] obtain a b where "pad_digits 2 (nat m) = [a, b]"
      "list_all is_digit [a, b]" "digits_val [a, b] = nat m"
    by (auto simp: numeral_2_eq_2 length_Suc_conv)
  then show ?thesis using that assms by (simp add: all_digits_def)
qed

lemma iso_day_bound:
  assumes "\<bar>tv\<bar> \<le> max_time"
  shows "- 100000000 \<le> tv div ms_per_day \<and> tv div ms_per_day \<le> 100000000"
proof -
  have "(- max_time) div ms_per_day \<le> tv div ms_per_day" using assms by (intro zdiv_mono1) (simp_all add: ms_per_day_def)
  moreover have "tv div ms_per_day \<le> max_time div ms_per_day" using assms by (intro zdiv_mono1) (simp_all add: ms_per_day_def)
  ultimately show ?thesis by (simp add: max_time_def ms_per_day_def)
qed

lemma parse_iso_date_iso_date:
  assumes "\<bar>tv\<bar> \<le> max_time"
  shows "parse_iso_date (iso_date tv) = Some (tv div ms_per_day * ms_per_day)"
proof -
  define z where "z = tv div ms_per_day"
  obtain y m d where c: "civil_from_days z = (y, m, d)" by (cases "civil_from_days z") auto
  note inv = civil_from_days_inverse [OF c]
  have zb: "- 100000000 \<le> z" "z \<le> 100000000" using iso_day_bound [OF assms] by (simp_all add: z_def)
  have era: "- 680 \<le> (z + 719468) div 146097" "(z + 719468) div 146097 \<le> 689"
  proof -
    have "(- 100000000 + 719468) div 146097 \<le> (z + 719468) div 146097" using zb(1) by (intro zdiv_mono1) simp_all
    then show "- 680 \<le> (z + 719468) div 146097" by simp
    have "(z + 719468) div 146097 \<le> (100000000 + 719468) div 146097" using zb(2) by (intro zdiv_mono1) simp_all
    then show "(z + 719468) div 146097 \<le> 689" by simp
  qed
  have "- 999999 \<le> y" "y \<le> 999999" using inv era by linarith+
  note yr = parse_year_string [OF this]
  have mb: "1 \<le> m" "m \<le> 99" and db: "1 \<le> d" "d \<le> 99" using inv by simp_all
  obtain m1 m2 where m: "pad_digits 2 (nat m) = [m1, m2]" "all_digits [m1, m2]" "int (digits_val [m1, m2]) = m"
    by (rule pad2_parse [OF mb])
  obtain d1 d2 where d: "pad_digits 2 (nat d) = [d1, d2]" "all_digits [d1, d2]" "int (digits_val [d1, d2]) = d"
    by (rule pad2_parse [OF db])
  have iso: "iso_date tv = year_string y @ [CHR ''-'', m1, m2, CHR ''-'', d1, d2]"
    by (simp add: iso_date_def z_def [symmetric] c m d)
  have b: "\<bar>z * ms_per_day\<bar> \<le> max_time" using zb by (simp add: abs_le_iff max_time_def ms_per_day_def)
  have p: "parse_year (iso_date tv) = Some (y, [CHR ''-'', m1, m2, CHR ''-'', d1, d2])"
    using yr [of "[CHR ''-'', m1, m2, CHR ''-'', d1, d2]"] by (simp only: iso)
  have dfc: "days_from_civil y (int (digits_val [m1, m2])) (int (digits_val [d1, d2])) = z"
    using inv m(3) d(3) by simp
  have ok: "all_digits [m1, m2, d1, d2]" using m(2) d(2) by (simp add: all_digits_def)
  show ?thesis
    unfolding parse_iso_date_def p using ok dfc b inv m(3) d(3) by (simp add: Let_def z_def)
qed

end
