(* ===== verification/Normalizer.thy ===== *)
theory Normalizer
  imports Dates
begin

text \<open>
  The normaliser of \<open>src/script.js\<close>: the body of the \<open>items.map(...)\<close> callback
  and the \<open>.filter(...)\<close> that follows it in \<open>loadFromNewAPI\<close> (lines 104-125), with
  the helpers it calls, \<open>toTitleCase\<close> (153-158) and \<open>getExchangeLocation\<close>
  (160-175), and the category lookup \<open>getCommodityCategory\<close> (177-204) used when a
  row is rendered. A raw record is any value the fetcher let through (normally a
  JSON object); the canonical row is the record \<open>item\<close>, with the fields and
  field order of the object literal at lines 116-124.
\<close>

section \<open>Canonical rows\<close>

record item =
  productName :: string
  price :: jsnum
  currency :: string
  location :: jsval
  date :: string
  source :: string
  usdPrice :: jsnum

text \<open>\<open>this.usdToGhsRate = 15.5\<close>.\<close>

definition usd_to_ghs_rate :: jsnum where
  "usd_to_ghs_rate = Num 155 1"

section \<open>toTitleCase\<close>

text \<open>\<open>.replace(/_/g, ' ')\<close>.\<close>

definition replace_underscores :: "string \<Rightarrow> string" where
  "replace_underscores s = map (\<lambda>c. if c = CHR ''_'' then CHR '' '' else c) s"

text \<open>
  \<open>.replace(/\b\w/g, c => c.toUpperCase())\<close>: a word character is upper-cased when
  the character before it (in the original string) is not a word character.
\<close>

fun cap_words :: "bool \<Rightarrow> string \<Rightarrow> string" where
  "cap_words prev [] = []"
| "cap_words prev (c # cs) =
     (if is_word_char c \<and> \<not> prev then to_upper_char c else c) # cap_words (is_word_char c) cs"

text \<open>
  One match attempt of \<open>/\s+Futures\b/\<close> at a white-space character: the whole
  white-space run, then \<open>Futures\<close>, then a word boundary. \<open>Some rest\<close> is the text
  after the match.
\<close>

definition futures_at :: "string \<Rightarrow> string option" where
  "futures_at s =
    (let r = dropWhile is_space s in
     if take 7 r = ''Futures'' \<and> (case drop 7 r of [] \<Rightarrow> True | c # _ \<Rightarrow> \<not> is_word_char c)
     then Some (drop 7 r) else None)"

text \<open>
  \<open>.replace(/\s+Futures\b/g, '')\<close>: the global replace scans left to right, deletes
  each match and resumes after it. A run of white space that fails to match at
  its first character fails at every later one, so trying the first one suffices.
\<close>

function strip_futures :: "string \<Rightarrow> string" where
  "strip_futures [] = []"
| "strip_futures (c # cs) =
     (if is_space c then
        (case futures_at (c # cs) of
           Some r \<Rightarrow> strip_futures r
         | None \<Rightarrow> c # strip_futures cs)
      else c # strip_futures cs)"
  by pat_completeness auto
termination
proof (relation "measure length")
  fix c :: char and cs r :: string
  assume "futures_at (c # cs) = Some r"
  then obtain t where t: "t = dropWhile is_space (c # cs)" and "take 7 t = ''Futures''" and r: "r = drop 7 t"
    by (auto simp: futures_at_def Let_def split: if_splits)
  then have "length (take 7 t) = 7" by simp
  then have "7 \<le> length t" by simp
  moreover have "length t \<le> length (c # cs)" using t length_dropWhile_le [of is_space "c # cs"] by simp
  ultimately show "(r, c # cs) \<in> measure length" using r by simp
qed auto

text \<open>\<open>toTitleCase(text)\<close> on a string argument (\<open>String(text)\<close> is the identity there).\<close>

definition to_title_case :: "string \<Rightarrow> string" where
  "to_title_case text = strip_futures (cap_words False (to_lower text))"

section \<open>Lookups in object literals\<close>

text \<open>
  \<open>obj[key]\<close> on an object literal also finds what the literal inherits from
  \<open>Object.prototype\<close>: the object itself under \<open>__proto__\<close>, a built-in function
  under the other names below.
\<close>

definition object_prototype_functions :: "string list" where
  "object_prototype_functions =
     [''constructor'', ''hasOwnProperty'', ''isPrototypeOf'', ''propertyIsEnumerable'',
      ''toLocaleString'', ''toString'', ''valueOf'', ''__defineGetter__'', ''__defineSetter__'',
      ''__lookupGetter__'', ''__lookupSetter__'']"

definition literal_get :: "(string \<times> string) list \<Rightarrow> string \<Rightarrow> jsval" where
  "literal_get tbl key =
    (case map_of tbl key of
       Some v \<Rightarrow> JStr v
     | None \<Rightarrow>
         if key = ''__proto__'' then JObj []
         else if key \<in> set object_prototype_functions then JFun key
         else JUndef)"

definition exchange_locations :: "(string \<times> string) list" where
  "exchange_locations =
     [(''CME'', ''Chicago, Illinois''), (''COMEX'', ''New York, New York''),
      (''NYMEX'', ''New York, New York''), (''CBOT'', ''Chicago, Illinois''),
      (''ICE'', ''Atlanta, Georgia''), (''LME'', ''London, England''),
      (''TOCOM'', ''Tokyo, Japan''), (''SHFE'', ''Shanghai, China''),
      (''DCE'', ''Dalian, China''), (''ZCE'', ''Zhengzhou, China'')]"

text \<open>\<open>getExchangeLocation(exchange)\<close>: \<open>exchangeLocations[exchange] || exchange\<close>.\<close>

definition get_exchange_location :: "jsval \<Rightarrow> jsval" where
  "get_exchange_location exchange =
     js_or (literal_get exchange_locations (to_js_string exchange)) exchange"

definition commodity_categories :: "(string \<times> string) list" where
  "commodity_categories =
     [(''Gold'', ''Precious Metal''), (''Silver'', ''Precious Metal''),
      (''Platinum'', ''Precious Metal''), (''Palladium'', ''Precious Metal''),
      (''Copper'', ''Industrial Metal''), (''Aluminum'', ''Industrial Metal''),
      (''Crude Oil'', ''Energy''), (''Natural Gas'', ''Energy''), (''Gasoline'', ''Energy''),
      (''Heating Oil'', ''Energy''), (''Corn'', ''Agriculture''), (''Wheat'', ''Agriculture''),
      (''Soybean'', ''Agriculture''), (''Coffee'', ''Agriculture''), (''Cocoa'', ''Agriculture''),
      (''Cotton'', ''Agriculture''), (''Sugar'', ''Agriculture''), (''Orange Juice'', ''Agriculture''),
      (''Live Cattle'', ''Livestock''), (''Feeder Cattle'', ''Livestock''),
      (''Lean Hogs'', ''Livestock''), (''Class III Milk'', ''Livestock'')]"

text \<open>\<open>getCommodityCategory(name)\<close>: \<open>categories[name] || 'Commodity'\<close>.\<close>

definition get_commodity_category :: "string \<Rightarrow> jsval" where
  "get_commodity_category name = js_or (literal_get commodity_categories name) (JStr ''Commodity'')"

section \<open>One record\<close>

text \<open>
  The \<open>items.map\<close> callback of \<open>loadFromNewAPI\<close> for one raw value \<open>it\<close>, with
  \<open>now\<close> the time value of \<open>new Date()\<close>. The only operation that can throw is
  \<open>updatedDate.toISOString()\<close>, on an invalid date.
\<close>

definition product_name_of :: "jsval \<Rightarrow> string" where
  "product_name_of it = to_title_case (replace_underscores (to_js_string (js_or (get_prop it ''name'') (JStr []))))"

definition exchange_of :: "jsval \<Rightarrow> jsval" where
  "exchange_of it = js_or (get_prop it ''exchange'') (JStr ''Unknown Exchange'')"

text \<open>\<open>item.updated ? new Date(item.updated * 1000) : new Date()\<close>, as a time value.\<close>

definition updated_date :: "int \<Rightarrow> jsval \<Rightarrow> int option" where
  "updated_date now it =
    (let updated = get_prop it ''updated'' in
     if js_truthy updated then time_clip (js_mul (js_to_number updated) (Num 1000 0)) else Some now)"

text \<open>\<open>typeof item.price === 'number' ? item.price : parseFloat(item.price)\<close>.\<close>

definition numeric_price :: "jsval \<Rightarrow> jsnum" where
  "numeric_price it = (case get_prop it ''price'' of JNumber n \<Rightarrow> n | p \<Rightarrow> parse_float (to_js_string p))"

text \<open>\<open>!isNaN(numericPrice) ? numericPrice * this.usdToGhsRate : 0\<close>.\<close>

definition price_in_ghs :: "jsnum \<Rightarrow> jsnum" where
  "price_in_ghs n = (if \<not> js_is_nan n then js_mul n usd_to_ghs_rate else js_zero)"

definition normalize_item :: "int \<Rightarrow> jsval \<Rightarrow> error + item" where
  "normalize_item now it =
    (let name = product_name_of it;
         loc = get_exchange_location (exchange_of it);
         n = numeric_price it
     in case to_iso_string (updated_date now it) of
          Inl e \<Rightarrow> Inl e
        | Inr stamp \<Rightarrow>
            Inr \<lparr>productName = (if name = [] then ''Unknown Commodity'' else name),
                 price = price_in_ghs n, currency = ''GHS'', location = loc,
                 date = split_first CHR ''T'' stamp, source = ''API Ninjas'', usdPrice = n\<rparr>)"

text \<open>\<open>.filter(row => row.productName !== 'Unknown Commodity' && row.price > 0)\<close>.\<close>

definition retained :: "item \<Rightarrow> bool" where
  "retained row \<longleftrightarrow> productName row \<noteq> ''Unknown Commodity'' \<and> js_less js_zero (price row)"

text \<open>The map and the filter together: the rows assigned to \<open>this.data\<close>, or the exception.\<close>

definition normalize_items :: "int \<Rightarrow> jsval list \<Rightarrow> error + item list" where
  "normalize_items now items =
    (case map_ex (normalize_item now) items of
       Inl e \<Rightarrow> Inl e
     | Inr rows \<Rightarrow> Inr (filter retained rows))"

section \<open>Evaluation bundle\<close>

lemmas civil_defs = civil_from_days_def civil_of_era_def yoe_of_doe_def civil_of_yoe_def
  civil_of_doy_def civil_of_mp_def civil_ymd_def

lemmas char_defs = is_word_char_def is_upper_def is_lower_def is_digit_def is_space_def
  to_lower_char_def to_upper_char_def

lemmas normalize_defs = normalize_item_def product_name_of_def exchange_of_def updated_date_def
  numeric_price_def price_in_ghs_def to_title_case_def futures_at_def replace_underscores_def
  js_or_def get_exchange_location_def literal_get_def exchange_locations_def
  object_prototype_functions_def usd_to_ghs_rate_def civil_defs iso_date_def iso_time_def
  pad_digits_def year_string_def ms_per_day_def max_time_def int_trunc_def char_defs
  normalize_items_def retained_def

section \<open>Properties of one record\<close>

lemma year_string_chars: "set (year_string y) \<subseteq> {CHR ''-'', CHR ''+''} \<union> Collect is_digit"
  using pad_digits_digits [of 4 "nat y"] pad_digits_digits [of 6 "nat \<bar>y\<bar>"]
  by (auto simp: year_string_def list_all_iff)

lemma iso_date_no_T: "CHR ''T'' \<notin> set (iso_date tv)"
proof -
  have d: "\<not> is_digit CHR ''T''" by (simp add: is_digit_def)
  have "CHR ''T'' \<notin> set (pad_digits w n)" for w n
    using pad_digits_digits [of w n] d by (auto simp: list_all_iff)
  with year_string_chars d show ?thesis
    by (auto simp: iso_date_def split: prod.splits)
qed

lemma split_first_iso: "takeWhile (\<lambda>x. x \<noteq> CHR ''T'') (iso_date tv @ iso_time tv) = iso_date tv"
proof -
  have "\<forall>x \<in> set (iso_date tv). x \<noteq> CHR ''T''" using iso_date_no_T [of tv] by blast
  then show ?thesis by (simp add: iso_time_def Let_def)
qed

lemma normalize_item_Inl_iff: "normalize_item now it = Inl e \<longleftrightarrow> e = RangeError \<and> updated_date now it = None"
  by (cases "updated_date now it") (auto simp: normalize_item_def Let_def)

lemma normalize_item_Inr_iff:
  "normalize_item now it = Inr row \<longleftrightarrow>
     (\<exists>tv. updated_date now it = Some tv \<and>
        row = \<lparr>productName = (if product_name_of it = [] then ''Unknown Commodity'' else product_name_of it),
               price = price_in_ghs (numeric_price it), currency = ''GHS'',
               location = get_exchange_location (exchange_of it), date = iso_date tv,
               source = ''API Ninjas'', usdPrice = numeric_price it\<rparr>)"
  by (cases "updated_date now it") (auto simp: normalize_item_def Let_def split_first_iso)

lemma normalize_item_time:
  assumes "normalize_item now raw = Inr it" and "\<bar>now\<bar> \<le> max_time"
  shows "\<exists>u. updated_date now raw = Some u \<and> date it = iso_date u \<and> \<bar>u\<bar> \<le> max_time"
proof -
  obtain u where u: "updated_date now raw = Some u" "date it = iso_date u"
    using assms(1) by (auto simp: normalize_item_Inr_iff)
  moreover have "\<bar>u\<bar> \<le> max_time"
    using u(1) assms(2) time_clip_range by (auto simp: updated_date_def Let_def split: if_splits)
  ultimately show ?thesis by blast
qed

lemma normalize_item_fields:
  assumes "normalize_item now it = Inr row"
  shows "price row = price_in_ghs (usdPrice row)" and "usdPrice row = numeric_price it"
    and "currency row = ''GHS''" and "source row = ''API Ninjas''"
    and "productName row \<noteq> []"
  using assms by (auto simp: normalize_item_Inr_iff split: if_splits)

lemma price_in_ghs_cases:
  "(\<exists>m k. n = Num m k \<and> price_in_ghs n = Num (m * 155) (k + 1)) \<or>
   (n = PosInf \<and> price_in_ghs n = PosInf) \<or> (n = NegInf \<and> price_in_ghs n = NegInf) \<or>
   (n = NaN \<and> price_in_ghs n = js_zero)"
  by (cases n) (auto simp: price_in_ghs_def usd_to_ghs_rate_def)

lemma normalize_items_Inr:
  "(\<And>x. x \<in> set xs \<Longrightarrow> updated_date now x \<noteq> None) \<Longrightarrow>
   \<exists>rows. map_ex (normalize_item now) xs = Inr rows \<and> normalize_items now xs = Inr (filter retained rows)"
proof (induction xs)
  case Nil
  then show ?case by (simp add: normalize_items_def)
next
  case (Cons x xs)
  then obtain rows where "map_ex (normalize_item now) xs = Inr rows" by auto
  moreover have "updated_date now x \<noteq> None" using Cons.prems by simp
  then obtain r where "normalize_item now x = Inr r"
    by (cases "normalize_item now x") (auto simp: normalize_item_Inl_iff)
  ultimately show ?case by (simp add: normalize_items_def)
qed

lemma normalize_items_Inl: "normalize_items now xs = Inl e \<Longrightarrow> e = RangeError"
proof -
  have "map_ex (normalize_item now) xs = Inl e \<Longrightarrow> e = RangeError"
    by (induction xs) (auto simp: normalize_item_Inl_iff split: sum.splits)
  then show "normalize_items now xs = Inl e \<Longrightarrow> e = RangeError"
    by (auto simp: normalize_items_def split: sum.splits)
qed

lemma normalize_items_rows:
  assumes "normalize_items now xs = Inr rows" and "row \<in> set rows"
  shows "retained row \<and> (\<exists>it \<in> set xs. normalize_item now it = Inr row)"
proof -
  obtain rows0 where m: "map_ex (normalize_item now) xs = Inr rows0" and r: "rows = filter retained rows0"
    using assms(1) by (auto simp: normalize_items_def split: sum.splits)
  from assms(2) r have "row \<in> set rows0" and ret: "retained row" by auto
  then obtain i where i: "i < length rows0" "rows0 ! i = row" by (auto simp: in_set_conv_nth)
  from m have a: "list_all2 (\<lambda>x y. normalize_item now x = Inr y) xs rows0" by (simp add: map_ex_Inr_iff)
  then have "normalize_item now (xs ! i) = Inr row" using i list_all2_nthD2 by fastforce
  moreover have "xs ! i \<in> set xs" using a i by (simp add: list_all2_lengthD)
  ultimately show ?thesis using ret by blast
qed

text \<open>Character facts for the lower-case words of \<open>toTitleCase\<close>.\<close>

lemma upper_table_length: "length ''ABCDEFGHIJKLMNOPQRSTUVWXYZ'' = 26"
  by (simp add: eval_nat_numeral)

lemma lower_index: "is_lower c \<Longrightarrow> of_char c - 97 < length ''ABCDEFGHIJKLMNOPQRSTUVWXYZ''"
  unfolding upper_table_length is_lower_def by arith

lemma upper_letters: "is_lower c \<Longrightarrow> to_upper_char c \<in> set ''ABCDEFGHIJKLMNOPQRSTUVWXYZ''"
  unfolding to_upper_char_def using lower_index [of c] by (simp only: if_True nth_mem)

lemma lower_char_facts:
  "is_lower c \<Longrightarrow> is_word_char c \<and> \<not> is_space c \<and> to_lower_char c = c \<and>
     is_word_char (to_upper_char c) \<and> \<not> is_space (to_upper_char c)"
  using upper_letters [of c] by (auto simp: is_lower_def is_upper_def is_word_char_def is_space_def to_lower_char_def)

lemma upper_F: "is_lower d \<Longrightarrow> to_upper_char d = CHR ''F'' \<Longrightarrow> d = CHR ''f''"
proof -
  assume l: "is_lower d" and u: "to_upper_char d = CHR ''F''"
  let ?U = "''ABCDEFGHIJKLMNOPQRSTUVWXYZ''"
  have a: "?U ! (of_char d - 97) = CHR ''F''" using u unfolding to_upper_char_def by (simp only: if_P [OF l])
  have b: "?U ! 5 = CHR ''F''" by simp
  have dU: "distinct ?U" by simp
  have f: "5 < length ?U" unfolding upper_table_length by simp
  have "(?U ! (of_char d - 97) = ?U ! 5) = (of_char d - 97 = (5::nat))"
    using nth_eq_iff_index_eq [OF dU lower_index [OF l] f] .
  then have "of_char d - 97 = (5::nat)" using a b by simp
  then have "of_char d = (102::nat)" using l unfolding is_lower_def by arith
  moreover have "of_char (CHR ''f'') = (102::nat)" by simp
  ultimately have "(of_char d :: nat) = of_char (CHR ''f'')" by simp
  then show ?thesis by (simp only: of_char_eq_iff)
qed

lemma to_lower_lower: "list_all is_lower w \<Longrightarrow> to_lower w = w"
  by (induction w) (auto simp: lower_char_facts)

lemma cap_words_lower: "list_all is_lower w \<Longrightarrow> cap_words True (w @ r) = w @ cap_words True r"
  by (induction w) (auto simp: lower_char_facts)

lemma cap_words_lower_Nil: "list_all is_lower w \<Longrightarrow> cap_words True w = w"
  using cap_words_lower [of w "[]"] by simp

lemma cap_words_futures: "cap_words True ('' futures '' @ x) = '' Futures '' @ cap_words False x"
  by (simp add: is_word_char_def is_upper_def is_lower_def is_digit_def to_upper_char_def)

lemma strip_futures_no_space: "list_all (\<lambda>c. \<not> is_space c) w \<Longrightarrow> strip_futures (w @ r) = w @ strip_futures r"
  by (induction w) auto

lemma normalize_items_all_dropped:
  "\<forall>x \<in> set xs. \<exists>r. normalize_item now x = Inr r \<and> \<not> retained r \<Longrightarrow> normalize_items now xs = Inr []"
  by (induction xs) (auto simp: normalize_items_def split: sum.splits)

section \<open>Properties of the normaliser\<close>

lemma price_in_ghs_pos: "js_less js_zero (price_in_ghs v) \<longleftrightarrow> js_less js_zero v"
  by (cases v) (auto simp: price_in_ghs_def usd_to_ghs_rate_def js_less_num dec_val_pos_iff zero_less_mult_iff)

text \<open>
  C1. The filter keeps a normalised row exactly when its name is known and its USD
  price is a positive number: the GHS price is the USD price times 15.5, or 0 for
  \<open>NaN\<close>, so it is positive exactly when the USD price is. This does not rest on
  the model's exact arithmetic: a double product with 15.5 of a positive number is
  positive (it cannot underflow to 0, and overflow gives \<open>Infinity\<close>), of a
  negative number negative.
\<close>

theorem normalize_kept_iff_usd_positive:
  assumes "normalize_item now it = Inr row"
  shows "retained row \<longleftrightarrow> productName row \<noteq> ''Unknown Commodity'' \<and> js_less js_zero (usdPrice row)"
proof -
  have "price row = price_in_ghs (usdPrice row)" using assms by (rule normalize_item_fields)
  then show ?thesis by (simp add: retained_def price_in_ghs_pos)
qed

theorem normalize_kept_iff_usd_positive_witness:
  "normalize_item 0 (JObj [(''name'', JStr ''corn''), (''price'', JStr ''-2'')]) =
     Inr \<lparr>productName = ''Corn'', price = Num (-310) 1, currency = ''GHS'', location = JStr ''Unknown Exchange'',
          date = ''1970-01-01'', source = ''API Ninjas'', usdPrice = Num (-2) 0\<rparr> \<and>
   \<not> retained \<lparr>productName = ''Corn'', price = Num (-310) 1, currency = ''GHS'', location = JStr ''Unknown Exchange'',
          date = ''1970-01-01'', source = ''API Ninjas'', usdPrice = Num (-2) 0\<rparr>"
proof -
  have n: "normalize_item 0 (JObj [(''name'', JStr ''corn''), (''price'', JStr ''-2'')]) =
     Inr \<lparr>productName = ''Corn'', price = Num (-310) 1, currency = ''GHS'', location = JStr ''Unknown Exchange'',
          date = ''1970-01-01'', source = ''API Ninjas'', usdPrice = Num (-2) 0\<rparr>"
    by (simp add: normalize_defs js_simps)
  show ?thesis using normalize_kept_iff_usd_positive [OF n] n by (simp add: js_simps dec_val_def)
qed

text \<open>
  C2. A record whose price is missing or not numeric (\<open>parseFloat\<close> gives
  \<open>NaN\<close>) is normalised to a row that the filter drops.
\<close>

lemma normalize_drops_nan_price:
  assumes "js_is_nan (numeric_price it)" and "normalize_item now it = Inr row"
  shows "\<not> retained row"
proof -
  have "price row = js_zero"
    using assms normalize_item_fields(1,2) [OF assms(2)] by (cases "numeric_price it") (auto simp: price_in_ghs_def)
  then show ?thesis by (simp add: retained_def)
qed

lemma normalize_drops_nan_price_witness:
  "js_is_nan (numeric_price (JObj [(''name'', JStr ''corn''), (''price'', JStr ''n/a'')])) \<and>
   normalize_item 0 (JObj [(''name'', JStr ''corn''), (''price'', JStr ''n/a'')]) = Inr
     \<lparr>productName = ''Corn'', price = js_zero, currency = ''GHS'', location = JStr ''Unknown Exchange'',
      date = ''1970-01-01'', source = ''API Ninjas'', usdPrice = NaN\<rparr> \<and>
   \<not> retained \<lparr>productName = ''Corn'', price = js_zero, currency = ''GHS'', location = JStr ''Unknown Exchange'',
      date = ''1970-01-01'', source = ''API Ninjas'', usdPrice = NaN\<rparr>"
proof -
  have h1: "js_is_nan (numeric_price (JObj [(''name'', JStr ''corn''), (''price'', JStr ''n/a'')]))"
    by (simp add: normalize_defs js_simps)
  have h2: "normalize_item 0 (JObj [(''name'', JStr ''corn''), (''price'', JStr ''n/a'')]) = Inr
     \<lparr>productName = ''Corn'', price = js_zero, currency = ''GHS'', location = JStr ''Unknown Exchange'',
      date = ''1970-01-01'', source = ''API Ninjas'', usdPrice = NaN\<rparr>"
    by (simp add: normalize_defs js_simps)
  show ?thesis using h1 h2 normalize_drops_nan_price [OF h1 h2] by simp
qed

text \<open>
  Example: the scenario of the specification: corn on CBOT at 4.5 USD, updated at
  1700000000, becomes the row Corn, 69.75 GHS, Chicago, 2023-11-14.
\<close>

lemma normalize_corn_scenario:
  "normalize_items now [JObj [(''name'', JStr ''corn''), (''exchange'', JStr ''CBOT''),
      (''updated'', JNumber (Num 1700000000 0)), (''price'', JNumber (Num 45 1))]] =
   Inr [\<lparr>productName = ''Corn'', price = Num 6975 2, currency = ''GHS'',
         location = JStr ''Chicago, Illinois'', date = ''2023-11-14'', source = ''API Ninjas'',
         usdPrice = Num 45 1\<rparr>]"
  by (simp add: normalize_defs js_simps)

text \<open>
  C3. One record with a truthy timestamp that is not a valid time (a string that
  is not numeric, a value beyond 8.64e15 ms) makes \<open>toISOString\<close> throw
  \<open>RangeError\<close> inside the map, and the whole batch fails: the valid records
  before it are lost with it, instead of the bad record being dropped.
\<close>

lemma normalize_invalid_date_aborts:
  assumes "\<forall>x \<in> set xs. updated_date now x \<noteq> None" and "updated_date now it = None"
  shows "normalize_items now (xs @ it # ys) = Inl RangeError"
proof -
  have "map_ex (normalize_item now) (xs @ it # ys) = Inl RangeError"
    using assms(1)
  proof (induction xs)
    case Nil
    have "normalize_item now it = Inl RangeError" using assms(2) normalize_item_Inl_iff by blast
    then show ?case by simp
  next
    case (Cons x xs)
    then obtain r where "normalize_item now x = Inr r"
      by (cases "normalize_item now x") (auto simp: normalize_item_Inl_iff)
    with Cons show ?case by simp
  qed
  then show ?thesis by (simp add: normalize_items_def)
qed

lemma normalize_invalid_date_aborts_witness:
  "updated_date 0 (JObj [(''name'', JStr ''corn''), (''exchange'', JStr ''CBOT''),
      (''updated'', JNumber (Num 1700000000 0)), (''price'', JNumber (Num 45 1))]) = Some 1700000000000 \<and>
   updated_date 0 (JObj [(''name'', JStr ''wheat''), (''updated'', JStr ''yesterday'')]) = None \<and>
   normalize_items 0 ([JObj [(''name'', JStr ''corn''), (''exchange'', JStr ''CBOT''),
      (''updated'', JNumber (Num 1700000000 0)), (''price'', JNumber (Num 45 1))]] @ JObj [(''name'', JStr ''wheat''), (''updated'', JStr ''yesterday'')] # []) = Inl RangeError"
proof -
  have c: "updated_date 0 (JObj [(''name'', JStr ''corn''), (''exchange'', JStr ''CBOT''),
      (''updated'', JNumber (Num 1700000000 0)), (''price'', JNumber (Num 45 1))]) = Some 1700000000000"
    by (simp add: normalize_defs js_simps)
  then have h1: "\<forall>x \<in> set [JObj [(''name'', JStr ''corn''), (''exchange'', JStr ''CBOT''),
      (''updated'', JNumber (Num 1700000000 0)), (''price'', JNumber (Num 45 1))]]. updated_date 0 x \<noteq> None"
    by simp
  have h2: "updated_date 0 (JObj [(''name'', JStr ''wheat''), (''updated'', JStr ''yesterday'')]) = None"
    by (simp add: normalize_defs js_simps)
  show ?thesis using c h2 normalize_invalid_date_aborts [OF h1 h2] by blast
qed

text \<open>
  C10. The date of a normalised row is the UTC calendar date of the record's time:
  \<open>Date.parse\<close> reads it back as the UTC midnight of the day of the timestamp
  (of the clock, for a record without one), the value the date sort compares and
  the display formats.
\<close>

theorem normalize_date_utc_day:
  assumes "normalize_item now raw = Inr it" and "\<bar>now\<bar> \<le> max_time"
  shows "\<exists>u. updated_date now raw = Some u \<and> date it = iso_date u \<and>
           parse_iso_date (date it) = Some (u div ms_per_day * ms_per_day)"
proof -
  obtain u where u: "updated_date now raw = Some u" "date it = iso_date u" "\<bar>u\<bar> \<le> max_time"
    using normalize_item_time [OF assms] by blast
  from parse_iso_date_iso_date [OF u(3)] show ?thesis using u by auto
qed

theorem normalize_date_utc_day_witness:
  "normalize_item 0 (JObj [(''name'', JStr ''corn''), (''exchange'', JStr ''CBOT''),
      (''updated'', JNumber (Num 1700000000 0)), (''price'', JNumber (Num 45 1))]) =
     Inr \<lparr>productName = ''Corn'', price = Num 6975 2, currency = ''GHS'',
         location = JStr ''Chicago, Illinois'', date = ''2023-11-14'', source = ''API Ninjas'',
         usdPrice = Num 45 1\<rparr> \<and>
   \<bar>0::int\<bar> \<le> max_time \<and> parse_iso_date ''2023-11-14'' = Some 1699920000000"
proof -
  have n: "normalize_item 0 (JObj [(''name'', JStr ''corn''), (''exchange'', JStr ''CBOT''),
      (''updated'', JNumber (Num 1700000000 0)), (''price'', JNumber (Num 45 1))]) =
     Inr \<lparr>productName = ''Corn'', price = Num 6975 2, currency = ''GHS'',
         location = JStr ''Chicago, Illinois'', date = ''2023-11-14'', source = ''API Ninjas'',
         usdPrice = Num 45 1\<rparr>"
    by (simp add: normalize_defs js_simps)
  have m: "\<bar>0::int\<bar> \<le> max_time" by (simp add: max_time_def)
  have c: "updated_date 0 (JObj [(''name'', JStr ''corn''), (''exchange'', JStr ''CBOT''),
      (''updated'', JNumber (Num 1700000000 0)), (''price'', JNumber (Num 45 1))]) = Some 1700000000000"
    by (simp add: normalize_defs js_simps)
  from normalize_date_utc_day [OF n m] c have "parse_iso_date ''2023-11-14'' = Some (1700000000000 div ms_per_day * ms_per_day)"
    by auto
  then show ?thesis using n m by (simp add: ms_per_day_def)
qed

text \<open>
  C4. \<open>toTitleCase\<close> deletes a \<open>Futures\<close> word wherever it follows white space,
  not only at the end of the name: for any two lower-case words, the second not
  itself starting with \<open>futures\<close>, \<open>"w futures v"\<close> becomes \<open>"W V"\<close>.
\<close>

theorem title_case_drops_inner_futures:
  assumes "list_all is_lower (c # w)" and "list_all is_lower (d # v)" and "take 7 (d # v) \<noteq> ''futures''"
  shows "to_title_case (c # w @ '' futures '' @ d # v) = to_upper_char c # w @ '' '' @ to_upper_char d # v"
proof -
  have lc: "is_lower c" "list_all is_lower w" and ld: "is_lower d" "list_all is_lower v" using assms(1,2) by simp_all
  have "to_lower '' futures '' = '' futures ''" by (simp add: to_lower_char_def is_upper_def)
  then have low: "to_lower (c # w @ '' futures '' @ d # v) = c # w @ '' futures '' @ d # v"
    using to_lower_lower [OF assms(1)] to_lower_lower [OF assms(2)] by simp
  have "cap_words False (c # w @ '' futures '' @ d # v) = to_upper_char c # w @ cap_words True ('' futures '' @ d # v)"
    using lower_char_facts [OF lc(1)] cap_words_lower [OF lc(2)] by simp
  also have "cap_words True ('' futures '' @ d # v) = '' Futures '' @ cap_words False (d # v)"
    by (rule cap_words_futures)
  also have "cap_words False (d # v) = to_upper_char d # v"
    using lower_char_facts [OF ld(1)] cap_words_lower_Nil [OF ld(2)] by simp
  finally have cw: "cap_words False (c # w @ '' futures '' @ d # v) = to_upper_char c # w @ '' Futures '' @ to_upper_char d # v"
    by simp
  have ns: "list_all (\<lambda>x. \<not> is_space x) (to_upper_char c # w)" using lc by (simp add: lower_char_facts list_all_iff)
  have f1: "futures_at ('' Futures '' @ to_upper_char d # v) = Some ('' '' @ to_upper_char d # v)"
    by (simp add: futures_at_def is_space_def is_word_char_def is_upper_def is_lower_def is_digit_def)
  have "take 7 (to_upper_char d # v) \<noteq> ''Futures''"
  proof
    assume "take 7 (to_upper_char d # v) = ''Futures''"
    then have "to_upper_char d = CHR ''F''" "take 6 v = ''utures''" by simp_all
    then have "take 7 (d # v) = ''futures''" using upper_F [OF ld(1)] by simp
    then show False using assms(3) by simp
  qed
  moreover have sp: "is_space CHR '' ''" by (simp add: is_space_def)
  moreover have "\<not> is_space (to_upper_char d)" using lower_char_facts [OF ld(1)] by simp
  ultimately have f2: "futures_at ('' '' @ to_upper_char d # v) = None"
    by (auto simp: futures_at_def)
  have ns2: "list_all (\<lambda>x. \<not> is_space x) (to_upper_char d # v)" using ld by (simp add: lower_char_facts list_all_iff)
  have sf: "strip_futures (to_upper_char c # w @ '' Futures '' @ to_upper_char d # v) = to_upper_char c # w @ '' '' @ to_upper_char d # v"
    using strip_futures_no_space [OF ns, of "'' Futures '' @ to_upper_char d # v"]
      strip_futures_no_space [OF ns2, of "[]"] f1 f2 sp
    by simp
  show ?thesis unfolding to_title_case_def low cw sf by (rule refl)
qed

theorem title_case_drops_inner_futures_witness:
  "list_all is_lower ''corn'' \<and> list_all is_lower ''options'' \<and> take 7 ''options'' \<noteq> ''futures'' \<and>
   to_title_case ''corn futures options'' = ''Corn Options''"
  using title_case_drops_inner_futures [of "CHR ''c''" "''orn''" "CHR ''o''" "''ptions''"]
  by (simp add: is_lower_def to_upper_char_def)

text \<open>
  C24. The kinds of location a string exchange code gets: a string exactly when
  the code is not the name of an \<open>Object.prototype\<close> member (nor
  \<open>__proto__\<close>); otherwise the inherited function or prototype object.
\<close>

lemma exchange_location_string_iff:
  "(\<exists>l. get_exchange_location (JStr e) = JStr l) \<longleftrightarrow> e \<notin> set object_prototype_functions \<and> e \<noteq> ''__proto__''"
  by (auto simp: get_exchange_location_def literal_get_def exchange_locations_def object_prototype_functions_def
                 js_or_def split: option.splits if_splits)

end
