(* ===== verification/Fetcher.thy ===== *)
theory Fetcher
  imports Normalizer
begin

text \<open>
  The fetcher of \<open>src/script.js\<close>: \<open>fetchCommodityPrice\<close> (lines 128-151) and the
  batch in \<open>loadFromNewAPI\<close> (lines 91-126), which requests every configured
  commodity, keeps the truthy results in request order (\<open>Promise.allSettled\<close>
  keeps positions, and \<open>fetchCommodityPrice\<close> never rejects because its body is one
  \<open>try\<close>), throws when none is left, and hands the rest to the normaliser. The
  external price API is a parameter \<open>api\<close>, a function from request URL to
  response: each request is answered on its own, so one failure affects no other.
\<close>

section \<open>Responses\<close>

text \<open>
  What \<open>fetch\<close> can produce: a network error (the promise rejects), or a response
  with its \<open>ok\<close> flag and the outcome of \<open>response.json()\<close> (\<open>None\<close> when the
  body is not JSON, which makes \<open>json()\<close> reject).
\<close>

datatype response = NetworkError | Response bool "jsval option"

definition fetch_commodity_price :: "response \<Rightarrow> jsval" where
  "fetch_commodity_price r =
    (case r of
       NetworkError \<Rightarrow> JNull
     | Response ok body \<Rightarrow>
         if \<not> ok then JNull
         else (case body of
                 None \<Rightarrow> JNull
               | Some (JArr xs) \<Rightarrow> (case xs of [] \<Rightarrow> JNull | x # _ \<Rightarrow> js_or x JNull)
               | Some data \<Rightarrow> data))"

section \<open>Requests\<close>

text \<open>\<open>encodeURIComponent\<close> on bytes: unreserved characters stay, others become \<open>%XX\<close>.\<close>

definition hex_upper :: "nat \<Rightarrow> char" where
  "hex_upper d = ''0123456789ABCDEF'' ! d"

definition uri_unreserved :: "char \<Rightarrow> bool" where
  "uri_unreserved c \<longleftrightarrow> is_upper c \<or> is_lower c \<or> is_digit c \<or> c \<in> set ''-_.!~*'()''"

definition encode_uri_component :: "string \<Rightarrow> string" where
  "encode_uri_component s =
     concat (map (\<lambda>c. if uri_unreserved c then [c]
                      else [CHR ''%'', hex_upper (code_of c div 16), hex_upper (code_of c mod 16)]) s)"

definition api_url :: "string \<Rightarrow> string" where
  "api_url name = ''https://api.api-ninjas.com/v1/commodityprice?name='' @ encode_uri_component name"

text \<open>\<open>this.defaultCommodities\<close> (lines 11-19).\<close>

definition default_commodities :: "string list" where
  "default_commodities =
     [''corn'', ''wheat'', ''soybean'', ''soybean_meal'', ''soybean_oil'',
      ''coffee'', ''cocoa'', ''cotton'', ''sugar'', ''orange_juice'',
      ''gold'', ''platinum'', ''aluminum'', ''copper'', ''crude_oil'', ''brent_crude_oil'',
      ''natural_gas'', ''gasoline_rbob'', ''heating_oil'',
      ''lean_hogs'', ''feeder_cattle'', ''live_cattle'', ''oat'', ''lumber'', ''palladium'', ''micro_gold'']"

section \<open>The batch\<close>

text \<open>The settled values of the batch, in request order, filtered by \<open>r.value\<close>.\<close>

definition fetched_items :: "(string \<Rightarrow> response) \<Rightarrow> string list \<Rightarrow> jsval list" where
  "fetched_items api names = filter js_truthy (map (\<lambda>n. fetch_commodity_price (api (api_url n))) names)"

text \<open>
  \<open>loadFromNewAPI()\<close>: the rows it assigns to \<open>this.data\<close>, or the exception it
  throws (\<open>NoCommodityPrices\<close> for the \<open>Error\<close> of line 101, or one raised while
  normalising).
\<close>

definition load_from_new_api :: "(string \<Rightarrow> response) \<Rightarrow> int \<Rightarrow> error + item list" where
  "load_from_new_api api now =
    (let items = fetched_items api default_commodities in
     if items = [] then Inl NoCommodityPrices else normalize_items now items)"

section \<open>Lemmas\<close>

text \<open>A response fails when the request errs, the status is not ok, or the body is not JSON.\<close>

lemma fetch_failure_null:
  "r = NetworkError \<or> (\<exists>b. r = Response False b) \<or> r = Response True None \<Longrightarrow> fetch_commodity_price r = JNull"
  by (auto simp: fetch_commodity_price_def)

lemma fetched_items_empty_iff:
  "fetched_items api names = [] \<longleftrightarrow> (\<forall>n \<in> set names. \<not> js_truthy (fetch_commodity_price (api (api_url n))))"
  by (auto simp: fetched_items_def filter_empty_conv)

lemma api_url_default:
  "n \<in> set default_commodities \<Longrightarrow> api_url n = ''https://api.api-ninjas.com/v1/commodityprice?name='' @ n"
  by (auto simp: default_commodities_def api_url_def encode_uri_component_def uri_unreserved_def char_defs)

section \<open>Properties of the batch\<close>

text \<open>
  C8. When every request fails (network error, non-ok status, malformed body),
  \<open>loadFromNewAPI\<close> throws its "No commodity prices" error and normalises nothing.
\<close>

lemma load_all_fail_no_data:
  assumes "\<And>u. api u = NetworkError \<or> (\<exists>b. api u = Response False b) \<or> api u = Response True None"
  shows "load_from_new_api api now = Inl NoCommodityPrices"
proof -
  have "fetched_items api default_commodities = []"
    using fetch_failure_null [OF assms] by (simp add: fetched_items_empty_iff)
  then show ?thesis by (simp add: load_from_new_api_def)
qed

lemma load_all_fail_no_data_witness: "load_from_new_api (\<lambda>_. NetworkError) 0 = Inl NoCommodityPrices"
  by (rule load_all_fail_no_data) simp

text \<open>
  C9. Failures are independent: one configured commodity whose request yields a
  truthy record is enough for \<open>loadFromNewAPI\<close> not to throw its
  "No commodity prices" error, whatever the other requests do.
\<close>

lemma load_one_success_no_error:
  assumes "n \<in> set default_commodities" and "js_truthy (fetch_commodity_price (api (api_url n)))"
  shows "load_from_new_api api now \<noteq> Inl NoCommodityPrices"
proof -
  have ne: "fetched_items api default_commodities \<noteq> []"
    using assms by (auto simp: fetched_items_empty_iff)
  have "normalize_items now xs \<noteq> Inl NoCommodityPrices" for xs
    using normalize_items_Inl by blast
  with ne show ?thesis by (simp add: load_from_new_api_def)
qed

lemma load_one_success_no_error_witness:
  "load_from_new_api (\<lambda>u. Response True (Some (JArr [JObj [(''name'', JStr ''corn''), (''exchange'', JStr ''CBOT''),
      (''updated'', JNumber (Num 1700000000 0)), (''price'', JNumber (Num 45 1))]]))) 0 \<noteq> Inl NoCommodityPrices"
proof -
  have h1: "''corn'' \<in> set default_commodities" by (simp add: default_commodities_def)
  have h2: "js_truthy (fetch_commodity_price ((\<lambda>u. Response True (Some (JArr [JObj [(''name'', JStr ''corn''), (''exchange'', JStr ''CBOT''),
      (''updated'', JNumber (Num 1700000000 0)), (''price'', JNumber (Num 45 1))]]))) (api_url ''corn'')))"
    by (simp add: fetch_commodity_price_def js_or_def)
  show ?thesis using load_one_success_no_error [OF h1 h2] .
qed

text \<open>
  End to end: when only the corn request succeeds (with a one-element JSON
  array) and every other request gets a non-ok status, the load yields exactly
  the corn row.
\<close>

lemma load_corn_only:
  "load_from_new_api
     (\<lambda>u. if u = api_url ''corn'' then Response True (Some (JArr [JObj [(''name'', JStr ''corn''), (''exchange'', JStr ''CBOT''),
      (''updated'', JNumber (Num 1700000000 0)), (''price'', JNumber (Num 45 1))]])) else Response False None) now =
   Inr [\<lparr>productName = ''Corn'', price = Num 6975 2, currency = ''GHS'',
         location = JStr ''Chicago, Illinois'', date = ''2023-11-14'', source = ''API Ninjas'',
         usdPrice = Num 45 1\<rparr>]"
proof -
  have "fetched_items
          (\<lambda>u. if u = api_url ''corn'' then Response True (Some (JArr [JObj [(''name'', JStr ''corn''), (''exchange'', JStr ''CBOT''),
      (''updated'', JNumber (Num 1700000000 0)), (''price'', JNumber (Num 45 1))]])) else Response False None)
          default_commodities = [JObj [(''name'', JStr ''corn''), (''exchange'', JStr ''CBOT''),
      (''updated'', JNumber (Num 1700000000 0)), (''price'', JNumber (Num 45 1))]]"
    by (simp add: fetched_items_def default_commodities_def api_url_def encode_uri_component_def
        uri_unreserved_def char_defs fetch_commodity_price_def js_or_def)
  then show ?thesis by (simp add: load_from_new_api_def normalize_defs js_simps)
qed

end
