(* ===== verification/Filter_Sort.thy ===== *)
theory Filter_Sort
  imports Normalizer
begin

text \<open>
  The filter/sort engine of \<open>src/script.js\<close>: the predicate of \<open>applyFilters\<close>
  (lines 430-446) and \<open>sortData\<close> (lines 456-472). The engine works on any list
  whose elements carry a row (a projection \<open>row\<close>), so that the application can
  keep the identity of each row object (its position in \<open>this.data\<close>) through
  filtering and sorting, as \<open>this.data.indexOf(item)\<close> later needs.

  \<open>Array.prototype.sort(cmp)\<close> is stable (ECMA-262 since 2019); for a consistent
  comparator its result is the unique stable sorted permutation, which the
  insertion sort \<open>sort_by\<close> computes: an element goes after the elements it
  compares greater than (\<open>cmp x y > 0\<close>, a \<open>NaN\<close> result counting as \<open>+0\<close>).
  \<open>localeCompare\<close> depends on the host's collation; it is a parameter
  \<open>lc\<close> of the engine.
\<close>

type_synonym collator = "string \<Rightarrow> string \<Rightarrow> int"

record filter_state =
  search_text :: string
  selected_product :: string
  selected_region :: string
  sort_key_name :: string

section \<open>The inclusion predicate\<close>

text \<open>\<open>v.toLowerCase()\<close>: a \<open>TypeError\<close> on anything but a string.\<close>

fun js_lower_method :: "jsval \<Rightarrow> error + string" where
  "js_lower_method (JStr s) = Inr (to_lower s)"
| "js_lower_method _ = Inl TypeError"

text \<open>
  The callback of \<open>this.data.filter\<close>, with \<open>searchTerm\<close> already lower-cased. The
  location is only read when the term is not empty and does not occur in the
  product name (\<open>||\<close> short-circuits).
\<close>

definition matches_search :: "string \<Rightarrow> item \<Rightarrow> error + bool" where
  "matches_search term it =
    (if term = [] \<or> js_includes (to_lower (productName it)) term then Inr True
     else (case js_lower_method (location it) of
             Inl e \<Rightarrow> Inl e
           | Inr l \<Rightarrow> Inr (js_includes l term)))"

definition matches :: "filter_state \<Rightarrow> item \<Rightarrow> error + bool" where
  "matches fs it =
    (case matches_search (to_lower (search_text fs)) it of
       Inl e \<Rightarrow> Inl e
     | Inr ms \<Rightarrow>
         Inr (ms \<and> (selected_product fs = [] \<or> productName it = selected_product fs)
                 \<and> (selected_region fs = [] \<or> location it = JStr (selected_region fs))))"

section \<open>Sorting\<close>

fun insort_by :: "('a \<Rightarrow> 'a \<Rightarrow> jsnum) \<Rightarrow> 'a \<Rightarrow> 'a list \<Rightarrow> 'a list" where
  "insort_by cmp x [] = [x]"
| "insort_by cmp x (y # ys) =
     (if js_less js_zero (cmp x y) then y # insort_by cmp x ys else x # y # ys)"

fun sort_by :: "('a \<Rightarrow> 'a \<Rightarrow> jsnum) \<Rightarrow> 'a list \<Rightarrow> 'a list" where
  "sort_by cmp [] = []"
| "sort_by cmp (x # xs) = insort_by cmp x (sort_by cmp xs)"

text \<open>The comparator \<open>sortData\<close> passes to \<open>sort\<close> for each value of \<open>#sort-by\<close>.\<close>

definition sort_cmp :: "collator \<Rightarrow> string \<Rightarrow> item \<Rightarrow> item \<Rightarrow> jsnum" where
  "sort_cmp lc key =
    (if key = ''price-low'' then (\<lambda>a b. js_sub (price a) (price b))
     else if key = ''price-high'' then (\<lambda>a b. js_sub (price b) (price a))
     else if key = ''name'' then (\<lambda>a b. Num (lc (productName a) (productName b)) 0)
     else (\<lambda>a b. js_sub (date_value (date b)) (date_value (date a))))"

definition sort_data :: "collator \<Rightarrow> string \<Rightarrow> ('a \<Rightarrow> item) \<Rightarrow> 'a list \<Rightarrow> 'a list" where
  "sort_data lc key row xs = sort_by (\<lambda>a b. sort_cmp lc key (row a) (row b)) xs"

text \<open>
  \<open>applyFilters\<close> up to rendering: the new \<open>this.filteredData\<close>, or the
  exception the filter callback throws.
\<close>

definition apply_filters :: "collator \<Rightarrow> filter_state \<Rightarrow> ('a \<Rightarrow> item) \<Rightarrow> 'a list \<Rightarrow> error + 'a list" where
  "apply_filters lc fs row xs =
    (case filter_ex (\<lambda>x. matches fs (row x)) xs of
       Inl e \<Rightarrow> Inl e
     | Inr ys \<Rightarrow> Inr (sort_data lc (sort_key_name fs) row ys))"

section \<open>Comparators given by a key\<close>

text \<open>
  A comparator is given by a key \<open>f\<close> on a list when it puts \<open>x\<close> after \<open>y\<close>
  exactly when the key of \<open>x\<close> is the greater: then \<open>sort_by\<close> is HOL's stable
  \<open>sort_key f\<close>, which is the abstract specification of a stable sort.
\<close>

definition cmp_by_key :: "('a \<Rightarrow> 'a \<Rightarrow> jsnum) \<Rightarrow> ('a \<Rightarrow> 'k::linorder) \<Rightarrow> 'a list \<Rightarrow> bool" where
  "cmp_by_key cmp f xs \<longleftrightarrow> (\<forall>x \<in> set xs. \<forall>y \<in> set xs. js_less js_zero (cmp x y) \<longleftrightarrow> f y < f x)"

text \<open>
  The contract of the inclusion predicate as the specification states it, for a
  row whose location is the string \<open>loc\<close>: a non-empty search text occurs in
  the name or the location, ignoring case; a selected product or location is
  matched exactly.
\<close>

definition contract_matches :: "filter_state \<Rightarrow> string \<Rightarrow> string \<Rightarrow> bool" where
  "contract_matches fs name loc \<longleftrightarrow>
     (to_lower (search_text fs) = [] \<or> js_includes (to_lower name) (to_lower (search_text fs))
        \<or> js_includes (to_lower loc) (to_lower (search_text fs)))
     \<and> (selected_product fs = [] \<or> name = selected_product fs)
     \<and> (selected_region fs = [] \<or> loc = selected_region fs)"

section \<open>Lemmas\<close>

lemma mset_insort_by [simp]: "mset (insort_by cmp x xs) = add_mset x (mset xs)"
  by (induction xs) auto

lemma mset_sort_by [simp]: "mset (sort_by cmp xs) = mset xs"
  by (induction xs) auto

lemma set_sort_by [simp]: "set (sort_by cmp xs) = set xs"
  by (metis mset_sort_by set_mset_mset)

lemma cmp_by_key_subset: "cmp_by_key cmp f xs \<Longrightarrow> set ys \<subseteq> set xs \<Longrightarrow> cmp_by_key cmp f ys"
  by (auto simp: cmp_by_key_def)

lemma insort_by_key:
  "(\<And>y. y \<in> set ys \<Longrightarrow> js_less js_zero (cmp x y) \<longleftrightarrow> f y < f x) \<Longrightarrow> insort_by cmp x ys = insort_key f x ys"
  by (induction ys) (auto simp: not_less)

lemma sort_by_key: "cmp_by_key cmp f xs \<Longrightarrow> sort_by cmp xs = sort_key f xs"
proof (induction xs)
  case Nil
  then show ?case by simp
next
  case (Cons x xs)
  then have "cmp_by_key cmp f xs" by (auto intro: cmp_by_key_subset)
  with Cons.IH have "sort_by cmp xs = sort_key f xs" by blast
  moreover have "insort_by cmp x (sort_key f xs) = insort_key f x (sort_key f xs)"
    using Cons.prems by (intro insort_by_key) (auto simp: cmp_by_key_def)
  ultimately show ?case by simp
qed

lemma num_val_SomeE: "num_val x = Some w \<Longrightarrow> \<exists>m k. x = Num m k \<and> dec_val m k = w"
  by (cases x) auto

lemma js_less_zero_iff: "num_val x = Some w \<Longrightarrow> js_less js_zero x \<longleftrightarrow> 0 < w"
  using num_val_SomeE [of x w] by (auto simp: js_less_num dec_val_pos_iff)

lemma js_sub_pos_iff:
  "num_val a = Some u \<Longrightarrow> num_val b = Some v \<Longrightarrow> js_less js_zero (js_sub a b) \<longleftrightarrow> v < u"
  using js_less_zero_iff [OF num_val_js_sub] by simp

lemma sort_cmp_price_low:
  assumes h: "\<And>x. x \<in> set xs \<Longrightarrow> num_val (price (row x)) = Some (f x)"
  shows "cmp_by_key (\<lambda>a b. sort_cmp lc ''price-low'' (row a) (row b)) f xs"
proof -
  have "js_less js_zero (js_sub (price (row x)) (price (row y))) \<longleftrightarrow> f y < f x"
    if "x \<in> set xs" "y \<in> set xs" for x y
    using js_sub_pos_iff [OF h [OF that(1)] h [OF that(2)]] .
  then show ?thesis by (simp add: cmp_by_key_def sort_cmp_def)
qed

lemma sort_cmp_price_high:
  assumes h: "\<And>x. x \<in> set xs \<Longrightarrow> num_val (price (row x)) = Some (f x)"
  shows "cmp_by_key (\<lambda>a b. sort_cmp lc ''price-high'' (row a) (row b)) (\<lambda>x. - f x) xs"
proof -
  have "js_less js_zero (js_sub (price (row y)) (price (row x))) \<longleftrightarrow> - f y < - f x"
    if "x \<in> set xs" "y \<in> set xs" for x y
    using js_sub_pos_iff [OF h [OF that(2)] h [OF that(1)]] by simp
  then show ?thesis by (simp add: cmp_by_key_def sort_cmp_def)
qed

lemma sort_cmp_name:
  "cmp_by_key (\<lambda>a b. sort_cmp lc ''name'' (row a) (row b)) (\<lambda>x. ck (productName (row x))) xs"
  if "\<And>a b. 0 < lc a b \<longleftrightarrow> ck b < ck a"
  using that by (auto simp: cmp_by_key_def sort_cmp_def js_less_num dec_val_def)

lemma sort_cmp_date:
  "cmp_by_key (\<lambda>a b. sort_cmp lc key (row a) (row b)) (\<lambda>x. - g x) xs"
  if "key \<notin> {''price-low'', ''price-high'', ''name''}"
    and "\<And>x. x \<in> set xs \<Longrightarrow> date_value (date (row x)) = Num (g x) 0"
  unfolding cmp_by_key_def sort_cmp_def
  using that(1) by (auto simp: that(2) js_sub_def js_less_num dec_val_def)

lemma sort_data_key: "cmp_by_key (\<lambda>a b. sort_cmp lc key (row a) (row b)) f xs \<Longrightarrow> sort_data lc key row xs = sort_key f xs"
  by (simp add: sort_data_def sort_by_key)

lemma mset_sort_data [simp]: "mset (sort_data lc key row xs) = mset xs"
  by (simp add: sort_data_def)

lemma sort_key_neg_rev:
  fixes f :: "'a \<Rightarrow> 'k::linordered_ab_group_add"
  assumes "inj_on f (set xs)"
  shows "sort_key (\<lambda>x. - f x) xs = rev (sort_key f xs)"
proof (rule sort_key_inj_key_eq)
  show "mset xs = mset (rev (sort_key f xs))" by simp
  show "inj_on (\<lambda>x. - f x) (set xs)" using assms by (auto simp: inj_on_def)
  have "sorted_wrt (\<lambda>x y. f x \<le> f y) (sort_key f xs)"
    using sorted_sort_key [of f xs] by (simp only: sorted_map)
  then show "sorted (map (\<lambda>x. - f x) (rev (sort_key f xs)))"
    by (simp add: sorted_map sorted_wrt_rev)
qed

lemma apply_filters_Inr:
  "(\<And>x. x \<in> set xs \<Longrightarrow> matches fs (row x) = Inr (P x)) \<Longrightarrow>
   apply_filters lc fs row xs = Inr (sort_data lc (sort_key_name fs) row (filter P xs))"
  by (simp add: apply_filters_def filter_ex_Inr)

lemma matches_contract:
  "location it = JStr l \<Longrightarrow> matches fs it = Inr (contract_matches fs (productName it) l)"
  by (auto simp: matches_def matches_search_def contract_matches_def)

lemma matches_Inl: "matches fs it = Inl e \<Longrightarrow> e = TypeError"
  by (cases "location it") (auto simp: matches_def matches_search_def split: if_splits sum.splits)

lemma matches_nonstring_location:
  "\<forall>l. location it \<noteq> JStr l \<Longrightarrow> to_lower (search_text fs) \<noteq> [] \<Longrightarrow>
   \<not> js_includes (to_lower (productName it)) (to_lower (search_text fs)) \<Longrightarrow> matches fs it = Inl TypeError"
  by (cases "location it") (auto simp: matches_def matches_search_def)

lemma apply_filters_Inl:
  "x \<in> set xs \<Longrightarrow> matches fs (row x) = Inl e \<Longrightarrow> apply_filters lc fs row xs = Inl TypeError"
proof -
  assume "x \<in> set xs" "matches fs (row x) = Inl e"
  then obtain e' where e': "filter_ex (\<lambda>x. matches fs (row x)) xs = Inl e'"
    using filter_ex_Inl [of x xs "\<lambda>x. matches fs (row x)"] by blast
  then have "e' = TypeError" using filter_ex_InlD [OF e'] matches_Inl by blast
  with e' show ?thesis by (simp add: apply_filters_def)
qed

lemma date_value_sample: "date_value ''2023-11-14'' = Num 1699920000000 0"
  by (simp add: date_value_def parse_iso_date_def parse_year_def all_digits_def days_from_civil_def
        days_of_shifted_def days_of_yoe_def ms_per_day_def max_time_def js_simps)

section \<open>Properties of the engine\<close>

text \<open>
  C5. Refinement of the inclusion predicate: on rows whose locations are strings,
  \<open>applyFilters\<close> keeps exactly the rows the specification's predicate
  \<open>contract_matches\<close> accepts, and orders them by \<open>sortData\<close>.
\<close>

lemma apply_filters_contract:
  assumes "\<And>x. x \<in> set xs \<Longrightarrow> location (row x) = JStr (loc x)"
  shows "apply_filters lc fs row xs =
           Inr (sort_data lc (sort_key_name fs) row
                  (filter (\<lambda>x. contract_matches fs (productName (row x)) (loc x)) xs))"
  using assms by (intro apply_filters_Inr) (simp add: matches_contract)

lemma apply_filters_contract_witness:
  "apply_filters (\<lambda>_ _. 0) \<lparr>search_text = ''gold'', selected_product = [], selected_region = [], sort_key_name = ''date''\<rparr> id [\<lparr>productName = ''Gold'', price = Num 31000 0, currency = ''GHS'', location = JStr ''New York, New York'', date = ''2023-11-14'', source = ''API Ninjas'', usdPrice = Num 31000 0\<rparr>, \<lparr>productName = ''Corn'', price = Num 31000 0, currency = ''GHS'', location = JStr ''Chicago, Illinois'', date = ''2023-11-14'', source = ''API Ninjas'', usdPrice = Num 31000 0\<rparr>] =
     Inr (sort_data (\<lambda>_ _. 0) ''date'' id
            (filter (\<lambda>x. contract_matches \<lparr>search_text = ''gold'', selected_product = [], selected_region = [], sort_key_name = ''date''\<rparr> (productName (id x)) (case location (id x) of JStr l \<Rightarrow> l | _ \<Rightarrow> [])) [\<lparr>productName = ''Gold'', price = Num 31000 0, currency = ''GHS'', location = JStr ''New York, New York'', date = ''2023-11-14'', source = ''API Ninjas'', usdPrice = Num 31000 0\<rparr>, \<lparr>productName = ''Corn'', price = Num 31000 0, currency = ''GHS'', location = JStr ''Chicago, Illinois'', date = ''2023-11-14'', source = ''API Ninjas'', usdPrice = Num 31000 0\<rparr>]))"
proof -
  let ?fs = "\<lparr>search_text = ''gold'', selected_product = [], selected_region = [], sort_key_name = ''date''\<rparr>"
  let ?xs = "[\<lparr>productName = ''Gold'', price = Num 31000 0, currency = ''GHS'', location = JStr ''New York, New York'', date = ''2023-11-14'', source = ''API Ninjas'', usdPrice = Num 31000 0\<rparr>, \<lparr>productName = ''Corn'', price = Num 31000 0, currency = ''GHS'', location = JStr ''Chicago, Illinois'', date = ''2023-11-14'', source = ''API Ninjas'', usdPrice = Num 31000 0\<rparr>]"
  have "apply_filters (\<lambda>_ _. 0) ?fs id ?xs =
          Inr (sort_data (\<lambda>_ _. 0) (sort_key_name ?fs) id
                 (filter (\<lambda>x. contract_matches ?fs (productName (id x)) (case location (id x) of JStr l \<Rightarrow> l | _ \<Rightarrow> [])) ?xs))"
    by (rule apply_filters_contract [where loc = "\<lambda>x. case location (id x) of JStr l \<Rightarrow> l | _ \<Rightarrow> []"]) auto
  then show ?thesis by simp
qed

text \<open>
  C6. With finite prices \<open>f\<close>, \<open>sortData('price-low')\<close> is the stable sort by
  ascending price and \<open>sortData('price-high')\<close> the stable sort by descending
  price (HOL's \<open>sort_key\<close>).
\<close>

lemma sort_price_refines:
  assumes "\<And>x. x \<in> set xs \<Longrightarrow> num_val (price (row x)) = Some (f x)"
  shows "sort_data lc ''price-low'' row xs = sort_key f xs \<and>
         sort_data lc ''price-high'' row xs = sort_key (\<lambda>x. - f x) xs"
proof
  show "sort_data lc ''price-low'' row xs = sort_key f xs"
    by (rule sort_data_key, rule sort_cmp_price_low, simp add: assms)
  show "sort_data lc ''price-high'' row xs = sort_key (\<lambda>x. - f x) xs"
    by (rule sort_data_key, rule sort_cmp_price_high, simp add: assms)
qed

lemma sort_price_refines_witness:
  "sort_data (\<lambda>_ _. 0) ''price-low'' id [\<lparr>productName = ''Wheat'', price = Num 3 0, currency = ''GHS'', location = JStr ''New York, New York'', date = ''2023-11-14'', source = ''API Ninjas'', usdPrice = Num 3 0\<rparr>, \<lparr>productName = ''Oat'', price = Num 2 0, currency = ''GHS'', location = JStr ''New York, New York'', date = ''2023-11-14'', source = ''API Ninjas'', usdPrice = Num 2 0\<rparr>] = sort_key (\<lambda>x::item. case num_val (price x) of Some v \<Rightarrow> v | None \<Rightarrow> 0) [\<lparr>productName = ''Wheat'', price = Num 3 0, currency = ''GHS'', location = JStr ''New York, New York'', date = ''2023-11-14'', source = ''API Ninjas'', usdPrice = Num 3 0\<rparr>, \<lparr>productName = ''Oat'', price = Num 2 0, currency = ''GHS'', location = JStr ''New York, New York'', date = ''2023-11-14'', source = ''API Ninjas'', usdPrice = Num 2 0\<rparr>] \<and>
   sort_data (\<lambda>_ _. 0) ''price-high'' id [\<lparr>productName = ''Wheat'', price = Num 3 0, currency = ''GHS'', location = JStr ''New York, New York'', date = ''2023-11-14'', source = ''API Ninjas'', usdPrice = Num 3 0\<rparr>, \<lparr>productName = ''Oat'', price = Num 2 0, currency = ''GHS'', location = JStr ''New York, New York'', date = ''2023-11-14'', source = ''API Ninjas'', usdPrice = Num 2 0\<rparr>] = sort_key (\<lambda>x. - (\<lambda>x::item. case num_val (price x) of Some v \<Rightarrow> v | None \<Rightarrow> 0) x) [\<lparr>productName = ''Wheat'', price = Num 3 0, currency = ''GHS'', location = JStr ''New York, New York'', date = ''2023-11-14'', source = ''API Ninjas'', usdPrice = Num 3 0\<rparr>, \<lparr>productName = ''Oat'', price = Num 2 0, currency = ''GHS'', location = JStr ''New York, New York'', date = ''2023-11-14'', source = ''API Ninjas'', usdPrice = Num 2 0\<rparr>] \<and>
   sort_key (\<lambda>x::item. case num_val (price x) of Some v \<Rightarrow> v | None \<Rightarrow> 0) [\<lparr>productName = ''Wheat'', price = Num 3 0, currency = ''GHS'', location = JStr ''New York, New York'', date = ''2023-11-14'', source = ''API Ninjas'', usdPrice = Num 3 0\<rparr>, \<lparr>productName = ''Oat'', price = Num 2 0, currency = ''GHS'', location = JStr ''New York, New York'', date = ''2023-11-14'', source = ''API Ninjas'', usdPrice = Num 2 0\<rparr>] = [\<lparr>productName = ''Oat'', price = Num 2 0, currency = ''GHS'', location = JStr ''New York, New York'', date = ''2023-11-14'', source = ''API Ninjas'', usdPrice = Num 2 0\<rparr>, \<lparr>productName = ''Wheat'', price = Num 3 0, currency = ''GHS'', location = JStr ''New York, New York'', date = ''2023-11-14'', source = ''API Ninjas'', usdPrice = Num 3 0\<rparr>]"
proof -
  have c: "sort_data (\<lambda>_ _. 0) ''price-low'' id [\<lparr>productName = ''Wheat'', price = Num 3 0, currency = ''GHS'', location = JStr ''New York, New York'', date = ''2023-11-14'', source = ''API Ninjas'', usdPrice = Num 3 0\<rparr>, \<lparr>productName = ''Oat'', price = Num 2 0, currency = ''GHS'', location = JStr ''New York, New York'', date = ''2023-11-14'', source = ''API Ninjas'', usdPrice = Num 2 0\<rparr>] = sort_key (\<lambda>x::item. case num_val (price x) of Some v \<Rightarrow> v | None \<Rightarrow> 0) [\<lparr>productName = ''Wheat'', price = Num 3 0, currency = ''GHS'', location = JStr ''New York, New York'', date = ''2023-11-14'', source = ''API Ninjas'', usdPrice = Num 3 0\<rparr>, \<lparr>productName = ''Oat'', price = Num 2 0, currency = ''GHS'', location = JStr ''New York, New York'', date = ''2023-11-14'', source = ''API Ninjas'', usdPrice = Num 2 0\<rparr>] \<and>
   sort_data (\<lambda>_ _. 0) ''price-high'' id [\<lparr>productName = ''Wheat'', price = Num 3 0, currency = ''GHS'', location = JStr ''New York, New York'', date = ''2023-11-14'', source = ''API Ninjas'', usdPrice = Num 3 0\<rparr>, \<lparr>productName = ''Oat'', price = Num 2 0, currency = ''GHS'', location = JStr ''New York, New York'', date = ''2023-11-14'', source = ''API Ninjas'', usdPrice = Num 2 0\<rparr>] = sort_key (\<lambda>x. - (\<lambda>x::item. case num_val (price x) of Some v \<Rightarrow> v | None \<Rightarrow> 0) x) [\<lparr>productName = ''Wheat'', price = Num 3 0, currency = ''GHS'', location = JStr ''New York, New York'', date = ''2023-11-14'', source = ''API Ninjas'', usdPrice = Num 3 0\<rparr>, \<lparr>productName = ''Oat'', price = Num 2 0, currency = ''GHS'', location = JStr ''New York, New York'', date = ''2023-11-14'', source = ''API Ninjas'', usdPrice = Num 2 0\<rparr>]"
    by (rule sort_price_refines) auto
  show ?thesis using c by (simp add: dec_val_def)
qed

text \<open>
  C7. Sorting by \<open>price-high\<close> gives the reverse of sorting by \<open>price-low\<close> when
  the prices are finite and pairwise distinct (with equal prices the two stable
  sorts keep ties in the same order, so the property needs distinctness).
\<close>

lemma price_high_reverse:
  assumes "\<And>x. x \<in> set xs \<Longrightarrow> num_val (price (row x)) = Some (f x)" and "inj_on f (set xs)"
  shows "sort_data lc ''price-high'' row xs = rev (sort_data lc ''price-low'' row xs)"
proof -
  have "sort_data lc ''price-high'' row xs = sort_key (\<lambda>x. - f x) xs"
    by (rule sort_data_key, rule sort_cmp_price_high, simp add: assms(1))
  also have "\<dots> = rev (sort_key f xs)" using assms(2) by (rule sort_key_neg_rev)
  also have "\<dots> = rev (sort_data lc ''price-low'' row xs)"
    by (rule arg_cong [where f = rev], rule sym, rule sort_data_key, rule sort_cmp_price_low, simp add: assms(1))
  finally show ?thesis .
qed

lemma price_high_reverse_witness:
  "sort_data (\<lambda>_ _. 0) ''price-high'' id [\<lparr>productName = ''Oat'', price = Num 2 0, currency = ''GHS'', location = JStr ''New York, New York'', date = ''2023-11-14'', source = ''API Ninjas'', usdPrice = Num 2 0\<rparr>, \<lparr>productName = ''Wheat'', price = Num 3 0, currency = ''GHS'', location = JStr ''New York, New York'', date = ''2023-11-14'', source = ''API Ninjas'', usdPrice = Num 3 0\<rparr>] = rev (sort_data (\<lambda>_ _. 0) ''price-low'' id [\<lparr>productName = ''Oat'', price = Num 2 0, currency = ''GHS'', location = JStr ''New York, New York'', date = ''2023-11-14'', source = ''API Ninjas'', usdPrice = Num 2 0\<rparr>, \<lparr>productName = ''Wheat'', price = Num 3 0, currency = ''GHS'', location = JStr ''New York, New York'', date = ''2023-11-14'', source = ''API Ninjas'', usdPrice = Num 3 0\<rparr>]) \<and>
   sort_data (\<lambda>_ _. 0) ''price-high'' id [\<lparr>productName = ''Oat'', price = Num 2 0, currency = ''GHS'', location = JStr ''New York, New York'', date = ''2023-11-14'', source = ''API Ninjas'', usdPrice = Num 2 0\<rparr>, \<lparr>productName = ''Wheat'', price = Num 3 0, currency = ''GHS'', location = JStr ''New York, New York'', date = ''2023-11-14'', source = ''API Ninjas'', usdPrice = Num 3 0\<rparr>] = [\<lparr>productName = ''Wheat'', price = Num 3 0, currency = ''GHS'', location = JStr ''New York, New York'', date = ''2023-11-14'', source = ''API Ninjas'', usdPrice = Num 3 0\<rparr>, \<lparr>productName = ''Oat'', price = Num 2 0, currency = ''GHS'', location = JStr ''New York, New York'', date = ''2023-11-14'', source = ''API Ninjas'', usdPrice = Num 2 0\<rparr>]"
proof -
  have c: "sort_data (\<lambda>_ _. 0) ''price-high'' id [\<lparr>productName = ''Oat'', price = Num 2 0, currency = ''GHS'', location = JStr ''New York, New York'', date = ''2023-11-14'', source = ''API Ninjas'', usdPrice = Num 2 0\<rparr>, \<lparr>productName = ''Wheat'', price = Num 3 0, currency = ''GHS'', location = JStr ''New York, New York'', date = ''2023-11-14'', source = ''API Ninjas'', usdPrice = Num 3 0\<rparr>] = rev (sort_data (\<lambda>_ _. 0) ''price-low'' id [\<lparr>productName = ''Oat'', price = Num 2 0, currency = ''GHS'', location = JStr ''New York, New York'', date = ''2023-11-14'', source = ''API Ninjas'', usdPrice = Num 2 0\<rparr>, \<lparr>productName = ''Wheat'', price = Num 3 0, currency = ''GHS'', location = JStr ''New York, New York'', date = ''2023-11-14'', source = ''API Ninjas'', usdPrice = Num 3 0\<rparr>])"
    by (rule price_high_reverse [where f = "(\<lambda>x::item. case num_val (price x) of Some v \<Rightarrow> v | None \<Rightarrow> 0)"]) (auto simp: dec_val_def)
  have "sort_data (\<lambda>_ _. 0) ''price-low'' id [\<lparr>productName = ''Oat'', price = Num 2 0, currency = ''GHS'', location = JStr ''New York, New York'', date = ''2023-11-14'', source = ''API Ninjas'', usdPrice = Num 2 0\<rparr>, \<lparr>productName = ''Wheat'', price = Num 3 0, currency = ''GHS'', location = JStr ''New York, New York'', date = ''2023-11-14'', source = ''API Ninjas'', usdPrice = Num 3 0\<rparr>] = [\<lparr>productName = ''Oat'', price = Num 2 0, currency = ''GHS'', location = JStr ''New York, New York'', date = ''2023-11-14'', source = ''API Ninjas'', usdPrice = Num 2 0\<rparr>, \<lparr>productName = ''Wheat'', price = Num 3 0, currency = ''GHS'', location = JStr ''New York, New York'', date = ''2023-11-14'', source = ''API Ninjas'', usdPrice = Num 3 0\<rparr>]"
    by (simp add: sort_data_def sort_cmp_def js_sub_def)
  then show ?thesis using c by simp
qed

text \<open>
  Example: the search scenario of the specification: the text \<open>gold\<close> selects Gold
  and Micro Gold, not Corn, ignoring case.
\<close>

lemma search_gold_scenario:
  "apply_filters lc \<lparr>search_text = ''gold'', selected_product = [], selected_region = [], sort_key_name = ''date''\<rparr> id [\<lparr>productName = ''Gold'', price = Num 31000 0, currency = ''GHS'', location = JStr ''New York, New York'', date = ''2023-11-14'', source = ''API Ninjas'', usdPrice = Num 31000 0\<rparr>, \<lparr>productName = ''Micro Gold'', price = Num 31000 0, currency = ''GHS'', location = JStr ''New York, New York'', date = ''2023-11-14'', source = ''API Ninjas'', usdPrice = Num 31000 0\<rparr>, \<lparr>productName = ''Corn'', price = Num 31000 0, currency = ''GHS'', location = JStr ''Chicago, Illinois'', date = ''2023-11-14'', source = ''API Ninjas'', usdPrice = Num 31000 0\<rparr>] = Inr [\<lparr>productName = ''Gold'', price = Num 31000 0, currency = ''GHS'', location = JStr ''New York, New York'', date = ''2023-11-14'', source = ''API Ninjas'', usdPrice = Num 31000 0\<rparr>, \<lparr>productName = ''Micro Gold'', price = Num 31000 0, currency = ''GHS'', location = JStr ''New York, New York'', date = ''2023-11-14'', source = ''API Ninjas'', usdPrice = Num 31000 0\<rparr>]"
proof -
  have m: "matches \<lparr>search_text = ''gold'', selected_product = [], selected_region = [], sort_key_name = ''date''\<rparr> \<lparr>productName = ''Gold'', price = Num 31000 0, currency = ''GHS'', location = JStr ''New York, New York'', date = ''2023-11-14'', source = ''API Ninjas'', usdPrice = Num 31000 0\<rparr> = Inr True" "matches \<lparr>search_text = ''gold'', selected_product = [], selected_region = [], sort_key_name = ''date''\<rparr> \<lparr>productName = ''Micro Gold'', price = Num 31000 0, currency = ''GHS'', location = JStr ''New York, New York'', date = ''2023-11-14'', source = ''API Ninjas'', usdPrice = Num 31000 0\<rparr> = Inr True"
    "matches \<lparr>search_text = ''gold'', selected_product = [], selected_region = [], sort_key_name = ''date''\<rparr> \<lparr>productName = ''Corn'', price = Num 31000 0, currency = ''GHS'', location = JStr ''Chicago, Illinois'', date = ''2023-11-14'', source = ''API Ninjas'', usdPrice = Num 31000 0\<rparr> = Inr False"
    by (simp_all add: matches_def matches_search_def char_defs)
  show ?thesis
    using m date_value_sample by (simp add: apply_filters_def sort_data_def sort_cmp_def js_sub_def)
qed

end
