(* ===== verification/Json.thy ===== *)
theory Json
  imports Js_Number
begin

text \<open>
  \<open>JSON.stringify\<close> and \<open>JSON.parse\<close> as the watchlist uses them (ECMA-262 25.5
  on the byte model of strings). \<open>json_stringify\<close> returns \<open>None\<close> for
  \<open>undefined\<close> (the value has no JSON text). Non-finite numbers are written
  \<open>null\<close>; properties whose value is \<open>undefined\<close> or a function are left out of
  objects and written \<open>null\<close> in arrays. \<open>json_parse\<close> returns \<open>None\<close> where
  \<open>JSON.parse\<close> throws \<open>SyntaxError\<close>. Its recursion runs on a fuel argument:
  every call in a chain of calls consumes input, so \<open>2 * length s + 1\<close> is enough
  fuel for a text \<open>s\<close>. A \<open>\uXXXX\<close> escape above \<open>0x7F\<close> yields the UTF-8
  bytes of the code unit. Objects keep their keys in insertion order (a key seen
  again keeps its place and takes the new value); the ordering of integer-like
  keys first, which no object of this program has, is not modelled.
\<close>

section \<open>JSON.stringify\<close>

definition hex_lower :: "nat \<Rightarrow> char" where
  "hex_lower d = ''0123456789abcdef'' ! d"

text \<open>\<open>QuoteJSONString\<close> for one byte.\<close>

definition json_escape_char :: "char \<Rightarrow> string" where
  "json_escape_char c =
    (if c = CHR 0x22 then [CHR 0x5C, CHR 0x22]
     else if c = CHR 0x5C then [CHR 0x5C, CHR 0x5C]
     else if c = CHR 0x08 then [CHR 0x5C, CHR ''b'']
     else if c = CHR 0x0C then [CHR 0x5C, CHR ''f'']
     else if c = CHR 0x0A then [CHR 0x5C, CHR ''n'']
     else if c = CHR 0x0D then [CHR 0x5C, CHR ''r'']
     else if c = CHR 0x09 then [CHR 0x5C, CHR ''t'']
     else if code_of c < 32 then [CHR 0x5C, CHR ''u'', CHR ''0'', CHR ''0'', hex_lower (code_of c div 16), hex_lower (code_of c mod 16)]
     else [c])"

definition json_quote :: "string \<Rightarrow> string" where
  "json_quote s = CHR 0x22 # concat (map json_escape_char s) @ [CHR 0x22]"

fun json_stringify :: "jsval \<Rightarrow> string option" where
  "json_stringify JUndef = None"
| "json_stringify (JFun _) = None"
| "json_stringify JNull = Some ''null''"
| "json_stringify (JBool b) = Some (if b then ''true'' else ''false'')"
| "json_stringify (JNumber n) = Some (if js_finite n then num_to_string n else ''null'')"
| "json_stringify (JStr s) = Some (json_quote s)"
| "json_stringify (JArr xs) =
     Some (''['' @ join_with '','' (map (\<lambda>x. case json_stringify x of None \<Rightarrow> ''null'' | Some t \<Rightarrow> t) xs) @ '']'')"
| "json_stringify (JObj kvs) =
     Some (''{'' @ join_with '',''
             (concat (map (\<lambda>kv. case json_stringify (snd kv) of
                                  None \<Rightarrow> []
                                | Some t \<Rightarrow> [json_quote (fst kv) @ '':'' @ t]) kvs)) @ ''}'')"

section \<open>JSON.parse\<close>

definition is_json_ws :: "char \<Rightarrow> bool" where
  "is_json_ws c \<longleftrightarrow> c \<in> set [CHR 0x09, CHR 0x0A, CHR 0x0D, CHR 0x20]"

abbreviation skip_ws :: "string \<Rightarrow> string" where
  "skip_ws s \<equiv> dropWhile is_json_ws s"

text \<open>The UTF-8 bytes of a code unit \<open>u < 0x10000\<close>.\<close>

definition utf8_unit :: "nat \<Rightarrow> string" where
  "utf8_unit u =
    (if u < 128 then [char_of u]
     else if u < 2048 then [char_of (192 + u div 64), char_of (128 + u mod 64)]
     else [char_of (224 + u div 4096), char_of (128 + u div 64 mod 64), char_of (128 + u mod 64)])"

text \<open>The characters of a string literal after the opening quote, up to the closing one.\<close>

fun parse_chars :: "string \<Rightarrow> string \<Rightarrow> (string \<times> string) option" where
  "parse_chars acc [] = None"
| "parse_chars acc (c # r) =
     (if c = CHR 0x22 then Some (acc, r)
      else if code_of c < 32 then None
      else if c = CHR 0x5C then
        (case r of
           [] \<Rightarrow> None
         | e # r' \<Rightarrow>
             if e = CHR 0x22 \<or> e = CHR 0x5C \<or> e = CHR ''/'' then parse_chars (acc @ [e]) r'
             else if e = CHR ''b'' then parse_chars (acc @ [CHR 0x08]) r'
             else if e = CHR ''f'' then parse_chars (acc @ [CHR 0x0C]) r'
             else if e = CHR ''n'' then parse_chars (acc @ [CHR 0x0A]) r'
             else if e = CHR ''r'' then parse_chars (acc @ [CHR 0x0D]) r'
             else if e = CHR ''t'' then parse_chars (acc @ [CHR 0x09]) r'
             else if e = CHR ''u'' \<and> 4 \<le> length r' then
               (case radix_val 16 0 (take 4 r') of
                  Some u \<Rightarrow> parse_chars (acc @ utf8_unit u) (drop 4 r')
                | None \<Rightarrow> None)
             else None)
      else parse_chars (acc @ [c]) r)"

text \<open>
  A JSON number: \<open>-? (0 | [1-9][0-9]*) (. [0-9]+)? ([eE] [+-]? [0-9]+)?\<close>, read with the
  decimal scanner once its shape is checked.
\<close>

definition json_number_prefix :: "string \<Rightarrow> nat option" where
  "json_number_prefix s =
    (let neg = (if take 1 s = ''-'' then 1 else 0);
         r = drop neg s;
         ip = takeWhile is_digit r
     in if ip = [] \<or> (hd ip = CHR ''0'' \<and> 1 < length ip) then None
        else
          (let r1 = drop (length ip) r;
               fp = (if take 1 r1 = ''.'' then takeWhile is_digit (drop 1 r1) else []);
               fl = (if take 1 r1 = ''.'' then (if fp = [] then None else Some (1 + length fp)) else Some 0)
           in case fl of
                None \<Rightarrow> None
              | Some f \<Rightarrow>
                  (let r2 = drop f r1 in
                   if take 1 r2 \<in> {''e'', ''E''} then
                     (let r3 = drop 1 r2;
                          sg = (if take 1 r3 \<in> {''+'', ''-''} then 1 else 0);
                          ds = takeWhile is_digit (drop sg r3)
                      in if ds = [] then None else Some (neg + length ip + f + 1 + sg + length ds))
                   else Some (neg + length ip + f))))"

definition parse_json_number :: "string \<Rightarrow> (jsval \<times> string) option" where
  "parse_json_number s =
    (case json_number_prefix s of
       None \<Rightarrow> None
     | Some n \<Rightarrow> (case scan_decimal (take n s) of Some (v, []) \<Rightarrow> Some (JNumber v, drop n s) | _ \<Rightarrow> None))"

text \<open>Adding a property to an object under construction.\<close>

definition obj_set :: "(string \<times> jsval) list \<Rightarrow> string \<Rightarrow> jsval \<Rightarrow> (string \<times> jsval) list" where
  "obj_set kvs k v = (if k \<in> fst ` set kvs then map (\<lambda>(k', v'). if k' = k then (k', v) else (k', v')) kvs else kvs @ [(k, v)])"

fun parse_value :: "nat \<Rightarrow> string \<Rightarrow> (jsval \<times> string) option"
and parse_elements :: "nat \<Rightarrow> jsval list \<Rightarrow> string \<Rightarrow> (jsval \<times> string) option"
and parse_members :: "nat \<Rightarrow> (string \<times> jsval) list \<Rightarrow> string \<Rightarrow> (jsval \<times> string) option" where
  "parse_value 0 s = None"
| "parse_value (Suc f) s =
     (case skip_ws s of
        [] \<Rightarrow> None
      | c # r \<Rightarrow>
          if c = CHR ''{'' then
            (case skip_ws r of
               d # r' \<Rightarrow> if d = CHR ''}'' then Some (JObj [], r') else parse_members f [] r
             | [] \<Rightarrow> None)
          else if c = CHR ''['' then
            (case skip_ws r of
               d # r' \<Rightarrow> if d = CHR '']'' then Some (JArr [], r') else parse_elements f [] r
             | [] \<Rightarrow> None)
          else if c = CHR 0x22 then map_option (apfst JStr) (parse_chars [] r)
          else if take 4 (c # r) = ''true'' then Some (JBool True, drop 3 r)
          else if take 5 (c # r) = ''false'' then Some (JBool False, drop 4 r)
          else if take 4 (c # r) = ''null'' then Some (JNull, drop 3 r)
          else parse_json_number (c # r))"
| "parse_elements 0 acc s = None"
| "parse_elements (Suc f) acc s =
     (case parse_value f s of
        None \<Rightarrow> None
      | Some (v, r) \<Rightarrow>
          (case skip_ws r of
             d # r' \<Rightarrow>
               if d = CHR '','' then parse_elements f (acc @ [v]) r'
               else if d = CHR '']'' then Some (JArr (acc @ [v]), r')
               else None
           | [] \<Rightarrow> None))"
| "parse_members 0 acc s = None"
| "parse_members (Suc f) acc s =
     (case skip_ws s of
        c # r \<Rightarrow>
          if c \<noteq> CHR 0x22 then None
          else
            (case parse_chars [] r of
               None \<Rightarrow> None
             | Some (k, r1) \<Rightarrow>
                 (case skip_ws r1 of
                    d # r2 \<Rightarrow>
                      if d \<noteq> CHR '':'' then None
                      else
                        (case parse_value f r2 of
                           None \<Rightarrow> None
                         | Some (v, r3) \<Rightarrow>
                             (case skip_ws r3 of
                                e # r4 \<Rightarrow>
                                  if e = CHR '','' then parse_members f (obj_set acc k v) r4
                                  else if e = CHR ''}'' then Some (JObj (obj_set acc k v), r4)
                                  else None
                              | [] \<Rightarrow> None))
                  | [] \<Rightarrow> None))
      | [] \<Rightarrow> None)"

text \<open>\<open>JSON.parse(s)\<close>: one value, then only white space.\<close>

definition json_parse :: "string \<Rightarrow> jsval option" where
  "json_parse s =
    (case parse_value (2 * length s + 1) s of
       Some (v, r) \<Rightarrow> if skip_ws r = [] then Some v else None
     | None \<Rightarrow> None)"

section \<open>Evaluation\<close>

lemmas parse_numeral [js_simps] =
  parse_value.simps(2) [of "pred_numeral n" for n, unfolded numeral_eq_Suc [symmetric]]
  parse_elements.simps(2) [of "pred_numeral n" for n, unfolded numeral_eq_Suc [symmetric]]
  parse_members.simps(2) [of "pred_numeral n" for n, unfolded numeral_eq_Suc [symmetric]]

lemmas json_defs [js_simps] = json_parse_def is_json_ws_def json_number_prefix_def parse_json_number_def
  json_quote_def json_escape_char_def obj_set_def utf8_unit_def hex_lower_def

end
