(* ===== verification/Json_Laws.thy ===== *)
theory Json_Laws
  imports Json
begin

text \<open>
  Laws of \<open>JSON.stringify\<close> and \<open>JSON.parse\<close> (theory \<open>Json\<close>), the pair
  through which the watchlist is saved to and read back from \<open>localStorage\<close>
  (\<open>src/script.js\<close> lines 342 and 394). \<open>json_norm\<close> is what a value
  becomes in JSON: non-finite numbers, \<open>undefined\<close> and functions are
  \<open>null\<close> in arrays, properties with an \<open>undefined\<close> or function value are
  left out, and a key written twice keeps its first place and its last value.
  \<open>jeq\<close> is equality of JSON values with numbers compared by value (the text
  of \<open>1.50\<close> is \<open>1.5\<close>). The round trip is proved for every value with fuel
  above the length of its text, and the fuel bound of \<open>json_parse\<close> is shown
  never to change its result.
\<close>

section \<open>Normal forms\<close>

text \<open>What may follow a value's text in a larger text: a number's digits end there.\<close>

definition json_stop :: "string \<Rightarrow> bool" where
  "json_stop r = (case r of [] \<Rightarrow> True | c # _ \<Rightarrow> c \<in> set '',]}'')"

text \<open>The text of an array element or a property, as \<open>json_stringify\<close> writes them.\<close>

definition elem_text :: "jsval \<Rightarrow> string" where
  "elem_text x = (case json_stringify x of None \<Rightarrow> ''null'' | Some t \<Rightarrow> t)"

definition member_text :: "string \<times> jsval \<Rightarrow> string" where
  "member_text kv = json_quote (fst kv) @ '':'' @ elem_text (snd kv)"

fun json_norm :: "jsval \<Rightarrow> jsval"
and json_norm_list :: "jsval list \<Rightarrow> jsval list"
and json_norm_obj :: "(string \<times> jsval) list \<Rightarrow> (string \<times> jsval) list \<Rightarrow> (string \<times> jsval) list" where
  "json_norm JUndef = JNull"
| "json_norm (JFun _) = JNull"
| "json_norm (JNumber n) = (if js_finite n then JNumber n else JNull)"
| "json_norm (JArr xs) = JArr (json_norm_list xs)"
| "json_norm (JObj kvs) = JObj (json_norm_obj [] kvs)"
| "json_norm JNull = JNull"
| "json_norm (JBool b) = JBool b"
| "json_norm (JStr s) = JStr s"
| "json_norm_list [] = []"
| "json_norm_list (x # xs) = json_norm x # json_norm_list xs"
| "json_norm_obj acc [] = acc"
| "json_norm_obj acc (kv # kvs) =
     json_norm_obj (if json_stringify (snd kv) = None then acc else obj_set acc (fst kv) (json_norm (snd kv))) kvs"

fun jeq :: "jsval \<Rightarrow> jsval \<Rightarrow> bool"
and jeq_list :: "jsval list \<Rightarrow> jsval list \<Rightarrow> bool"
and jeq_obj :: "(string \<times> jsval) list \<Rightarrow> (string \<times> jsval) list \<Rightarrow> bool" where
  "jeq (JNumber a) (JNumber b) = (case num_val a of Some x \<Rightarrow> num_val b = Some x | None \<Rightarrow> a = b)"
| "jeq (JArr xs) (JArr ys) = jeq_list xs ys"
| "jeq (JObj a) (JObj b) = jeq_obj a b"
| "jeq x y = (x = y)"
| "jeq_list [] [] = True"
| "jeq_list (x # xs) (y # ys) = (jeq x y \<and> jeq_list xs ys)"
| "jeq_list _ _ = False"
| "jeq_obj [] [] = True"
| "jeq_obj (kv # xs) (lw # ys) = (fst kv = fst lw \<and> jeq (snd kv) (snd lw) \<and> jeq_obj xs ys)"
| "jeq_obj _ _ = False"

section \<open>Parsing what stringify writes\<close>

lemma hex_lower_val: "d < 16 \<Longrightarrow> hex_val (hex_lower d) = Some d"
proof -
  assume "d < 16"
  then have "d \<in> set [0..<16]" by simp
  then show ?thesis
    by (simp only: upt_conv_Cons, simp) (elim disjE; simp add: hex_val_def hex_lower_def is_digit_def digit_val_def)
qed


lemma radix_val_escape:
  assumes "code_of c < 32"
  shows "radix_val 16 0 [CHR ''0'', CHR ''0'', hex_lower (code_of c div 16), hex_lower (code_of c mod 16)] = Some (code_of c)"
proof -
  have a: "code_of c div 16 < 16" "code_of c mod 16 < 16" using assms by simp_all
  have z: "hex_val CHR ''0'' = Some 0" by (simp add: hex_val_def is_digit_def digit_val_def)
  show ?thesis using hex_lower_val [OF a(1)] hex_lower_val [OF a(2)] a z by simp
qed

lemma parse_chars_escaped:
  "parse_chars acc (concat (map json_escape_char s) @ CHR 0x22 # rest) = Some (acc @ s, rest)"
proof (induction s arbitrary: acc)
  case Nil
  then show ?case by simp
next
  case (Cons c s)
  show ?case
  proof (cases "c = CHR 0x22 \<or> c = CHR 0x5C \<or> c = CHR 0x08 \<or> c = CHR 0x0C \<or> c = CHR 0x0A \<or> c = CHR 0x0D \<or> c = CHR 0x09")
    case True
    then show ?thesis using Cons.IH by (elim disjE) (simp_all add: json_escape_char_def)
  next
    case False
    show ?thesis
    proof (cases "code_of c < 32")
      case True
      have r: "radix_val 16 0 [CHR ''0'', CHR ''0'', hex_lower (code_of c div 16), hex_lower (code_of c mod 16)] = Some (code_of c)"
        by (rule radix_val_escape [OF True])
      have u: "utf8_unit (code_of c) = [c]" using True by (simp add: utf8_unit_def)
      show ?thesis using False True r u Cons.IH [of "acc @ [c]"] by (simp add: json_escape_char_def)
    next
      case big: False
      then show ?thesis using False Cons.IH [of "acc @ [c]"] by (auto simp: json_escape_char_def)
    qed
  qed
qed

lemma jeq_list_iff: "jeq_list xs ys \<longleftrightarrow> list_all2 jeq xs ys"
  by (induction xs ys rule: list_induct2') simp_all

lemma jeq_obj_iff: "jeq_obj xs ys \<longleftrightarrow> list_all2 (\<lambda>kv lw. fst kv = fst lw \<and> jeq (snd kv) (snd lw)) xs ys"
  by (induction xs ys rule: list_induct2') simp_all

lemma jeq_obj_keys: "jeq_obj xs ys \<Longrightarrow> map fst xs = map fst ys"
  by (induction xs ys rule: list_induct2') simp_all

lemma jeq_obj_obj_set:
  assumes "jeq_obj xs ys" "jeq x y"
  shows "jeq_obj (obj_set xs k x) (obj_set ys k y)"
proof -
  have keys: "fst ` set xs = fst ` set ys" using jeq_obj_keys [OF assms(1)] by (metis set_map)
  have r: "list_all2 (\<lambda>kv lw. fst kv = fst lw \<and> jeq (snd kv) (snd lw)) xs ys" using assms(1) jeq_obj_iff by blast
  show ?thesis
  proof (cases "k \<in> fst ` set xs")
    case True
    have "list_all2 (\<lambda>kv lw. fst kv = fst lw \<and> jeq (snd kv) (snd lw))
            (map (\<lambda>(k', v'). if k' = k then (k', x) else (k', v')) xs) (map (\<lambda>(k', v'). if k' = k then (k', y) else (k', v')) ys)"
      using r assms(2) by (auto simp: list_all2_map1 list_all2_map2 split: prod.splits elim: list_all2_mono)
    then show ?thesis using True keys by (simp add: obj_set_def jeq_obj_iff)
  next
    case False
    then show ?thesis using keys r assms(2) by (simp add: obj_set_def jeq_obj_iff list_all2_appendI)
  qed
qed

lemma json_stop_chars:
  assumes "json_stop r"
  shows "takeWhile is_digit r = []" "take 1 r \<noteq> ''.''" "take 1 r \<notin> {''e'', ''E''}"
  using assms by (auto simp: json_stop_def is_digit_def split: list.splits)

lemma json_stop_punct [simp]: "json_stop (CHR '','' # r)" "json_stop (CHR '']'' # r)" "json_stop (CHR ''}'' # r)"
  by (simp_all add: json_stop_def)

lemma json_number_prefix_shape:
  assumes sg: "sg \<in> {[], ''-''}" and ip: "ip \<noteq> []" "list_all is_digit ip" and fp: "list_all is_digit fp"
    and t: "tail = [] \<or> (\<exists>sg x. sg \<in> {CHR ''+'', CHR ''-''} \<and> tail = CHR ''e'' # sg # nat_digits x)"
    and h: "hd ip \<noteq> CHR ''0'' \<or> ip = ''0''" and r: "json_stop rest"
  shows "json_number_prefix (sg @ ip @ (if fp = [] then [] else CHR ''.'' # fp) @ tail @ rest) =
         Some (length (sg @ ip @ (if fp = [] then [] else CHR ''.'' # fp) @ tail))"
proof -
  obtain c cs where c: "ip = c # cs" "is_digit c" using ip by (cases ip) auto
  have nm: "c \<noteq> CHR ''-''" using c by (auto simp: is_digit_def)
  have lz: "c = CHR ''0'' \<Longrightarrow> cs = []" using h c by auto
  have cs: "list_all is_digit cs" using ip c by simp
  have ne: "\<not> is_digit (CHR ''.'')" "\<not> is_digit (CHR ''e'')" by (simp_all add: is_digit_def)
  note rs = json_stop_chars [OF r]
  from t consider (nil) "tail = []" | (ex) s x where "s \<in> {CHR ''+'', CHR ''-''}" "tail = CHR ''e'' # s # nat_digits x"
    by blast
  then show ?thesis
  proof cases
    case nil
    show ?thesis using sg
    proof (elim insertE emptyE)
      assume "sg = []"
      then show ?thesis using nil c nm lz cs fp rs ne
        by (cases "fp = []") (auto simp: json_number_prefix_def Let_def)
    next
      assume "sg = ''-''"
      then show ?thesis using nil c nm lz cs fp rs ne
        by (cases "fp = []") (auto simp: json_number_prefix_def Let_def)
    qed
  next
    case ex
    have sd: "\<not> is_digit s" "s \<noteq> CHR ''e''" "s \<noteq> CHR ''E''" using ex(1) by (auto simp: is_digit_def)
    have xd: "nat_digits x \<noteq> []" "list_all is_digit (nat_digits x)" using nat_digits_props by auto
    show ?thesis using sg
    proof (elim insertE emptyE)
      assume "sg = []"
      then show ?thesis using ex c nm lz cs fp rs ne sd xd
        by (cases "fp = []") (auto simp: json_number_prefix_def Let_def)
    next
      assume "sg = ''-''"
      then show ?thesis using ex c nm lz cs fp rs ne sd xd
        by (cases "fp = []") (auto simp: json_number_prefix_def Let_def)
    qed
  qed
qed

lemma parse_json_number_num:
  assumes "json_stop rest"
  shows "\<exists>v. parse_json_number (num_to_string (Num m k) @ rest) = Some (JNumber v, rest) \<and> num_val v = Some (dec_val m k)"
proof -
  obtain sg ip fp tail where e: "num_to_string (Num m k) = sg @ ip @ (if fp = [] then [] else CHR ''.'' # fp) @ tail"
      and p: "sg \<in> {[], ''-''}" "ip \<noteq> []" "list_all is_digit ip" "list_all is_digit fp"
      and t: "tail = [] \<or> (\<exists>sg x. sg \<in> {CHR ''+'', CHR ''-''} \<and> tail = CHR ''e'' # sg # nat_digits x)"
      and h: "hd ip \<noteq> CHR ''0'' \<or> ip = ''0''"
    using num_to_string_json_shape [of m k] by blast
  have "json_number_prefix (num_to_string (Num m k) @ rest) = Some (length (num_to_string (Num m k)))"
    unfolding e using json_number_prefix_shape [OF p t h assms] by (simp only: append_assoc)
  then show ?thesis using scan_decimal_num_to_string [of m k] by (auto simp: parse_json_number_def)
qed

lemma elem_text_hd: "\<exists>c r. elem_text x = c # r \<and> \<not> is_json_ws c \<and> c \<noteq> CHR '']'' \<and> c \<noteq> CHR ''}''"
proof (cases x)
  case (JNumber n)
  show ?thesis
  proof (cases n)
    case (Num m k)
    obtain c r where "num_to_string (Num m k) = c # r" "c = CHR ''-'' \<or> is_digit c" using num_to_string_hd by blast
    then show ?thesis using JNumber Num by (auto simp: elem_text_def is_json_ws_def is_digit_def)
  qed (simp_all add: JNumber elem_text_def is_json_ws_def)
qed (simp_all add: elem_text_def is_json_ws_def json_quote_def)

lemma members_text:
  "concat (map (\<lambda>kv. case json_stringify (snd kv) of None \<Rightarrow> [] | Some t \<Rightarrow> [json_quote (fst kv) @ '':'' @ t]) kvs) =
   map member_text (filter (\<lambda>kv. json_stringify (snd kv) \<noteq> None) kvs)"
  by (induction kvs) (auto simp: member_text_def elem_text_def split: option.split)

lemma json_norm_obj_filter:
  "json_norm_obj acc (filter (\<lambda>kv. json_stringify (snd kv) \<noteq> None) kvs) = json_norm_obj acc kvs"
  by (induction kvs arbitrary: acc) auto

lemma join_with_Cons: "xs \<noteq> [] \<Longrightarrow> join_with s (x # xs) = x @ s @ join_with s xs"
  by (cases xs) auto

lemma parse_elements_text:
  assumes "\<And>x f rest. x \<in> set xs \<Longrightarrow> length (elem_text x) < f \<Longrightarrow> json_stop rest \<Longrightarrow>
             \<exists>v'. parse_value f (elem_text x @ rest) = Some (v', rest) \<and> jeq (json_norm x) v'"
    and "xs \<noteq> []" and "length (join_with '','' (map elem_text xs)) + 1 < g"
  shows "\<exists>vs. parse_elements g acc (join_with '','' (map elem_text xs) @ CHR '']'' # rest) = Some (JArr (acc @ vs), rest) \<and>
             jeq_list (json_norm_list xs) vs"
  using assms
proof (induction xs arbitrary: acc g)
  case Nil
  then show ?case by simp
next
  case (Cons x xs)
  obtain g' where g: "g = Suc g'" using Cons.prems(3) by (cases g) auto
  show ?case
  proof (cases "xs = []")
    case True
    obtain v' where v: "parse_value g' (elem_text x @ CHR '']'' # rest) = Some (v', CHR '']'' # rest)" "jeq (json_norm x) v'"
      using Cons.prems(1) [of x g' "CHR '']'' # rest"] Cons.prems(3) True g by auto
    show ?thesis using v True g by (simp add: is_json_ws_def)
  next
    case False
    let ?j = "join_with '','' (map elem_text xs)"
    have j: "join_with '','' (map elem_text (x # xs)) = elem_text x @ '','' @ ?j" using False by (simp add: join_with_Cons)
    obtain v' where v: "parse_value g' (elem_text x @ CHR '','' # ?j @ CHR '']'' # rest) = Some (v', CHR '','' # ?j @ CHR '']'' # rest)"
        "jeq (json_norm x) v'"
      using Cons.prems(1) [of x g' "CHR '','' # ?j @ CHR '']'' # rest"] Cons.prems(3) j g by auto
    have "\<exists>vs. parse_elements g' (acc @ [v']) (?j @ CHR '']'' # rest) = Some (JArr ((acc @ [v']) @ vs), rest) \<and>
             jeq_list (json_norm_list xs) vs"
      by (rule Cons.IH) (use Cons.prems False j g in auto)
    then obtain vs where vs: "parse_elements g' (acc @ [v']) (?j @ CHR '']'' # rest) = Some (JArr ((acc @ [v']) @ vs), rest)"
        "jeq_list (json_norm_list xs) vs" by blast
    show ?thesis using v vs j g by (intro exI [of _ "v' # vs"]) (simp add: is_json_ws_def)
  qed
qed

lemma member_text_Cons:
  "member_text kv @ r = CHR 0x22 # concat (map json_escape_char (fst kv)) @ CHR 0x22 # CHR '':'' # elem_text (snd kv) @ r"
  by (simp add: member_text_def json_quote_def)

lemma parse_members_text:
  assumes "\<And>kv f rest. kv \<in> set kvs \<Longrightarrow> length (elem_text (snd kv)) < f \<Longrightarrow> json_stop rest \<Longrightarrow>
             \<exists>v'. parse_value f (elem_text (snd kv) @ rest) = Some (v', rest) \<and> jeq (json_norm (snd kv)) v'"
    and "kvs \<noteq> []" and "list_all (\<lambda>kv. json_stringify (snd kv) \<noteq> None) kvs"
    and "length (join_with '','' (map member_text kvs)) + 1 < g" and "jeq_obj acc acc'"
  shows "\<exists>res. parse_members g acc' (join_with '','' (map member_text kvs) @ CHR ''}'' # rest) = Some (JObj res, rest) \<and>
             jeq_obj (json_norm_obj acc kvs) res"
  using assms
proof (induction kvs arbitrary: acc acc' g)
  case Nil
  then show ?case by simp
next
  case (Cons kv kvs)
  obtain g' where g: "g = Suc g'" using Cons.prems(4) by (cases g) auto
  have pc: "parse_chars [] (concat (map json_escape_char (fst kv)) @ CHR 0x22 # r) = Some (fst kv, r)" for r
    using parse_chars_escaped [of "[]" "fst kv" r] by simp
  have nrm: "json_norm_obj acc (kv # kvs) = json_norm_obj (obj_set acc (fst kv) (json_norm (snd kv))) kvs"
    using Cons.prems(3) by auto
  show ?case
  proof (cases "kvs = []")
    case True
    obtain v' where v: "parse_value g' (elem_text (snd kv) @ CHR ''}'' # rest) = Some (v', CHR ''}'' # rest)"
        "jeq (json_norm (snd kv)) v'"
      using Cons.prems(1) [of kv g' "CHR ''}'' # rest"] Cons.prems(4) True g by (auto simp: member_text_def)
    show ?thesis using v True g nrm pc jeq_obj_obj_set [OF Cons.prems(5) v(2)]
      by (simp add: member_text_Cons is_json_ws_def)
  next
    case False
    let ?j = "join_with '','' (map member_text kvs)"
    have j: "join_with '','' (map member_text (kv # kvs)) = member_text kv @ '','' @ ?j" using False by (simp add: join_with_Cons)
    have "length (member_text kv) < g'" using Cons.prems(4) g unfolding j by simp
    then have len: "length (elem_text (snd kv)) < g'" by (simp add: member_text_def)
    obtain v' where v: "parse_value g' (elem_text (snd kv) @ CHR '','' # ?j @ CHR ''}'' # rest) =
          Some (v', CHR '','' # ?j @ CHR ''}'' # rest)" "jeq (json_norm (snd kv)) v'"
      using Cons.prems(1) [of kv g' "CHR '','' # ?j @ CHR ''}'' # rest"] len by auto
    have "\<exists>res. parse_members g' (obj_set acc' (fst kv) v') (?j @ CHR ''}'' # rest) = Some (JObj res, rest) \<and>
             jeq_obj (json_norm_obj (obj_set acc (fst kv) (json_norm (snd kv))) kvs) res"
      by (rule Cons.IH) (use Cons.prems False j g jeq_obj_obj_set [OF Cons.prems(5) v(2)] in auto)
    then show ?thesis using v j g nrm pc by (simp add: member_text_Cons is_json_ws_def)
  qed
qed

lemma parse_value_elem_text:
  "length (elem_text x) < f \<Longrightarrow> json_stop rest \<Longrightarrow>
   \<exists>v'. parse_value f (elem_text x @ rest) = Some (v', rest) \<and> jeq (json_norm x) v'"
proof (induction x arbitrary: f rest)
  case (JNumber n)
  obtain f' where f: "f = Suc f'" using JNumber.prems(1) by (cases f) auto
  show ?case
  proof (cases n)
    case (Num m k)
    obtain c r where cr: "num_to_string (Num m k) = c # r" and c: "c = CHR ''-'' \<or> is_digit c"
      using num_to_string_hd by blast
    have cn: "\<not> is_json_ws c" "c \<noteq> CHR ''{''" "c \<noteq> CHR ''[''" "c \<noteq> CHR 0x22" "c \<noteq> CHR ''t''" "c \<noteq> CHR ''f''" "c \<noteq> CHR ''n''"
      using c by (auto simp: is_json_ws_def is_digit_def)
    obtain v where v: "parse_json_number (num_to_string (Num m k) @ rest) = Some (JNumber v, rest)"
        "num_val v = Some (dec_val m k)"
      using parse_json_number_num [OF JNumber.prems(2)] by blast
    have "parse_value f (elem_text (JNumber n) @ rest) = parse_json_number (num_to_string (Num m k) @ rest)"
      using f Num cr cn by (simp add: elem_text_def)
    then show ?thesis using v Num by simp
  qed (simp_all add: f elem_text_def is_json_ws_def)
next
  case (JStr s)
  obtain f' where f: "f = Suc f'" using JStr.prems(1) by (cases f) auto
  show ?case using parse_chars_escaped [of "[]" s rest]
    by (simp add: f elem_text_def json_quote_def is_json_ws_def)
next
  case (JArr xs)
  obtain f' where f: "f = Suc f'" using JArr.prems(1) by (cases f) auto
  show ?case
  proof (cases "xs = []")
    case True
    then show ?thesis by (simp add: f elem_text_def is_json_ws_def)
  next
    case False
    let ?j = "join_with '','' (map elem_text xs)"
    obtain x xs' where xs: "xs = x # xs'" using False by (cases xs) auto
    obtain c r where cr: "elem_text x = c # r" "\<not> is_json_ws c" "c \<noteq> CHR '']''" "c \<noteq> CHR ''}''"
      using elem_text_hd by blast
    have jc: "\<exists>r'. ?j = c # r'" using cr xs by (cases xs') auto
    have t: "elem_text (JArr xs) = CHR ''['' # ?j @ '']''"
      by (simp add: elem_text_def [of "JArr xs"] elem_text_def [abs_def, symmetric])
    obtain vs where vs: "parse_elements f' [] (?j @ CHR '']'' # rest) = Some (JArr ([] @ vs), rest)"
        "jeq_list (json_norm_list xs) vs"
      using parse_elements_text [OF JArr.IH False, of f' "[]" rest] JArr.prems(1) f t by auto
    have "parse_value f (elem_text (JArr xs) @ rest) = parse_elements f' [] (?j @ CHR '']'' # rest)"
      using jc cr f t by (auto simp: is_json_ws_def)
    then show ?thesis using vs by simp
  qed
next
  case (JObj kvs)
  obtain f' where f: "f = Suc f'" using JObj.prems(1) by (cases f) auto
  let ?ys = "filter (\<lambda>kv. json_stringify (snd kv) \<noteq> None) kvs"
  let ?j = "join_with '','' (map member_text ?ys)"
  have t: "elem_text (JObj kvs) = CHR ''{'' # ?j @ ''}''" by (simp add: elem_text_def members_text)
  have n: "json_norm (JObj kvs) = JObj (json_norm_obj [] ?ys)" using json_norm_obj_filter [of "[]" kvs] by simp
  show ?case
  proof (cases "?ys = []")
    case True
    then show ?thesis using t n by (simp add: f is_json_ws_def)
  next
    case False
    obtain y ys' where ys: "?ys = y # ys'" using False by (cases ?ys) auto
    have jc: "\<exists>r'. ?j = CHR 0x22 # r'" using ys by (cases ys') (auto simp: member_text_def json_quote_def)
    have ih: "\<exists>v'. parse_value f (elem_text (snd kv) @ rest) = Some (v', rest) \<and> jeq (json_norm (snd kv)) v'"
      if "kv \<in> set ?ys" "length (elem_text (snd kv)) < f" "json_stop rest" for kv f rest
      using JObj.IH [of kv "snd kv"] that by (cases kv) auto
    have all: "list_all (\<lambda>kv. json_stringify (snd kv) \<noteq> None) ?ys" by (simp add: list_all_iff)
    obtain res where res: "parse_members f' [] (?j @ CHR ''}'' # rest) = Some (JObj res, rest)"
        "jeq_obj (json_norm_obj [] ?ys) res"
      using parse_members_text [OF ih False all, of f' "[]" "[]" rest] JObj.prems(1) f t by auto
    have "parse_value f (elem_text (JObj kvs) @ rest) = parse_members f' [] (?j @ CHR ''}'' # rest)"
      using jc f t by (auto simp: is_json_ws_def)
    then show ?thesis using res n by simp
  qed
qed (auto simp: elem_text_def is_json_ws_def less_iff_Suc_add)

section \<open>Fuel\<close>

lemma parse_chars_shorter: "parse_chars acc s = Some (k, r) \<Longrightarrow> length r < length s"
proof (induction s arbitrary: acc rule: length_induct)
  case (1 s)
  obtain c r' where s: "s = c # r'" using "1.prems" by (cases s) auto
  have ih: "parse_chars a t = Some (k, r) \<Longrightarrow> length t < length s \<Longrightarrow> length r < length s" for a t
    using "1.IH" by fastforce
  have p: "parse_chars acc (c # r') = Some (k, r)" using "1.prems" s by simp
  have l: "length r' < length s" "length (drop 4 r') < length s" "length (tl r') < length s"
      "length (drop 4 (tl r')) < length s" using s by auto
  show ?case using p l unfolding parse_chars.simps(2) [of acc c r']
    by (auto simp del: parse_chars.simps split: if_splits list.splits option.splits dest!: ih)
qed

lemma parse_json_number_shorter: "parse_json_number s = Some (v, r) \<Longrightarrow> length r < length s"
proof -
  assume h: "parse_json_number s = Some (v, r)"
  then obtain n w where n: "json_number_prefix s = Some n" "scan_decimal (take n s) = Some (w, [])" "r = drop n s"
    by (auto simp: parse_json_number_def split: option.splits prod.splits list.splits)
  have "scan_decimal [] = None" by (simp add: scan_decimal_def)
  then have "take n s \<noteq> []" using n(2) by (metis option.distinct(1))
  then show ?thesis using n(3) by auto
qed

lemma skip_ws_shorter: "skip_ws s = c # r \<Longrightarrow> length r < length s"
proof -
  assume "skip_ws s = c # r"
  moreover have "length (skip_ws s) \<le> length s" by (rule length_dropWhile_le)
  ultimately show ?thesis by simp
qed

lemma skip_ws_le: "length (skip_ws s) \<le> length s"
  by (rule length_dropWhile_le)

lemmas parse_simps_del = parse_value.simps parse_elements.simps parse_members.simps dropWhile_eq_Nil_conv

lemma parse_rest_shorter_all:
  "(parse_value f s = Some (v, r) \<longrightarrow> length r < length s) \<and>
   (parse_elements f acc s = Some (v, r) \<longrightarrow> length r < length s) \<and>
   (parse_members f kvs s = Some (v, r) \<longrightarrow> length r < length s)"
proof (induction f arbitrary: s v r acc kvs)
  case 0
  show ?case by simp
next
  case (Suc f)
  have pv: "parse_value f t = Some (w, q) \<Longrightarrow> length q < length t" for t w q using Suc.IH by blast
  have pe: "parse_elements f a t = Some (w, q) \<Longrightarrow> length q < length t" for a t w q using Suc.IH by blast
  have pm: "parse_members f a t = Some (w, q) \<Longrightarrow> length q < length t" for a t w q using Suc.IH by blast
  have sv: "parse_value (Suc f) s = Some (v, r) \<Longrightarrow> length r < length s"
    using skip_ws_le [of s]
    by (auto simp del: parse_simps_del simp: parse_value.simps(2) split: if_splits list.splits option.splits
        dest!: pv pe pm parse_chars_shorter parse_json_number_shorter skip_ws_shorter)
  have se: "parse_elements (Suc f) acc s = Some (v, r) \<Longrightarrow> length r < length s"
    by (auto simp del: parse_simps_del simp: parse_elements.simps(2) split: if_splits list.splits option.splits
        dest!: pv pe skip_ws_shorter)
  have sm: "parse_members (Suc f) kvs s = Some (v, r) \<Longrightarrow> length r < length s"
    by (auto simp del: parse_simps_del simp: parse_members.simps(2) split: if_splits list.splits option.splits
        dest!: pv pm parse_chars_shorter skip_ws_shorter)
  show ?case using sv se sm by blast
qed

lemma parse_value_shorter: "parse_value f s = Some (v, r) \<Longrightarrow> length r < length s"
  using parse_rest_shorter_all by blast

lemma parse_fuel_stable_all:
  "(2 * length s < f \<longrightarrow> parse_value (Suc f) s = parse_value f s) \<and>
   (2 * length s + 1 < f \<longrightarrow> parse_elements (Suc f) acc s = parse_elements f acc s) \<and>
   (2 * length s + 1 < f \<longrightarrow> parse_members (Suc f) kvs s = parse_members f kvs s)"
proof (induction f arbitrary: s acc kvs)
  case 0
  show ?case by simp
next
  case (Suc f)
  have pv: "2 * length t < f \<Longrightarrow> parse_value (Suc f) t = parse_value f t" for t using Suc.IH by blast
  have pe: "2 * length t + 1 < f \<Longrightarrow> parse_elements (Suc f) a t = parse_elements f a t" for a t using Suc.IH by blast
  have pm: "2 * length t + 1 < f \<Longrightarrow> parse_members (Suc f) a t = parse_members f a t" for a t using Suc.IH by blast
  have sv: "parse_value (Suc (Suc f)) s = parse_value (Suc f) s" if c: "2 * length s < Suc f"
  proof (cases "skip_ws s")
    case (Cons c0 r0)
    have l: "length r0 < length s" using Cons by (rule skip_ws_shorter)
    have "parse_members (Suc f) [] r0 = parse_members f [] r0" by (rule pm) (use l c in linarith)
    moreover have "parse_elements (Suc f) [] r0 = parse_elements f [] r0" by (rule pe) (use l c in linarith)
    ultimately show ?thesis using Cons by (simp del: parse_simps_del add: parse_value.simps(2) cong: list.case_cong option.case_cong if_cong)
  qed (simp del: parse_simps_del add: parse_value.simps(2) cong: list.case_cong option.case_cong if_cong)
  have se: "parse_elements (Suc (Suc f)) acc s = parse_elements (Suc f) acc s" if c: "2 * length s + 1 < Suc f"
  proof -
    have e1: "parse_value (Suc f) s = parse_value f s" by (rule pv) (use c in linarith)
    show ?thesis
    proof (cases "parse_value f s")
      case None
      then show ?thesis using e1 by (simp del: parse_simps_del add: parse_elements.simps(2) cong: list.case_cong option.case_cong if_cong)
    next
      case (Some a)
      obtain v0 r1 where a: "a = (v0, r1)" by fastforce
      have l1: "length r1 < length s" using Some a parse_value_shorter by blast
      show ?thesis
      proof (cases "skip_ws r1")
        case Nil
        then show ?thesis using e1 Some a by (simp del: parse_simps_del add: parse_elements.simps(2) cong: list.case_cong option.case_cong if_cong)
      next
        case (Cons d r')
        have "length r' < length r1" using Cons by (rule skip_ws_shorter)
        then have "parse_elements (Suc f) (acc @ [v0]) r' = parse_elements f (acc @ [v0]) r'"
          by (intro pe) (use c l1 in linarith)
        then show ?thesis using e1 Some a Cons by (simp del: parse_simps_del add: parse_elements.simps(2) cong: list.case_cong option.case_cong if_cong)
      qed
    qed
  qed
  have sm: "parse_members (Suc (Suc f)) kvs s = parse_members (Suc f) kvs s" if c: "2 * length s + 1 < Suc f"
  proof (cases "skip_ws s")
    case Nil
    then show ?thesis by (simp del: parse_simps_del add: parse_members.simps(2) cong: list.case_cong option.case_cong if_cong)
  next
    case (Cons c0 r0)
    have l0: "length r0 < length s" using Cons by (rule skip_ws_shorter)
    show ?thesis
    proof (cases "parse_chars [] r0")
      case None
      then show ?thesis using Cons by (simp del: parse_simps_del add: parse_members.simps(2) cong: list.case_cong option.case_cong if_cong)
    next
      case (Some b)
      obtain k r1 where b: "b = (k, r1)" by fastforce
      have l1: "length r1 < length r0" using Some b parse_chars_shorter by blast
      show ?thesis
      proof (cases "skip_ws r1")
        case Nil
        then show ?thesis using Cons Some b by (simp del: parse_simps_del add: parse_members.simps(2) cong: list.case_cong option.case_cong if_cong)
      next
        case c2: (Cons d r2)
        have l2: "length r2 < length r1" using c2 by (rule skip_ws_shorter)
        have e1: "parse_value (Suc f) r2 = parse_value f r2" by (rule pv) (use c l0 l1 l2 in linarith)
        show ?thesis
        proof (cases "parse_value f r2")
          case None
          then show ?thesis using Cons Some b c2 e1 by (simp del: parse_simps_del add: parse_members.simps(2) cong: list.case_cong option.case_cong if_cong)
        next
          case s3: (Some a)
          obtain v' r3 where a: "a = (v', r3)" by fastforce
          have l3: "length r3 < length r2" using s3 a parse_value_shorter by blast
          show ?thesis
          proof (cases "skip_ws r3")
            case Nil
            then show ?thesis using Cons Some b c2 e1 s3 a by (simp del: parse_simps_del add: parse_members.simps(2) cong: list.case_cong option.case_cong if_cong)
          next
            case c4: (Cons e r4)
            have "length r4 < length r3" using c4 by (rule skip_ws_shorter)
            then have "parse_members (Suc f) (obj_set kvs k v') r4 = parse_members f (obj_set kvs k v') r4"
              by (intro pm) (use c l0 l1 l2 l3 in linarith)
            then show ?thesis using Cons Some b c2 e1 s3 a c4
              by (simp del: parse_simps_del add: parse_members.simps(2) cong: list.case_cong option.case_cong if_cong)
          qed
        qed
      qed
    qed
  qed
  show ?case using sv se sm by blast
qed

lemma parse_value_fuel_mono:
  assumes "2 * length s < f" and "f \<le> f'"
  shows "parse_value f' s = parse_value f s"
  using assms(2)
proof (induction rule: dec_induct)
  case (step n)
  have "parse_value (Suc n) s = parse_value n s" using parse_fuel_stable_all [of s n] assms(1) step.hyps(1) by simp
  then show ?case using step.IH by simp
qed simp

lemma json_stringify_Some_parse:
  assumes "json_stringify v = Some t"
  shows "\<exists>v'. json_parse t = Some v' \<and> jeq (json_norm v) v'"
proof -
  have e: "elem_text v = t" using assms by (simp add: elem_text_def)
  have "length t < 2 * length t + 1" by simp
  then obtain v' where "parse_value (2 * length t + 1) (t @ []) = Some (v', [])" "jeq (json_norm v) v'"
    using parse_value_elem_text [of v "2 * length t + 1" "[]"] e by (auto simp: json_stop_def)
  then show ?thesis by (simp add: json_parse_def)
qed

section \<open>Round trip\<close>

text \<open>
  \<open>JSON.parse\<close> reads back what \<open>JSON.stringify\<close> writes, up to what JSON
  cannot carry: numbers come back with their value, non-finite numbers as
  \<open>null\<close>, \<open>undefined\<close> and functions as \<open>null\<close> in arrays and left out of
  objects. Only \<open>undefined\<close> and functions have no JSON text.
\<close>

theorem json_parse_stringify:
  "(case json_stringify v of
      None \<Rightarrow> v = JUndef \<or> (\<exists>f. v = JFun f)
    | Some t \<Rightarrow> \<exists>v'. json_parse t = Some v' \<and> jeq (json_norm v) v')"
  by (cases "json_stringify v") (auto simp: json_stringify_Some_parse elim: json_stringify.elims)

text \<open>
  The fuel of \<open>json_parse\<close> is enough: every call in a chain of parser
  calls consumes input, so from \<open>2 * length s + 1\<close> on, more fuel never changes
  what \<open>parse_value\<close> returns. \<open>json_parse\<close> is therefore the parse of the
  unbounded recursive-descent parser, and its \<open>None\<close> is a syntax error, never a
  lack of fuel.
\<close>

theorem json_parse_fuel_enough:
  "2 * length s < f \<Longrightarrow> parse_value f s = parse_value (2 * length s + 1) s"
  using parse_value_fuel_mono [of s "2 * length s + 1" f] by simp

end
