(* ===== verification/Watchlist.thy ===== *)
theory Watchlist
  imports Json_Laws Normalizer
begin

text \<open>
  The watchlist store of \<open>src/script.js\<close>: \<open>loadWatchlistFromStorage\<close> (lines 390-402)
  and \<open>addToWatchlist\<close> (lines 317-346), the toggle run by a row's star button
  (line 530). The store's state is the field \<open>this.watchlist\<close>, which holds whatever
  \<open>JSON.parse\<close> produced from storage (any JSON value, not only an array), the
  browser's \<open>localStorage\<close> as a map from keys to strings, and the notifications
  shown so far as (message, type) pairs. The toggle's call of
  \<open>updateWatchlistButton\<close> comes before the watchlist is saved and throws
  \<open>SyntaxError\<close> when the selector it builds from the product name is invalid;
  the buttons it restyles are rows of the table (theory \<open>App\<close>).
  \<open>updateWatchlistDisplay\<close> is a \<open>console.log\<close> and changes no state.
\<close>

section \<open>State\<close>

record wl_state =
  watchlist :: jsval
  storage :: "string \<Rightarrow> string option"
  notifications :: "(string \<times> string) list"

definition watchlist_key :: string where
  "watchlist_key = ''commodityWatchlist''"

text \<open>A row as the object literal of lines 116-124, in its property order.\<close>

definition item_props :: "item \<Rightarrow> (string \<times> jsval) list" where
  "item_props it =
     [(''productName'', JStr (productName it)), (''price'', JNumber (price it)),
      (''currency'', JStr (currency it)), (''location'', location it), (''date'', JStr (date it)),
      (''source'', JStr (source it)), (''usdPrice'', JNumber (usdPrice it))]"

section \<open>Loading\<close>

text \<open>
  \<open>loadWatchlistFromStorage()\<close>: a missing or empty entry and text that
  \<open>JSON.parse\<close> rejects give \<open>[]\<close>; any other text gives the parsed value.
\<close>

definition load_watchlist :: "(string \<Rightarrow> string option) \<Rightarrow> jsval" where
  "load_watchlist stg =
    (case stg watchlist_key of
       None \<Rightarrow> JArr []
     | Some s \<Rightarrow> if s = [] then JArr [] else (case json_parse s of Some v \<Rightarrow> v | None \<Rightarrow> JArr []))"

section \<open>Toggle\<close>

text \<open>
  \<open>this.watchlist.findIndex(w => w.productName === item.productName)\<close> on an array:
  reading \<open>productName\<close> of a \<open>null\<close> entry throws; a string equals only the
  same string.
\<close>

fun find_index_name :: "string \<Rightarrow> jsval list \<Rightarrow> error + nat option" where
  "find_index_name n [] = Inr None"
| "find_index_name n (w # ws) =
     (case get_prop_strict w ''productName'' of
        Inl e \<Rightarrow> Inl e
      | Inr v \<Rightarrow> if v = JStr n then Inr (Some 0)
                 else (case find_index_name n ws of Inl e \<Rightarrow> Inl e | Inr r \<Rightarrow> Inr (map_option Suc r)))"

text \<open>\<open>splice(i, 1)\<close> at an index the search returned.\<close>

definition splice_one :: "nat \<Rightarrow> 'a list \<Rightarrow> 'a list" where
  "splice_one i xs = take i xs @ drop (Suc i) xs"

text \<open>
  \<open>localStorage.setItem(key, JSON.stringify(this.watchlist))\<close>; \<open>setItem\<close> stores
  the string \<open>"undefined"\<close> when the stringification is \<open>undefined\<close>.
\<close>

definition persist :: "wl_state \<Rightarrow> wl_state" where
  "persist st =
     st\<lparr>storage := (storage st)(watchlist_key \<mapsto>
        (case json_stringify (watchlist st) of Some t \<Rightarrow> t | None \<Rightarrow> ''undefined''))\<rparr>"

definition notify :: "string \<Rightarrow> string \<Rightarrow> wl_state \<Rightarrow> wl_state" where
  "notify msg ty st = st\<lparr>notifications := notifications st @ [(msg, ty)]\<rparr>"

text \<open>
  \<open>updateWatchlistButton(name, b)\<close> (lines 348-363) starts with
  \<open>document.querySelectorAll(`[data-commodity="${name}"]`)\<close>. Whether a selector
  parses is the host's CSS parser, the parameter \<open>sel\<close> of the handlers; a
  selector it rejects makes the call throw \<open>SyntaxError\<close> (the DOMException of
  \<open>querySelectorAll\<close>). Any name with a double quote and no backslash, for one,
  ends the string early and leaves a stray quote.
\<close>

type_synonym selector_check = "string \<Rightarrow> bool"

definition watch_selector :: "string \<Rightarrow> string" where
  "watch_selector n = ''[data-commodity='' @ CHR 0x22 # n @ [CHR 0x22, CHR '']'']"

text \<open>
  The end of both branches of \<open>addToWatchlist\<close>: \<open>updateWatchlistButton\<close>, then
  \<open>localStorage.setItem\<close>; a throw in the first skips the second.
\<close>

definition save_after_button :: "selector_check \<Rightarrow> string \<Rightarrow> wl_state \<Rightarrow> wl_state \<times> error option" where
  "save_after_button sel n st = (if sel (watch_selector n) then (persist st, None) else (st, Some SyntaxError))"

text \<open>
  \<open>addToWatchlist(item)\<close> at clock value \<open>now\<close> (the milliseconds of \<open>new Date()\<close>,
  whose \<open>toISOString\<close> gives the \<open>addedAt\<close> stamp). A falsy watchlist becomes
  \<open>[]\<close> first; a truthy one that is not an array has no \<open>findIndex\<close> method, and
  calling it throws \<open>TypeError\<close> before anything is changed. The result is the
  state when the handler returns or throws, and the exception it lets escape.
\<close>

definition add_to_watchlist :: "selector_check \<Rightarrow> int \<Rightarrow> item \<Rightarrow> wl_state \<Rightarrow> wl_state \<times> error option" where
  "add_to_watchlist sel now it st =
    (let wl = (if js_truthy (watchlist st) then watchlist st else JArr []) in
     case wl of
       JArr ws \<Rightarrow>
         (case find_index_name (productName it) ws of
            Inl e \<Rightarrow> (st, Some e)
          | Inr (Some i) \<Rightarrow>
              save_after_button sel (productName it) (notify (productName it @ '' removed from watchlist'') ''info''
                (st\<lparr>watchlist := JArr (splice_one i ws)\<rparr>))
          | Inr None \<Rightarrow>
              save_after_button sel (productName it) (notify (productName it @ '' added to watchlist!'') ''success''
                (st\<lparr>watchlist := JArr (ws @ [JObj (item_props it @ [(''addedAt'', JStr (iso_date now @ iso_time now))])])\<rparr>)))
     | _ \<Rightarrow> (st, Some TypeError))"

text \<open>
  The store's invariant: the watchlist is falsy (it is reset to \<open>[]\<close> on the next
  toggle) or an array of objects whose \<open>productName\<close> values are pairwise distinct,
  the uniqueness key of the spec's \<open>WatchlistEntry\<close>.
\<close>

definition is_obj :: "jsval \<Rightarrow> bool" where
  "is_obj w = (case w of JObj _ \<Rightarrow> True | _ \<Rightarrow> False)"

definition wl_ok :: "jsval \<Rightarrow> bool" where
  "wl_ok v =
    (if js_truthy v then (case v of JArr ws \<Rightarrow> list_all is_obj ws \<and> distinct (map (\<lambda>w. get_prop w ''productName'') ws) | _ \<Rightarrow> False)
     else True)"

text \<open>The store after the start-up read: \<open>init()\<close> calls \<open>loadWatchlistFromStorage\<close>.\<close>

definition wl_init :: "(string \<Rightarrow> string option) \<Rightarrow> wl_state" where
  "wl_init stg = \<lparr>watchlist = load_watchlist stg, storage = stg, notifications = []\<rparr>"

section \<open>Lemmas\<close>

lemma get_prop_strict_Inr_iff:
  "get_prop_strict w k = Inr v \<longleftrightarrow> w \<noteq> JUndef \<and> w \<noteq> JNull \<and> v = get_prop w k"
  by (cases w) auto

lemma get_prop_strict_Inl_iff:
  "get_prop_strict w k = Inl e \<longleftrightarrow> (w = JUndef \<or> w = JNull) \<and> e = TypeError"
  by (cases w) auto

lemma map_option_add_0 [simp]: "map_option ((+) (0::nat)) x = x"
  by (cases x) auto

lemma map_option_Suc_add [simp]: "map_option (\<lambda>x. Suc (k + x)) y = map_option ((+) (Suc k)) y"
  by (cases y) auto

lemma find_index_name_None_iff:
  "find_index_name n ws = Inr None \<longleftrightarrow>
     (\<forall>w\<in>set ws. w \<noteq> JUndef \<and> w \<noteq> JNull \<and> get_prop w ''productName'' \<noteq> JStr n)"
  by (induction ws) (auto simp: get_prop_strict_Inr_iff get_prop_strict_Inl_iff split: sum.splits)

lemma find_index_name_append:
  "find_index_name n ws = Inr None \<Longrightarrow>
   find_index_name n (ws @ ys) = (case find_index_name n ys of Inl e \<Rightarrow> Inl e | Inr r \<Rightarrow> Inr (map_option (\<lambda>j. length ws + j) r))"
  by (induction ws) (auto simp: option.map_comp comp_def split: sum.splits if_splits)

lemma find_index_name_SomeD:
  "find_index_name n ws = Inr (Some i) \<Longrightarrow>
   i < length ws \<and> get_prop (ws ! i) ''productName'' = JStr n \<and> find_index_name n (take i ws) = Inr None"
proof (induction ws arbitrary: i)
  case Nil then show ?case by simp
next
  case (Cons w ws)
  then show ?case
    by (cases i) (auto simp: get_prop_strict_Inr_iff get_prop_strict_Inl_iff split: sum.splits if_splits)
qed

text \<open>On an array of objects the search never throws.\<close>

lemma find_index_name_objs:
  "list_all is_obj ws \<Longrightarrow> \<exists>r. find_index_name n ws = Inr r"
  by (induction ws) (auto simp: is_obj_def split: jsval.splits sum.splits)

lemma splice_one_append [simp]: "splice_one (length xs) (xs @ [y]) = xs"
  by (simp add: splice_one_def)

lemma map_splice_one: "map f (splice_one i xs) = splice_one i (map f xs)"
  by (simp add: splice_one_def take_map drop_map)

lemma set_splice_one: "set (splice_one i xs) \<subseteq> set xs"
  by (auto simp: splice_one_def dest: in_set_takeD in_set_dropD)

lemma distinct_splice_one:
  assumes "distinct xs" shows "distinct (splice_one i xs)"
proof -
  have "set (take i xs) \<inter> set (drop (Suc i) xs) = {}"
    using assms by (simp add: set_take_disj_set_drop_if_distinct)
  then show ?thesis using assms by (simp add: splice_one_def)
qed

lemma find_index_name_entry [simp]:
  "find_index_name (productName it) [JObj (item_props it @ kvs)] = Inr (Some 0)"
  by (simp add: item_props_def)

lemma entry_name [simp]:
  "get_prop (JObj (item_props it @ kvs)) ''productName'' = JStr (productName it)"
  by (simp add: item_props_def)

lemma storage_persist:
  "storage (persist st) watchlist_key = Some (case json_stringify (watchlist st) of Some t \<Rightarrow> t | None \<Rightarrow> ''undefined'')"
  by (simp add: persist_def)

lemma persist_fields [simp]:
  "watchlist (persist st) = watchlist st" "notifications (persist st) = notifications st"
  by (simp_all add: persist_def)

lemma notify_fields [simp]:
  "watchlist (notify m t st) = watchlist st" "storage (notify m t st) = storage st"
  by (simp_all add: notify_def)

lemma wl_ok_JArr [simp]:
  "wl_ok (JArr ws) \<longleftrightarrow> list_all is_obj ws \<and> distinct (map (\<lambda>w. get_prop w ''productName'') ws)"
  by (simp add: wl_ok_def)

lemma add_to_watchlist_arr:
  assumes "watchlist st = JArr ws \<or> (\<not> js_truthy (watchlist st) \<and> ws = [])"
  shows "add_to_watchlist sel now it st =
    (case find_index_name (productName it) ws of
       Inl e \<Rightarrow> (st, Some e)
     | Inr (Some i) \<Rightarrow>
         save_after_button sel (productName it) (notify (productName it @ '' removed from watchlist'') ''info''
           (st\<lparr>watchlist := JArr (splice_one i ws)\<rparr>))
     | Inr None \<Rightarrow>
         save_after_button sel (productName it) (notify (productName it @ '' added to watchlist!'') ''success''
           (st\<lparr>watchlist := JArr (ws @ [JObj (item_props it @ [(''addedAt'', JStr (iso_date now @ iso_time now))])])\<rparr>)))"
  using assms by (auto simp: add_to_watchlist_def)

lemma save_after_button_ok [simp]: "sel (watch_selector n) \<Longrightarrow> save_after_button sel n st = (persist st, None)"
  by (simp add: save_after_button_def)

lemma save_after_button_bad [simp]: "\<not> sel (watch_selector n) \<Longrightarrow> save_after_button sel n st = (st, Some SyntaxError)"
  by (simp add: save_after_button_def)

lemma add_to_watchlist_persists:
  "add_to_watchlist sel now it st = (st', None) \<Longrightarrow> \<exists>x ws. st' = persist x \<and> watchlist x = JArr ws"
  by (auto simp: add_to_watchlist_def save_after_button_def Let_def
           split: jsval.splits sum.splits option.splits if_splits)

lemma persist_reload:
  assumes "watchlist x = JArr ws"
  shows "jeq (json_norm (watchlist (persist x))) (watchlist (wl_init (storage (persist x))))"
proof -
  obtain t where t: "json_stringify (JArr ws) = Some t" and ne: "t \<noteq> []" by simp
  obtain v' where "json_parse t = Some v'" "jeq (json_norm (JArr ws)) v'"
    using json_stringify_Some_parse [OF t] by blast
  then show ?thesis using assms t ne by (simp add: wl_init_def load_watchlist_def storage_persist)
qed

text \<open>From the invariant, the search finds the entry or not, and never throws.\<close>

lemma wl_ok_cases:
  assumes "wl_ok (watchlist st)"
  obtains ws where "watchlist st = JArr ws \<or> (\<not> js_truthy (watchlist st) \<and> ws = [])"
    and "list_all is_obj ws" "distinct (map (\<lambda>w. get_prop w ''productName'') ws)"
proof (cases "js_truthy (watchlist st)")
  case False
  then show ?thesis using that [of "[]"] by simp
next
  case True
  then show ?thesis using assms that by (auto simp: wl_ok_def split: jsval.splits)
qed

section \<open>Properties of the store\<close>

text \<open>
  C11. Toggling an item that is not in the watchlist twice restores the watchlist
  (spec property 5): the first toggle appends the entry and the second removes it,
  the stored text is again the JSON of the original array, and the two
  notifications "added" then "removed" have been shown. This needs the selector
  built from the product name to be valid.
\<close>

lemma toggle_twice_absent:
  assumes "watchlist st = JArr ws" and "find_index_name (productName it) ws = Inr None"
    and "sel (watch_selector (productName it))"
  shows "(case add_to_watchlist sel now it st of (st1, None) \<Rightarrow> add_to_watchlist sel now' it st1 | r \<Rightarrow> r) =
         (persist (notify (productName it @ '' removed from watchlist'') ''info''
            (notify (productName it @ '' added to watchlist!'') ''success'' st)), None)"
  using assms by (simp add: add_to_watchlist_def find_index_name_append persist_def notify_def del: find_index_name.simps)

lemma toggle_twice_absent_witness:
  "(case add_to_watchlist (\<lambda>_. True) 0 \<lparr>productName = ''Corn'', price = Num 6975 2, currency = ''GHS'', location = JStr ''Chicago, Illinois'',
      date = ''2023-11-14'', source = ''API Ninjas'', usdPrice = Num 45 1\<rparr> (wl_init Map.empty) of
      (st1, None) \<Rightarrow> add_to_watchlist (\<lambda>_. True) 60000 \<lparr>productName = ''Corn'', price = Num 6975 2, currency = ''GHS'', location = JStr ''Chicago, Illinois'',
      date = ''2023-11-14'', source = ''API Ninjas'', usdPrice = Num 45 1\<rparr> st1 | r \<Rightarrow> r) =
   (persist (notify (''Corn removed from watchlist'') ''info''
         (notify (''Corn added to watchlist!'') ''success'' (wl_init Map.empty))), None)"
  by (rule trans [OF toggle_twice_absent [where ws = "[]"]]) (simp_all add: wl_init_def load_watchlist_def)

text \<open>
  C12. Toggling an item that is in the watchlist twice does not restore it: the
  entry found is removed, and the second toggle appends a fresh snapshot of the row
  with a new \<open>addedAt\<close> at the end of the array, contrary to spec property 5.
\<close>

lemma toggle_twice_present:
  assumes "watchlist st = JArr ws" and "find_index_name (productName it) ws = Inr (Some i)"
    and "find_index_name (productName it) (splice_one i ws) = Inr None"
    and "sel (watch_selector (productName it))"
  shows "(case add_to_watchlist sel now it st of (st1, None) \<Rightarrow> add_to_watchlist sel now' it st1 | r \<Rightarrow> r) =
         (persist (notify (productName it @ '' added to watchlist!'') ''success''
            (notify (productName it @ '' removed from watchlist'') ''info''
              (st\<lparr>watchlist := JArr (splice_one i ws @ [JObj (item_props it @ [(''addedAt'', JStr (iso_date now' @ iso_time now'))])])\<rparr>))), None)"
  using assms by (simp add: add_to_watchlist_arr persist_def notify_def)

lemma toggle_twice_present_witness:
  "(case add_to_watchlist (\<lambda>_. True) 0 \<lparr>productName = ''Corn'', price = Num 6975 2, currency = ''GHS'', location = JStr ''Chicago, Illinois'',
      date = ''2023-11-14'', source = ''API Ninjas'', usdPrice = Num 45 1\<rparr>
         \<lparr>watchlist = JArr [JObj [(''productName'', JStr ''Corn''), (''addedAt'', JStr ''2023-01-01T00:00:00.000Z'')]],
          storage = Map.empty, notifications = []\<rparr> of
      (st1, None) \<Rightarrow> add_to_watchlist (\<lambda>_. True) 0 \<lparr>productName = ''Corn'', price = Num 6975 2, currency = ''GHS'', location = JStr ''Chicago, Illinois'',
      date = ''2023-11-14'', source = ''API Ninjas'', usdPrice = Num 45 1\<rparr> st1 | r \<Rightarrow> r) =
   (persist (notify ''Corn added to watchlist!'' ''success'' (notify ''Corn removed from watchlist'' ''info''
     \<lparr>watchlist = JArr [JObj (item_props \<lparr>productName = ''Corn'', price = Num 6975 2, currency = ''GHS'', location = JStr ''Chicago, Illinois'',
      date = ''2023-11-14'', source = ''API Ninjas'', usdPrice = Num 45 1\<rparr> @ [(''addedAt'', JStr (iso_date 0 @ iso_time 0))])],
      storage = Map.empty, notifications = []\<rparr>)), None)"
  by (rule trans [OF toggle_twice_present [where ws = "[JObj [(''productName'', JStr ''Corn''), (''addedAt'', JStr ''2023-01-01T00:00:00.000Z'')]]" and i = 0]])
    (simp_all add: splice_one_def)

text \<open>
  C13. A stored watchlist that parses to a truthy non-array value (for instance the
  text \<open>{}\<close>) makes every toggle throw \<open>TypeError\<close> and change nothing:
  \<open>loadWatchlistFromStorage\<close> keeps any parsed value, and \<open>addToWatchlist\<close> resets
  only falsy values.
\<close>

lemma toggle_non_array_type_error:
  assumes "js_truthy (watchlist st)" and "\<forall>ws. watchlist st \<noteq> JArr ws"
  shows "add_to_watchlist sel now it st = (st, Some TypeError)"
  using assms by (cases "watchlist st") (auto simp: add_to_watchlist_def)

lemma toggle_non_array_type_error_witness:
  "add_to_watchlist (\<lambda>_. True) 0 \<lparr>productName = ''Corn'', price = Num 6975 2, currency = ''GHS'', location = JStr ''Chicago, Illinois'',
      date = ''2023-11-14'', source = ''API Ninjas'', usdPrice = Num 45 1\<rparr> (wl_init (\<lambda>k. if k = watchlist_key then Some ''{}'' else None)) =
   (wl_init (\<lambda>k. if k = watchlist_key then Some ''{}'' else None), Some TypeError)"
  by (rule toggle_non_array_type_error) (simp_all add: wl_init_def load_watchlist_def js_simps)

text \<open>
  C14. The store invariant: from a falsy watchlist or an array of objects with
  distinct \<open>productName\<close> values, a toggle whose selector is valid succeeds, keeps
  names distinct, and leaves storage holding exactly the JSON text of the new
  watchlist.
\<close>

lemma toggle_preserves_ok:
  assumes "wl_ok (watchlist st)" and "sel (watch_selector (productName it))"
  shows "\<exists>st'. add_to_watchlist sel now it st = (st', None) \<and> wl_ok (watchlist st') \<and>
               storage st' watchlist_key = json_stringify (watchlist st')"
proof -
  obtain ws where w: "watchlist st = JArr ws \<or> (\<not> js_truthy (watchlist st) \<and> ws = [])"
      and ok: "list_all is_obj ws" "distinct (map (\<lambda>w. get_prop w ''productName'') ws)"
    using wl_ok_cases [OF assms(1)] by blast
  obtain r where r: "find_index_name (productName it) ws = Inr r"
    using find_index_name_objs [OF ok(1)] by blast
  show ?thesis
  proof (cases r)
    case None
    then have "JStr (productName it) \<notin> set (map (\<lambda>w. get_prop w ''productName'') ws)"
      using r by (auto simp: find_index_name_None_iff)
    then show ?thesis
      using w ok r None assms(2) by (simp add: add_to_watchlist_arr storage_persist is_obj_def del: get_prop.simps)
  next
    case (Some i)
    have "list_all is_obj (splice_one i ws)"
      using ok(1) set_splice_one by (fastforce simp: list_all_iff)
    then show ?thesis
      using w ok r Some assms(2) by (simp add: add_to_watchlist_arr storage_persist map_splice_one distinct_splice_one)
  qed
qed

lemma toggle_preserves_ok_witness:
  "\<exists>st'. add_to_watchlist (\<lambda>_. True) 0 \<lparr>productName = ''Corn'', price = Num 6975 2, currency = ''GHS'', location = JStr ''Chicago, Illinois'',
      date = ''2023-11-14'', source = ''API Ninjas'', usdPrice = Num 45 1\<rparr> (wl_init Map.empty) = (st', None) \<and> wl_ok (watchlist st') \<and>
         storage st' watchlist_key = json_stringify (watchlist st')"
  by (rule toggle_preserves_ok) (simp_all add: wl_init_def load_watchlist_def)

text \<open>
  Example, spec scenario 8: stored watchlist text \<open>"not json"\<close> loads as the empty
  array and no exception escapes.
\<close>

lemma load_not_json:
  "load_watchlist (\<lambda>k. if k = watchlist_key then Some ''not json'' else None) = JArr []"
  by (simp add: load_watchlist_def js_simps)

text \<open>
  C25. What a toggle saves is what the next start reads: after any successful
  \<open>addToWatchlist\<close>, \<open>loadWatchlistFromStorage\<close> on the stored text gives back
  the watchlist up to JSON normalisation (numbers by value; a function-valued
  \<open>location\<close>, as an exchange named like an \<open>Object.prototype\<close> member gives,
  is dropped from the entry, and a non-finite price becomes \<open>null\<close>).
\<close>

lemma toggle_reload:
  "add_to_watchlist sel now it st = (st', None) \<Longrightarrow> jeq (json_norm (watchlist st')) (watchlist (wl_init (storage st')))"
  using add_to_watchlist_persists persist_reload by blast

lemma toggle_reload_witness:
  "jeq (json_norm (watchlist (persist (notify ''Corn added to watchlist!'' ''success''
      ((wl_init Map.empty)\<lparr>watchlist := JArr [JObj (item_props \<lparr>productName = ''Corn'', price = Num 6975 2, currency = ''GHS'',
         location = JFun ''toString'', date = ''2023-11-14'', source = ''API Ninjas'', usdPrice = Num 45 1\<rparr>
         @ [(''addedAt'', JStr (iso_date 0 @ iso_time 0))])]\<rparr>)))))
     (watchlist (wl_init (storage (persist (notify ''Corn added to watchlist!'' ''success''
      ((wl_init Map.empty)\<lparr>watchlist := JArr [JObj (item_props \<lparr>productName = ''Corn'', price = Num 6975 2, currency = ''GHS'',
         location = JFun ''toString'', date = ''2023-11-14'', source = ''API Ninjas'', usdPrice = Num 45 1\<rparr>
         @ [(''addedAt'', JStr (iso_date 0 @ iso_time 0))])]\<rparr>))))))"
  by (rule toggle_reload [where sel = "\<lambda>_. True" and now = 0 and it = "\<lparr>productName = ''Corn'', price = Num 6975 2, currency = ''GHS'',
         location = JFun ''toString'', date = ''2023-11-14'', source = ''API Ninjas'', usdPrice = Num 45 1\<rparr>" and st = "wl_init Map.empty"])
     (simp add: add_to_watchlist_def wl_init_def load_watchlist_def)

text \<open>
  C26. A toggle whose selector the host rejects changes the watchlist in memory and
  shows its notification, then throws \<open>SyntaxError\<close> from
  \<open>updateWatchlistButton\<close> before \<open>localStorage.setItem\<close>: storage keeps the
  previous text, so the next start reads the watchlist as it was before the
  toggle.
\<close>

lemma toggle_bad_selector_not_saved:
  assumes "wl_ok (watchlist st)" and "\<not> sel (watch_selector (productName it))"
  shows "snd (add_to_watchlist sel now it st) = Some SyntaxError \<and>
         watchlist (fst (add_to_watchlist sel now it st)) \<noteq> watchlist st \<and>
         length (notifications (fst (add_to_watchlist sel now it st))) = Suc (length (notifications st)) \<and>
         storage (fst (add_to_watchlist sel now it st)) = storage st"
proof -
  obtain ws where w: "watchlist st = JArr ws \<or> (\<not> js_truthy (watchlist st) \<and> ws = [])"
      and ok: "list_all is_obj ws"
    using wl_ok_cases [OF assms(1)] by blast
  obtain r where r: "find_index_name (productName it) ws = Inr r"
    using find_index_name_objs [OF ok] by blast
  show ?thesis
  proof (cases r)
    case None
    have "JArr (ws @ [x]) \<noteq> watchlist st" for x using w by (cases "watchlist st") auto
    then show ?thesis using w r None assms(2) by (auto simp: add_to_watchlist_arr notify_def)
  next
    case (Some i)
    then have "i < length ws" using r find_index_name_SomeD by blast
    then have "length (splice_one i ws) \<noteq> length ws" by (simp add: splice_one_def)
    then show ?thesis using w r Some assms(2) by (auto simp: add_to_watchlist_arr notify_def)
  qed
qed

lemma toggle_bad_selector_not_saved_witness:
  \<open>snd (add_to_watchlist (\<lambda>_. False) 0 \<lparr>productName = ''Corn "Futures"'', price = Num 6975 2, currency = ''GHS'',
      location = JStr ''Chicago, Illinois'', date = ''2023-11-14'', source = ''API Ninjas'', usdPrice = Num 45 1\<rparr> (wl_init Map.empty)) = Some SyntaxError \<and>
   watchlist (fst (add_to_watchlist (\<lambda>_. False) 0 \<lparr>productName = ''Corn "Futures"'', price = Num 6975 2, currency = ''GHS'',
      location = JStr ''Chicago, Illinois'', date = ''2023-11-14'', source = ''API Ninjas'', usdPrice = Num 45 1\<rparr> (wl_init Map.empty))) \<noteq> watchlist (wl_init Map.empty) \<and>
   length (notifications (fst (add_to_watchlist (\<lambda>_. False) 0 \<lparr>productName = ''Corn "Futures"'', price = Num 6975 2, currency = ''GHS'',
      location = JStr ''Chicago, Illinois'', date = ''2023-11-14'', source = ''API Ninjas'', usdPrice = Num 45 1\<rparr> (wl_init Map.empty)))) =
     Suc (length (notifications (wl_init Map.empty))) \<and>
   storage (fst (add_to_watchlist (\<lambda>_. False) 0 \<lparr>productName = ''Corn "Futures"'', price = Num 6975 2, currency = ''GHS'',
      location = JStr ''Chicago, Illinois'', date = ''2023-11-14'', source = ''API Ninjas'', usdPrice = Num 45 1\<rparr> (wl_init Map.empty))) = storage (wl_init Map.empty)\<close>
  by (rule toggle_bad_selector_not_saved) (simp_all add: wl_init_def load_watchlist_def)

end
