(* ===== verification/App.thy ===== *)
theory App
  imports Fetcher Filter_Sort Watchlist "HOL-Library.Char_ord" "HOL-Library.List_Lexorder"
begin

text \<open>
  The application shell of \<open>src/script.js\<close>: the class \<open>PriceBoardApp\<close> as a state
  machine. Its state is the record \<open>app_state\<close>: the fields \<open>this.data\<close>,
  \<open>this.filteredData\<close>, \<open>this.isLoading\<close>, \<open>this.currentError\<close>, the values of the
  four inputs, the options of the two selects, the rendered table, the no-data
  banner, the statistics, the watchlist store, and two scheduler facts: how many
  \<open>loadData\<close> calls are suspended at their \<open>await\<close>, and whether a debounced search
  is scheduled. Each handler is a function from a state to the next state and the
  exception it lets escape; \<open>app_reach\<close> is the step relation of any interleaving
  of user events and settling loads.

  Row objects have identity in JavaScript (\<open>this.data.indexOf(item)\<close>): an element of
  \<open>filteredData\<close> is the pair of its position in \<open>this.data\<close> when it was filtered
  and the row. The rendered row records what the code computes and can fail on:
  the trend, the price-change indicator and the state of the row's watchlist
  button; the text of its cells is the theory \<open>Display\<close>. The handlers take the
  host's selector check \<open>sel\<close> of \<open>querySelectorAll\<close> and its collation \<open>lc\<close>.
\<close>

section \<open>State\<close>

record row_view =
  rv_index :: nat
  rv_item :: item
  rv_trend :: string
  rv_change :: string
  rv_starred :: bool

record stat_view =
  total_products :: nat
  total_regions :: nat
  last_updated :: "int option"
  data_source :: string

record app_state =
  data :: "item list"
  filtered :: "(nat \<times> item) list"
  is_loading :: bool
  current_error :: "string option"
  controls :: filter_state
  product_options :: "string list"
  region_options :: "string list"
  table :: "row_view list"
  no_data :: bool
  app_stats :: stat_view
  store :: wl_state
  pending :: nat
  search_timer :: bool

section \<open>Rendering\<close>

text \<open>
  \<open>calculateTrend(item, index)\<close> against \<open>this.filteredData[index - 1]\<close>; reading
  \<open>.price\<close> of an element past the end (\<open>undefined\<close>) throws.
\<close>

definition calculate_trend :: "(nat \<times> item) list \<Rightarrow> item \<Rightarrow> nat \<Rightarrow> error + string" where
  "calculate_trend fl it index =
    (if index = 0 then Inr ''stable''
     else if index - 1 < length fl then
       (let prev = price (snd (fl ! (index - 1))) in
        if js_less prev (price it) then Inr ''up''
        else if js_less (price it) prev then Inr ''down''
        else Inr ''stable'')
     else Inl TypeError)"

text \<open>
  \<open>this.watchlist && this.watchlist.find(w => w.productName === item.productName)\<close>
  (line 533): \<open>find\<close> visits the entries as \<open>findIndex\<close> does and returns the entry
  found, an object; a truthy non-array has no \<open>find\<close> method.
\<close>

definition watch_star :: "jsval \<Rightarrow> string \<Rightarrow> error + bool" where
  "watch_star wl n =
    (if \<not> js_truthy wl then Inr False
     else (case wl of
             JArr ws \<Rightarrow> (case find_index_name n ws of Inl e \<Rightarrow> Inl e | Inr r \<Rightarrow> Inr (r \<noteq> None))
           | _ \<Rightarrow> Inl TypeError))"

text \<open>
  The \<open>forEach\<close> of \<open>updateWatchlistButton(name, b)\<close> (lines 350-362): every
  watchlist button in the document whose \<open>data-commodity\<close> is the name gets the
  star state \<open>b\<close>. The buttons are those of the rows appended to the table; the
  attribute holds \<open>escapeHtml(name)\<close>, which the HTML parser reads back as the
  name, so rows are matched by product name (exact for names without a double
  quote, which \<open>escapeHtml\<close> does not escape).
\<close>

definition mark_starred :: "string \<Rightarrow> bool \<Rightarrow> row_view list \<Rightarrow> row_view list" where
  "mark_starred n b rs = map (\<lambda>rv. if productName (rv_item rv) = n then rv\<lparr>rv_starred := b\<rparr> else rv) rs"

text \<open>
  The \<open>forEach\<close> of \<open>renderTable\<close> from display position \<open>k\<close>, with the rows
  \<open>acc\<close> appended so far. Each row computes its trend, then its indicator
  \<open>calculateTrend(item, this.data.indexOf(item))\<close>, and is created with an
  unstarred button; if its product is in the watchlist,
  \<open>updateWatchlistButton(name, true)\<close> runs before the row is appended, so it
  stars the rows of that product already in the table and not the new one. The
  row is appended last. The first exception stops the loop with the rows appended
  so far in the table.
\<close>

fun render_rows :: "selector_check \<Rightarrow> (nat \<times> item) list \<Rightarrow> jsval \<Rightarrow> nat \<Rightarrow> row_view list \<Rightarrow> (nat \<times> item) list \<Rightarrow>
                     row_view list \<times> error option" where
  "render_rows sel fl wl k acc [] = (acc, None)"
| "render_rows sel fl wl k acc ((i, it) # rest) =
     (case calculate_trend fl it k of
        Inl e \<Rightarrow> (acc, Some e)
      | Inr tr \<Rightarrow>
          (case calculate_trend fl it i of
             Inl e \<Rightarrow> (acc, Some e)
           | Inr ch \<Rightarrow>
               (let rv = \<lparr>rv_index = i, rv_item = it, rv_trend = tr, rv_change = ch, rv_starred = False\<rparr> in
                case watch_star wl (productName it) of
                  Inl e \<Rightarrow> (acc, Some e)
                | Inr s \<Rightarrow>
                    if \<not> s then render_rows sel fl wl (Suc k) (acc @ [rv]) rest
                    else if sel (watch_selector (productName it))
                    then render_rows sel fl wl (Suc k) (mark_starred (productName it) True acc @ [rv]) rest
                    else (acc, Some SyntaxError))))"

text \<open>\<open>renderTable()\<close>: an empty subset shows the no-data banner and returns.\<close>

definition render_table :: "selector_check \<Rightarrow> app_state \<Rightarrow> app_state \<times> error option" where
  "render_table sel st =
    (if filtered st = [] then (st\<lparr>table := [], no_data := True\<rparr>, None)
     else (case render_rows sel (filtered st) (watchlist (store st)) 0 [] (filtered st) of
             (rs, None) \<Rightarrow> (st\<lparr>table := rs, no_data := False\<rparr>, None)
           | (rs, Some e) \<Rightarrow> (st\<lparr>table := rs\<rparr>, Some e)))"

section \<open>Statistics and filter options\<close>

text \<open>\<open>Math.max\<close> of two numbers: \<open>NaN\<close> if either is.\<close>

definition js_max :: "jsnum \<Rightarrow> jsnum \<Rightarrow> jsnum" where
  "js_max a b = (if js_is_nan a \<or> js_is_nan b then NaN else if js_less a b then b else a)"

text \<open>
  \<open>SameValueZero\<close>, the equality of \<open>Set\<close>: numbers by value (\<open>NaN\<close> equal to
  itself), other values as HOL values. Objects are compared by structure where
  JavaScript compares identity; the only object locations are
  \<open>Object.prototype\<close> (one object) and exchange fields given as JSON objects.
\<close>

fun js_sv0 :: "jsval \<Rightarrow> jsval \<Rightarrow> bool" where
  "js_sv0 (JNumber a) (JNumber b) =
     (if js_is_nan a then js_is_nan b else \<not> js_is_nan b \<and> \<not> js_less a b \<and> \<not> js_less b a)"
| "js_sv0 a b = (a = b)"

text \<open>\<open>[...new Set(xs)]\<close>: first occurrences in order.\<close>

fun sv0_dedup :: "jsval list \<Rightarrow> jsval list \<Rightarrow> jsval list" where
  "sv0_dedup acc [] = acc"
| "sv0_dedup acc (x # xs) = sv0_dedup (if list_ex (\<lambda>y. js_sv0 y x) acc then acc else acc @ [x]) xs"

text \<open>\<open>updateStats()\<close>; \<open>now\<close> is the clock read by \<open>new Date()\<close>.\<close>

definition update_stats :: "int \<Rightarrow> app_state \<Rightarrow> app_state" where
  "update_stats now st =
     st\<lparr>app_stats :=
       \<lparr>total_products = length (dedup (map (productName \<circ> snd) (filtered st))),
        total_regions = length (sv0_dedup [] (map (location \<circ> snd) (filtered st))),
        last_updated = (if data st \<noteq> [] then time_clip (fold js_max (map (\<lambda>r. date_value (date r)) (data st)) NegInf)
                        else Some now),
        data_source = (if data st \<noteq> [] then join_with '', '' (dedup (map source (data st))) else ''-'')\<rparr>\<rparr>"

text \<open>
  \<open>populateFilters()\<close>: the options are the sorted distinct names and locations
  (\<open>sort()\<close> compares the strings of the values). Replacing a select's options
  selects its first option, the empty "All" value, so both selections reset.
\<close>

definition populate_filters :: "app_state \<Rightarrow> app_state" where
  "populate_filters st =
     st\<lparr>product_options := sort (dedup (map productName (data st))),
        region_options := map to_js_string (sort_key to_js_string (sv0_dedup [] (map location (data st)))),
        controls := (controls st)\<lparr>selected_product := [], selected_region := []\<rparr>\<rparr>"

section \<open>Handlers\<close>

text \<open>
  \<open>applyFilters()\<close>: the filter callback may throw before \<open>this.filteredData\<close> is
  assigned; rendering may throw after it, leaving a partial table and the
  statistics untouched.
\<close>

definition apply_filters_app :: "selector_check \<Rightarrow> collator \<Rightarrow> int \<Rightarrow> app_state \<Rightarrow> app_state \<times> error option" where
  "apply_filters_app sel lc now st =
    (case apply_filters lc (controls st) snd (enumerate 0 (data st)) of
       Inl e \<Rightarrow> (st, Some e)
     | Inr fl \<Rightarrow>
         (case render_table sel (st\<lparr>filtered := fl\<rparr>) of
            (st1, None) \<Rightarrow> (update_stats now st1, None)
          | (st1, Some e) \<Rightarrow> (st1, Some e)))"

definition load_error_message :: string where
  "load_error_message = ''Unable to load data. Please check your connection and try again.''"

text \<open>\<open>showError(message)\<close>.\<close>

definition show_error :: "app_state \<Rightarrow> app_state" where
  "show_error st = st\<lparr>current_error := Some load_error_message, table := []\<rparr>"

text \<open>
  \<open>loadData()\<close> up to its \<open>await\<close>: \<open>setLoading(true)\<close> (which empties the table)
  and \<open>hideError()\<close>; the call is then suspended.
\<close>

definition load_start :: "app_state \<Rightarrow> app_state" where
  "load_start st = st\<lparr>is_loading := True, table := [], current_error := None, pending := Suc (pending st)\<rparr>"

text \<open>
  The rest of \<open>loadData()\<close> once \<open>loadFromNewAPI()\<close> settles with \<open>r\<close> (the rows
  it assigned to \<open>this.data\<close>, or its exception): \<open>updateStats\<close>,
  \<open>populateFilters\<close> and \<open>applyFilters\<close> on success; any exception is caught and
  shown; \<open>finally\<close> clears the loading flag.
\<close>

definition load_finish :: "selector_check \<Rightarrow> collator \<Rightarrow> int \<Rightarrow> error + item list \<Rightarrow> app_state \<Rightarrow> app_state" where
  "load_finish sel lc now r st =
    (let st' = (case r of
                  Inl _ \<Rightarrow> show_error st
                | Inr rows \<Rightarrow>
                    (case apply_filters_app sel lc now (populate_filters (update_stats now (st\<lparr>data := rows\<rparr>))) of
                       (st2, None) \<Rightarrow> st2
                     | (st2, Some _) \<Rightarrow> show_error st2))
     in st'\<lparr>is_loading := False, pending := pending st - 1\<rparr>)"

text \<open>
  A row's star button (line 530): \<open>addToWatchlist(item)\<close>, whose
  \<open>updateWatchlistButton\<close> sets the star of every row of that product to the
  branch taken (the type of the notification the toggle shows). When the
  handler throws, the store is as the toggle left it and no star has changed.
\<close>

definition toggle_row :: "selector_check \<Rightarrow> int \<Rightarrow> nat \<Rightarrow> app_state \<Rightarrow> app_state \<times> error option" where
  "toggle_row sel now k st =
    (if k < length (table st) then
       (let it = rv_item (table st ! k) in
        case add_to_watchlist sel now it (store st) of
          (w', Some e) \<Rightarrow> (st\<lparr>store := w'\<rparr>, Some e)
        | (w', None) \<Rightarrow>
            (st\<lparr>store := w',
                table := mark_starred (productName it) (snd (last (notifications w')) = ''success'') (table st)\<rparr>, None))
     else (st, None))"

section \<open>Events\<close>

text \<open>
  The input events of \<open>bindEvents\<close> (lines 53-69) and of the table's buttons.
  \<open>SearchInput\<close> is an \<open>input\<close> event that changes the search text (its handler
  replaces the pending timer); \<open>SearchTimer\<close> is that timer firing 300 ms later.
  \<open>DetailsAdd\<close> is the "Add to Watchlist" button of the details modal (line 298),
  whose inline handler runs with \<open>this\<close> bound to the button, which has no
  \<open>addToWatchlist\<close> method.
\<close>

datatype event =
    Retry
  | SearchInput string
  | SearchTimer
  | SelectProduct string
  | SelectRegion string
  | SelectSort string
  | ToggleRow nat
  | DetailsAdd nat

definition app_event :: "selector_check \<Rightarrow> collator \<Rightarrow> int \<Rightarrow> event \<Rightarrow> app_state \<Rightarrow> app_state \<times> error option" where
  "app_event sel lc now ev st =
    (case ev of
       Retry \<Rightarrow> (load_start st, None)
     | SearchInput s \<Rightarrow> (st\<lparr>controls := (controls st)\<lparr>search_text := s\<rparr>, search_timer := True\<rparr>, None)
     | SearchTimer \<Rightarrow>
         (if search_timer st then apply_filters_app sel lc now (st\<lparr>search_timer := False\<rparr>) else (st, None))
     | SelectProduct p \<Rightarrow>
         (if p \<in> set ([] # product_options st)
          then apply_filters_app sel lc now (st\<lparr>controls := (controls st)\<lparr>selected_product := p\<rparr>\<rparr>)
          else (st, None))
     | SelectRegion r \<Rightarrow>
         (if r \<in> set ([] # region_options st)
          then apply_filters_app sel lc now (st\<lparr>controls := (controls st)\<lparr>selected_region := r\<rparr>\<rparr>)
          else (st, None))
     | SelectSort k \<Rightarrow> apply_filters_app sel lc now (st\<lparr>controls := (controls st)\<lparr>sort_key_name := k\<rparr>\<rparr>)
     | ToggleRow k \<Rightarrow> toggle_row sel now k st
     | DetailsAdd k \<Rightarrow> (if k < length (table st) then (st, Some TypeError) else (st, None)))"

text \<open>
  Events in sequence; the uncaught exceptions are collected in order (an uncaught
  exception ends its handler, not the application).
\<close>

fun app_run :: "selector_check \<Rightarrow> collator \<Rightarrow> int \<Rightarrow> event list \<Rightarrow> app_state \<Rightarrow> app_state \<times> error list" where
  "app_run sel lc now [] st = (st, [])"
| "app_run sel lc now (ev # evs) st =
     (case app_event sel lc now ev st of
        (st1, err) \<Rightarrow> (case app_run sel lc now evs st1 of (st2, errs) \<Rightarrow> (st2, (case err of None \<Rightarrow> [] | Some e \<Rightarrow> [e]) @ errs)))"

text \<open>
  \<open>new PriceBoardApp()\<close>: the constructor's fields, \<open>init()\<close> reading the
  watchlist from storage \<open>stg\<close> and starting the first load. The sort select
  starts at its first option \<open>k0\<close> (the page is not part of the sources); the
  statistics start as the page's placeholder, written here as zero counts.
\<close>

definition app_init :: "string \<Rightarrow> (string \<Rightarrow> string option) \<Rightarrow> app_state" where
  "app_init k0 stg =
     load_start
       \<lparr>data = [], filtered = [], is_loading = False, current_error = None,
        controls = \<lparr>search_text = [], selected_product = [], selected_region = [], sort_key_name = k0\<rparr>,
        product_options = [], region_options = [], table = [], no_data = False,
        app_stats = \<lparr>total_products = 0, total_regions = 0, last_updated = None, data_source = ''-''\<rparr>,
        store = wl_init stg, pending = 0, search_timer = False\<rparr>"

text \<open>
  The reachable states: from the initial one, a suspended load may settle with the
  outcome of \<open>loadFromNewAPI\<close> against any API and clock, and any event may occur.
\<close>

inductive app_reach :: "selector_check \<Rightarrow> collator \<Rightarrow> string \<Rightarrow> (string \<Rightarrow> string option) \<Rightarrow> app_state \<Rightarrow> bool"
  for sel lc k0 stg where
  start: "app_reach sel lc k0 stg (app_init k0 stg)"
| settle: "app_reach sel lc k0 stg st \<Longrightarrow> 0 < pending st \<Longrightarrow>
           app_reach sel lc k0 stg (load_finish sel lc now (load_from_new_api api now) st)"
| event: "app_reach sel lc k0 stg st \<Longrightarrow> app_reach sel lc k0 stg (fst (app_event sel lc now ev st))"

text \<open>
  The shell's invariant: every row of the data, of the filtered subset and of the
  table is a retained GHS row of the API, and the loading flag is set only while a
  load is suspended.
\<close>

definition row_ok :: "item \<Rightarrow> bool" where
  "row_ok r \<longleftrightarrow> retained r \<and> currency r = ''GHS'' \<and> source r = ''API Ninjas''"

definition rows_inv :: "app_state \<Rightarrow> bool" where
  "rows_inv st \<longleftrightarrow>
     list_all row_ok (data st) \<and> list_all (row_ok \<circ> snd) (filtered st) \<and> list_all (row_ok \<circ> rv_item) (table st)"

definition app_inv :: "app_state \<Rightarrow> bool" where
  "app_inv st \<longleftrightarrow> rows_inv st \<and> (is_loading st \<longrightarrow> 0 < pending st)"

text \<open>
  How the stars of a rendered table are placed: a row is starred when its product
  is in the watchlist and a later row of the table has the same product.
\<close>

definition later_same :: "row_view list \<Rightarrow> nat \<Rightarrow> bool" where
  "later_same rs j \<longleftrightarrow> (\<exists>j'. j < j' \<and> j' < length rs \<and> productName (rv_item (rs ! j')) = productName (rv_item (rs ! j)))"

definition stars_exact :: "jsval \<Rightarrow> row_view list \<Rightarrow> bool" where
  "stars_exact wl rs \<longleftrightarrow>
     (\<forall>j < length rs. rv_starred (rs ! j) = (later_same rs j \<and> watch_star wl (productName (rv_item (rs ! j))) = Inr True))"

section \<open>Lemmas\<close>

lemma load_rows_ok:
  assumes "load_from_new_api api now = Inr rows" shows "list_all row_ok rows"
proof -
  have n: "normalize_items now (fetched_items api default_commodities) = Inr rows"
    using assms by (simp add: load_from_new_api_def Let_def split: if_splits)
  show ?thesis
  proof (unfold list_all_iff, rule ballI)
    fix r assume "r \<in> set rows"
    with normalize_items_rows [OF n] obtain it where "retained r" "normalize_item now it = Inr r" by blast
    then show "row_ok r" using normalize_item_fields by (simp add: row_ok_def)
  qed
qed

lemma apply_filters_subset: "apply_filters lc fs row xs = Inr ys \<Longrightarrow> set ys \<subseteq> set xs"
  by (auto simp: apply_filters_def sort_data_def split: sum.splits dest!: filter_ex_InrD)

lemma mark_starred_items [simp]:
  "map rv_item (mark_starred n b rs) = map rv_item rs" "length (mark_starred n b rs) = length rs"
  by (simp_all add: mark_starred_def comp_def)

lemma list_all_mark_starred [simp]: "list_all (P \<circ> rv_item) (mark_starred n b rs) = list_all (P \<circ> rv_item) rs"
  by (induction rs) (auto simp: mark_starred_def)

lemma render_rows_ok:
  "list_all (row_ok \<circ> snd) xs \<Longrightarrow> list_all (row_ok \<circ> rv_item) acc \<Longrightarrow>
   list_all (row_ok \<circ> rv_item) (fst (render_rows sel fl wl k acc xs))"
  by (induction sel fl wl k acc xs rule: render_rows.induct) (auto simp: Let_def split: sum.splits)

lemma render_rows_ok_eq:
  "list_all (row_ok \<circ> snd) xs \<Longrightarrow> render_rows sel fl wl k [] xs = (rs, e) \<Longrightarrow> list_all (row_ok \<circ> rv_item) rs"
  using render_rows_ok [of xs "[]" sel fl wl k] by simp

lemma apply_filters_app_rows:
  assumes "rows_inv st" shows "rows_inv (fst (apply_filters_app sel lc now st))"
proof (cases "apply_filters lc (controls st) snd (enumerate 0 (data st))")
  case (Inl e) then show ?thesis using assms by (simp add: apply_filters_app_def)
next
  case (Inr fl)
  then have fl: "list_all (row_ok \<circ> snd) fl"
    using assms apply_filters_subset [OF Inr] by (fastforce simp: rows_inv_def list_all_iff in_set_enumerate_eq)
  then show ?thesis using assms fl Inr render_rows_ok_eq [OF fl]
    by (auto simp: apply_filters_app_def render_table_def update_stats_def rows_inv_def split: prod.splits option.splits)
qed

lemma apply_filters_app_flags [simp]:
  "is_loading (fst (apply_filters_app sel lc now st)) = is_loading st"
  "pending (fst (apply_filters_app sel lc now st)) = pending st"
  by (auto simp: apply_filters_app_def render_table_def update_stats_def split: sum.splits prod.splits option.splits)

lemma rows_inv_updates [simp]:
  "rows_inv (st\<lparr>controls := c\<rparr>) = rows_inv st"
  "rows_inv (st\<lparr>search_timer := b\<rparr>) = rows_inv st"
  "rows_inv (st\<lparr>is_loading := b, pending := n\<rparr>) = rows_inv st"
  "rows_inv (update_stats now st) = rows_inv st"
  "rows_inv (populate_filters st) = rows_inv st"
  by (simp_all add: rows_inv_def update_stats_def populate_filters_def)

lemma rows_inv_show_error: "rows_inv st \<Longrightarrow> rows_inv (show_error st)"
  by (simp add: rows_inv_def show_error_def)

lemma rows_inv_load_start: "rows_inv st \<Longrightarrow> rows_inv (load_start st)"
  by (simp add: rows_inv_def load_start_def)

lemma rows_inv_toggle_row: "rows_inv st \<Longrightarrow> rows_inv (fst (toggle_row sel now k st))"
  by (auto simp: rows_inv_def toggle_row_def Let_def split: prod.splits option.splits)

lemma load_start_flags [simp]:
  "is_loading (load_start st)" "pending (load_start st) = Suc (pending st)"
  by (simp_all add: load_start_def)

lemma toggle_row_flags [simp]:
  "is_loading (fst (toggle_row sel now k st)) = is_loading st" "pending (fst (toggle_row sel now k st)) = pending st"
  by (auto simp: toggle_row_def Let_def split: prod.splits option.splits)

lemma app_event_inv: "app_inv st \<Longrightarrow> app_inv (fst (app_event sel lc now ev st))"
  by (cases ev) (auto simp: app_inv_def app_event_def rows_inv_load_start apply_filters_app_rows rows_inv_toggle_row)

lemma load_finish_inv:
  assumes "rows_inv st" and "\<And>rows. r = Inr rows \<Longrightarrow> list_all row_ok rows"
  shows "app_inv (load_finish sel lc now r st)"
proof (cases r)
  case (Inl e) then show ?thesis using assms by (simp add: app_inv_def load_finish_def rows_inv_show_error)
next
  case (Inr rows)
  let ?st1 = "populate_filters (update_stats now (st\<lparr>data := rows\<rparr>))"
  have "rows_inv (st\<lparr>data := rows\<rparr>)" using assms Inr by (simp add: rows_inv_def)
  then have "rows_inv (fst (apply_filters_app sel lc now ?st1))" by (simp add: apply_filters_app_rows)
  then show ?thesis using Inr
    by (auto simp: app_inv_def load_finish_def rows_inv_show_error split: prod.splits option.splits
             dest: rows_inv_show_error)
qed

lemma calculate_trend_Inr: "index \<le> length fl \<Longrightarrow> \<exists>t. calculate_trend fl it index = Inr t"
  by (auto simp: calculate_trend_def Let_def)

lemma calculate_trend_Inl:
  assumes "length fl < index" shows "calculate_trend fl it index = Inl TypeError"
proof -
  have "\<not> index - 1 < length fl" and "index \<noteq> 0" using assms by arith+
  then show ?thesis by (simp add: calculate_trend_def)
qed

lemma watch_star_ok: "wl_ok wl \<Longrightarrow> \<exists>b. watch_star wl n = Inr b"
  using find_index_name_objs [of _ n]
  by (fastforce simp: watch_star_def wl_ok_def split: if_splits jsval.splits sum.splits)

lemma render_rows_trend:
  assumes "wl_ok wl" and "k + length xs \<le> length fl" and "\<forall>p\<in>set xs. sel (watch_selector (productName (snd p)))"
  shows "map rv_item (fst (render_rows sel fl wl k acc xs)) = map rv_item acc @ map snd (takeWhile (\<lambda>p. fst p \<le> length fl) xs) \<and>
         snd (render_rows sel fl wl k acc xs) = (if list_all (\<lambda>p. fst p \<le> length fl) xs then None else Some TypeError)"
  using assms(2,3)
proof (induction xs arbitrary: k acc)
  case Nil
  then show ?case by simp
next
  case (Cons p rest)
  obtain i it where p: "p = (i, it)" by (cases p)
  obtain tr where tr: "calculate_trend fl it k = Inr tr"
    using calculate_trend_Inr [of k fl it] Cons.prems by auto
  obtain s where s: "watch_star wl (productName it) = Inr s"
    using watch_star_ok [OF assms(1)] by blast
  have sl: "sel (watch_selector (productName it))" using Cons.prems(2) p by simp
  show ?case
  proof (cases "i \<le> length fl")
    case True
    then obtain ch where ch: "calculate_trend fl it i = Inr ch" using calculate_trend_Inr by blast
    have "Suc k + length rest \<le> length fl" "\<forall>p\<in>set rest. sel (watch_selector (productName (snd p)))"
      using Cons.prems by simp_all
    then show ?thesis using Cons.IH [of "Suc k"] p tr ch s sl True by (simp add: Let_def)
  next
    case False
    then show ?thesis using p tr calculate_trend_Inl [of fl i it] by simp
  qed
qed

lemma load_finish_flags [simp]:
  "is_loading (load_finish sel lc now r st) = False" "pending (load_finish sel lc now r st) = pending st - 1"
  by (auto simp: load_finish_def Let_def split: sum.splits prod.splits option.splits)

lemma settle_all:
  "(is_loading st \<longrightarrow> 0 < pending st) \<Longrightarrow> length rs = pending st \<Longrightarrow>
   pending (fold (\<lambda>(t, r). load_finish sel lc t r) rs st) = 0 \<and> \<not> is_loading (fold (\<lambda>(t, r). load_finish sel lc t r) rs st)"
  by (induction rs arbitrary: st) auto

lemma search_input_twice:
  "fst (app_event sel lc now (SearchInput b) (fst (app_event sel lc now (SearchInput a) st))) = fst (app_event sel lc now (SearchInput b) st)"
  by (simp add: app_event_def)

lemma apply_filters_app_controls [simp]: "controls (fst (apply_filters_app sel lc now st)) = controls st"
  by (auto simp: apply_filters_app_def render_table_def update_stats_def split: sum.splits prod.splits option.splits)

lemma load_fails_Inl:
  assumes "\<And>u. fetch_commodity_price (api u) = JNull"
  shows "load_from_new_api api now = Inl NoCommodityPrices"
  by (simp add: load_from_new_api_def fetched_items_empty_iff assms)

lemma nth_mark_starred:
  "j < length rs \<Longrightarrow> mark_starred n b rs ! j = (if productName (rv_item (rs ! j)) = n then (rs ! j)\<lparr>rv_starred := b\<rparr> else rs ! j)"
  by (simp add: mark_starred_def)

lemma later_same_snoc:
  assumes "map rv_item ms = map rv_item acc" and "j < length acc"
  shows "later_same (ms @ [rv]) j \<longleftrightarrow> later_same acc j \<or> productName (rv_item rv) = productName (rv_item (acc ! j))"
proof -
  have l: "length ms = length acc" using assms(1) by (metis length_map)
  have i: "k < length acc \<Longrightarrow> rv_item (ms ! k) = rv_item (acc ! k)" for k
    using assms(1) l by (metis nth_map)
  show ?thesis
  proof
    assume "later_same (ms @ [rv]) j"
    then obtain j' where j': "j < j'" "j' < Suc (length acc)"
        "productName (rv_item ((ms @ [rv]) ! j')) = productName (rv_item ((ms @ [rv]) ! j))"
      using l by (auto simp: later_same_def)
    show "later_same acc j \<or> productName (rv_item rv) = productName (rv_item (acc ! j))"
    proof (cases "j' = length acc")
      case True
      then show ?thesis using j' l i assms(2) by (simp add: nth_append)
    next
      case False
      then show ?thesis using j' l i assms(2) by (auto simp: later_same_def nth_append)
    qed
  next
    assume "later_same acc j \<or> productName (rv_item rv) = productName (rv_item (acc ! j))"
    then show "later_same (ms @ [rv]) j"
    proof
      assume "later_same acc j"
      then obtain j' where "j < j'" "j' < length acc" "productName (rv_item (acc ! j')) = productName (rv_item (acc ! j))"
        by (auto simp: later_same_def)
      then show ?thesis using l i assms(2) unfolding later_same_def
        by (intro exI [of _ j']) (simp add: nth_append)
    next
      assume "productName (rv_item rv) = productName (rv_item (acc ! j))"
      then show ?thesis using l i assms(2) unfolding later_same_def
        by (intro exI [of _ "length acc"]) (simp add: nth_append)
    qed
  qed
qed

lemma later_same_last: "\<not> later_same (ms @ [rv]) (length ms)"
  by (simp add: later_same_def)

lemma stars_exact_step:
  assumes ex: "stars_exact wl acc" and s: "watch_star wl n = Inr s"
    and nm: "productName (rv_item rv) = n" and un: "\<not> rv_starred rv"
  shows "stars_exact wl ((if s then mark_starred n True acc else acc) @ [rv])"
  unfolding stars_exact_def
proof (intro allI impI)
  let ?m = "if s then mark_starred n True acc else acc"
  have mi: "map rv_item ?m = map rv_item acc" and ml: "length ?m = length acc" by simp_all
  fix j assume j: "j < length (?m @ [rv])"
  show "rv_starred ((?m @ [rv]) ! j) =
        (later_same (?m @ [rv]) j \<and> watch_star wl (productName (rv_item ((?m @ [rv]) ! j))) = Inr True)"
  proof (cases "j < length acc")
    case False
    then have "j = length ?m" using j ml by simp
    then show ?thesis using un later_same_last [of ?m rv] by simp
  next
    case True
    have old: "rv_starred (acc ! j) = (later_same acc j \<and> watch_star wl (productName (rv_item (acc ! j))) = Inr True)"
      using ex True by (simp add: stars_exact_def)
    have it: "rv_item (?m ! j) = rv_item (acc ! j)" using True by (simp add: nth_mark_starred)
    have st: "rv_starred (?m ! j) = (if s \<and> productName (rv_item (acc ! j)) = n then True else rv_starred (acc ! j))"
      using True by (auto simp: nth_mark_starred)
    show ?thesis
      using later_same_snoc [OF mi True, of rv] True ml it st old s nm by (auto simp: nth_append)
  qed
qed

lemma render_rows_stars:
  "render_rows sel fl wl k acc xs = (rs, None) \<Longrightarrow> stars_exact wl acc \<Longrightarrow> stars_exact wl rs"
proof (induction sel fl wl k acc xs rule: render_rows.induct)
  case (1 sel fl wl k acc)
  then show ?case by simp
next
  case (2 sel fl wl k acc i it rest)
  show ?case
  proof (cases "calculate_trend fl it k")
    case (Inr tr)
    show ?thesis
    proof (cases "calculate_trend fl it i")
      case (Inr ch)
      let ?rv = "\<lparr>rv_index = i, rv_item = it, rv_trend = tr, rv_change = ch, rv_starred = False\<rparr>"
      show ?thesis
      proof (cases "watch_star wl (productName it)")
        case (Inr s)
        have step: "stars_exact wl ((if s then mark_starred (productName it) True acc else acc) @ [?rv])"
          by (rule stars_exact_step [OF "2.prems"(2) Inr]) simp_all
        show ?thesis
        proof (cases s)
          case False
          then show ?thesis using 2 \<open>calculate_trend fl it k = Inr tr\<close> \<open>calculate_trend fl it i = Inr ch\<close> Inr step
            by (simp add: Let_def)
        next
          case True
          then show ?thesis using 2 \<open>calculate_trend fl it k = Inr tr\<close> \<open>calculate_trend fl it i = Inr ch\<close> Inr step
            by (simp add: Let_def split: if_splits)
        qed
      qed (use 2 \<open>calculate_trend fl it k = Inr tr\<close> \<open>calculate_trend fl it i = Inr ch\<close> in \<open>simp add: Let_def\<close>)
    qed (use 2 \<open>calculate_trend fl it k = Inr tr\<close> in simp)
  qed (use 2 in simp)
qed

section \<open>Properties of the shell\<close>

text \<open>
  C15. Every reachable state of the shell satisfies \<open>app_inv\<close>: the data, the filtered
  subset and the table hold only retained GHS rows of the API, and the loading flag
  is set only while a load is suspended.
\<close>

lemma app_reach_inv: "app_reach sel lc k0 stg st \<Longrightarrow> app_inv st"
proof (induction rule: app_reach.induct)
  case start
  then show ?case by (simp add: app_init_def app_inv_def rows_inv_def load_start_def)
next
  case (settle st now api)
  then show ?case by (intro load_finish_inv) (auto simp: app_inv_def intro: load_rows_ok)
next
  case (event st now ev)
  then show ?case by (simp add: app_event_inv)
qed

lemma app_reach_inv_witness: "app_inv (app_init ''date'' Map.empty)"
  by (rule app_reach_inv [OF app_reach.start [of "\<lambda>_. True" "\<lambda>a b. 0" "''date''" Map.empty]])

text \<open>
  C16. Rendering fails on the price-change indicator: \<open>getPriceChangeIndicator\<close> passes the
  row's index in \<open>this.data\<close> to \<open>calculateTrend\<close>, which reads \<open>this.filteredData\<close> at that
  index minus one. With a well-formed watchlist, the table gets exactly the rows
  before the first one whose data index exceeds the length of the subset, and
  \<open>renderTable\<close> throws \<open>TypeError\<close> exactly when such a row exists.
\<close>

lemma render_table_trend:
  assumes "wl_ok (watchlist (store st))" and "filtered st \<noteq> []"
    and "\<forall>p\<in>set (filtered st). sel (watch_selector (productName (snd p)))"
  shows "map rv_item (table (fst (render_table sel st))) = map snd (takeWhile (\<lambda>p. fst p \<le> length (filtered st)) (filtered st)) \<and>
         snd (render_table sel st) = (if list_all (\<lambda>p. fst p \<le> length (filtered st)) (filtered st) then None else Some TypeError)"
proof -
  obtain rs err where r: "render_rows sel (filtered st) (watchlist (store st)) 0 [] (filtered st) = (rs, err)"
    by (cases "render_rows sel (filtered st) (watchlist (store st)) 0 [] (filtered st)")
  show ?thesis
    using render_rows_trend [OF assms(1), of 0 "filtered st" "filtered st" sel "[]"] assms(2,3) r
    by (cases err) (simp_all add: render_table_def)
qed

lemma render_table_trend_witness:
  "map rv_item (table (fst (render_table (\<lambda>_. True) ((app_init ''date'' Map.empty)\<lparr>filtered := [(2, \<lparr>productName = ''Gold'', price = Num 310000 1, currency = ''GHS'', location = JStr ''New York, New York'', date = ''2023-11-14'', source = ''API Ninjas'', usdPrice = Num 2000 0\<rparr>)]\<rparr>)))) = [] \<and>
   snd (render_table (\<lambda>_. True) ((app_init ''date'' Map.empty)\<lparr>filtered := [(2, \<lparr>productName = ''Gold'', price = Num 310000 1, currency = ''GHS'', location = JStr ''New York, New York'', date = ''2023-11-14'', source = ''API Ninjas'', usdPrice = Num 2000 0\<rparr>)]\<rparr>)) = Some TypeError"
  using render_table_trend [of "(app_init ''date'' Map.empty)\<lparr>filtered := [(2, \<lparr>productName = ''Gold'', price = Num 310000 1, currency = ''GHS'', location = JStr ''New York, New York'', date = ''2023-11-14'', source = ''API Ninjas'', usdPrice = Num 2000 0\<rparr>)]\<rparr>" "\<lambda>_. True"]
  by (simp add: app_init_def load_start_def wl_init_def load_watchlist_def)

text \<open>
  Example: with rows Corn, Wheat, Gold and Micro Gold loaded in that order, typing "gold"
  and letting the debounce timer fire renders only Gold and throws \<open>TypeError\<close> on
  Micro Gold (data index 3 against a subset of 2): the subset of spec scenario 9
  is computed but never fully shown.
\<close>

lemma search_gold_render_error:
  "(case app_run sel lc 0 [SearchInput ''gold'', SearchTimer]
          ((app_init ''date'' Map.empty)\<lparr>data := [\<lparr>productName = ''Corn'', price = Num 6975 1, currency = ''GHS'', location = JStr ''Chicago, Illinois'', date = ''2023-11-14'', source = ''API Ninjas'', usdPrice = Num 4 0\<rparr>, \<lparr>productName = ''Wheat'', price = Num 930 1, currency = ''GHS'', location = JStr ''Chicago, Illinois'', date = ''2023-11-14'', source = ''API Ninjas'', usdPrice = Num 6 0\<rparr>, \<lparr>productName = ''Gold'', price = Num 310000 1, currency = ''GHS'', location = JStr ''New York, New York'', date = ''2023-11-14'', source = ''API Ninjas'', usdPrice = Num 2000 0\<rparr>, \<lparr>productName = ''Micro Gold'', price = Num 310000 1, currency = ''GHS'', location = JStr ''New York, New York'', date = ''2023-11-14'', source = ''API Ninjas'', usdPrice = Num 2000 0\<rparr>]\<rparr>) of
      (st, errs) \<Rightarrow> map rv_item (table st) = [\<lparr>productName = ''Gold'', price = Num 310000 1, currency = ''GHS'', location = JStr ''New York, New York'', date = ''2023-11-14'', source = ''API Ninjas'', usdPrice = Num 2000 0\<rparr>] \<and> errs = [TypeError])"
  by (simp add: load_finish_def app_init_def load_start_def update_stats_def populate_filters_def
       apply_filters_app_def render_table_def app_event_def apply_filters_def matches_def matches_search_def
       sort_data_def sort_cmp_def calculate_trend_def watch_star_def wl_init_def load_watchlist_def
       js_max_def date_value_sample js_sub_def js_simps char_defs)

text \<open>
  C17. A load whose every request fails keeps the previous data, shows the load error
  message and empties the table; from the initial state the data stays empty (spec
  scenario 7), after an earlier successful load the stale rows are kept.
\<close>

lemma failed_load_keeps_data:
  assumes "\<And>u. fetch_commodity_price (api u) = JNull"
  shows "data (load_finish sel lc now (load_from_new_api api now) (load_start st)) = data st \<and>
         current_error (load_finish sel lc now (load_from_new_api api now) (load_start st)) = Some load_error_message \<and>
         table (load_finish sel lc now (load_from_new_api api now) (load_start st)) = []"
  by (simp add: load_fails_Inl [OF assms] load_finish_def show_error_def load_start_def)

lemma failed_load_keeps_data_witness:
  "data (load_finish (\<lambda>_. True) (\<lambda>_ _. 0) 0 (load_from_new_api (\<lambda>_. NetworkError) 0) (load_start (app_init ''date'' Map.empty))) = [] \<and>
   current_error (load_finish (\<lambda>_. True) (\<lambda>_ _. 0) 0 (load_from_new_api (\<lambda>_. NetworkError) 0) (load_start (app_init ''date'' Map.empty))) = Some load_error_message \<and>
   table (load_finish (\<lambda>_. True) (\<lambda>_ _. 0) 0 (load_from_new_api (\<lambda>_. NetworkError) 0) (load_start (app_init ''date'' Map.empty))) = []"
  using failed_load_keeps_data [of "\<lambda>_. NetworkError" "\<lambda>_. True" "\<lambda>_ _. 0" 0 "app_init ''date'' Map.empty"]
  by (simp add: fetch_commodity_price_def app_init_def load_start_def)
text \<open>
  C18. A load in which every fetched record is dropped by the normaliser (a
  price that is not positive, or the unknown-name row) ends with no data, no
  error and the no-data banner: the spec's \<open>NoDataAvailable\<close> for a load with
  zero usable items is never raised.
\<close>

lemma all_dropped_no_error:
  assumes "fetched_items api default_commodities \<noteq> []"
    and "\<forall>x \<in> set (fetched_items api default_commodities). \<exists>r. normalize_item now x = Inr r \<and> \<not> retained r"
  shows "data (load_finish sel lc now (load_from_new_api api now) (load_start st)) = [] \<and>
         current_error (load_finish sel lc now (load_from_new_api api now) (load_start st)) = None \<and>
         no_data (load_finish sel lc now (load_from_new_api api now) (load_start st)) \<and>
         table (load_finish sel lc now (load_from_new_api api now) (load_start st)) = []"
proof -
  have "load_from_new_api api now = Inr []"
    using assms normalize_items_all_dropped by (simp add: load_from_new_api_def)
  then show ?thesis
    by (simp add: load_finish_def populate_filters_def update_stats_def apply_filters_app_def apply_filters_def
        render_table_def sort_data_def load_start_def)
qed

lemma all_dropped_no_error_witness:
  "data (load_finish (\<lambda>_. True) (\<lambda>_ _. 0) 0 (load_from_new_api (\<lambda>u. if u = api_url ''corn'' then Response True (Some (JArr [JObj [(''name'', JStr ''corn''), (''exchange'', JStr ''CBOT''),
        (''updated'', JNumber (Num 1700000000 0)), (''price'', JStr ''n/a'')]])) else Response False None) 0) (load_start (app_init ''date'' Map.empty))) = [] \<and>
   current_error (load_finish (\<lambda>_. True) (\<lambda>_ _. 0) 0 (load_from_new_api (\<lambda>u. if u = api_url ''corn'' then Response True (Some (JArr [JObj [(''name'', JStr ''corn''), (''exchange'', JStr ''CBOT''),
        (''updated'', JNumber (Num 1700000000 0)), (''price'', JStr ''n/a'')]])) else Response False None) 0) (load_start (app_init ''date'' Map.empty))) = None \<and>
   no_data (load_finish (\<lambda>_. True) (\<lambda>_ _. 0) 0 (load_from_new_api (\<lambda>u. if u = api_url ''corn'' then Response True (Some (JArr [JObj [(''name'', JStr ''corn''), (''exchange'', JStr ''CBOT''),
        (''updated'', JNumber (Num 1700000000 0)), (''price'', JStr ''n/a'')]])) else Response False None) 0) (load_start (app_init ''date'' Map.empty))) \<and>
   table (load_finish (\<lambda>_. True) (\<lambda>_ _. 0) 0 (load_from_new_api (\<lambda>u. if u = api_url ''corn'' then Response True (Some (JArr [JObj [(''name'', JStr ''corn''), (''exchange'', JStr ''CBOT''),
        (''updated'', JNumber (Num 1700000000 0)), (''price'', JStr ''n/a'')]])) else Response False None) 0) (load_start (app_init ''date'' Map.empty))) = []"
proof -
  have f: "fetched_items (\<lambda>u. if u = api_url ''corn'' then Response True (Some (JArr [JObj [(''name'', JStr ''corn''), (''exchange'', JStr ''CBOT''),
        (''updated'', JNumber (Num 1700000000 0)), (''price'', JStr ''n/a'')]])) else Response False None) default_commodities = [(JObj [(''name'', JStr ''corn''), (''exchange'', JStr ''CBOT''), (''updated'', JNumber (Num 1700000000 0)), (''price'', JStr ''n/a'')])]"
    by (simp add: fetched_items_def default_commodities_def api_url_def
        encode_uri_component_def uri_unreserved_def char_defs fetch_commodity_price_def js_or_def)
  have n: "\<exists>r. normalize_item 0 (JObj [(''name'', JStr ''corn''), (''exchange'', JStr ''CBOT''), (''updated'', JNumber (Num 1700000000 0)), (''price'', JStr ''n/a'')]) = Inr r \<and> \<not> retained r"
    by (simp add: normalize_defs js_simps)
  show ?thesis
    using all_dropped_no_error [of "\<lambda>u. if u = api_url ''corn'' then Response True (Some (JArr [JObj [(''name'', JStr ''corn''), (''exchange'', JStr ''CBOT''),
        (''updated'', JNumber (Num 1700000000 0)), (''price'', JStr ''n/a'')]])) else Response False None" 0 "\<lambda>_. True" "\<lambda>_ _. 0" "app_init ''date'' Map.empty"] f n by simp
qed

text \<open>
  C19. Loads overlap without coordination: when a retry starts while another load is
  suspended, the first load to settle clears the loading flag although a load is
  still pending.
\<close>

lemma overlapping_load_clears_flag:
  assumes "0 < pending st"
  shows "\<not> is_loading (load_finish sel lc now r (load_start st)) \<and> 0 < pending (load_finish sel lc now r (load_start st))"
  using assms by simp

lemma overlapping_load_clears_flag_witness:
  "\<not> is_loading (load_finish (\<lambda>_. True) (\<lambda>_ _. 0) 0 (Inl NoCommodityPrices) (load_start (app_init ''date'' Map.empty))) \<and>
   0 < pending (load_finish (\<lambda>_. True) (\<lambda>_ _. 0) 0 (Inl NoCommodityPrices) (load_start (app_init ''date'' Map.empty)))"
  by (rule overlapping_load_clears_flag) (simp add: app_init_def load_start_def)

text \<open>
  C20. The search input is debounced: a burst of input events followed by the timer
  has the effect of the last input followed by the timer, so the subset is
  recomputed once, for the final text.
\<close>

lemma search_debounce:
  assumes "ss \<noteq> []"
  shows "app_run sel lc now (map SearchInput ss @ [SearchTimer]) st = app_run sel lc now [SearchInput (last ss), SearchTimer] st"
  using assms
proof (induction ss arbitrary: st rule: list_nonempty_induct)
  case (single s)
  then show ?case by simp
next
  case (cons s ss)
  have "app_run sel lc now (map SearchInput (s # ss) @ [SearchTimer]) st =
        app_run sel lc now (map SearchInput ss @ [SearchTimer]) (fst (app_event sel lc now (SearchInput s) st))"
    by (simp add: app_event_def)
  also have "\<dots> = app_run sel lc now [SearchInput (last ss), SearchTimer] (fst (app_event sel lc now (SearchInput s) st))"
    by (rule cons.IH)
  also have "\<dots> = app_run sel lc now [SearchInput (last (s # ss)), SearchTimer] st"
    using cons.hyps by (simp add: app_event_def)
  finally show ?case .
qed

lemma search_debounce_witness:
  "app_run (\<lambda>_. True) (\<lambda>_ _. 0) 0 (map SearchInput [''go'', ''gold''] @ [SearchTimer]) (app_init ''date'' Map.empty) =
   app_run (\<lambda>_. True) (\<lambda>_ _. 0) 0 [SearchInput (last [''go'', ''gold'']), SearchTimer] (app_init ''date'' Map.empty)"
  by (rule search_debounce) simp

text \<open>
  C21. A successful load resets the product and location selections to "All"
  (\<open>populateFilters\<close> replaces the options) while the search text and sort key stay.
\<close>

lemma load_resets_selection:
  "selected_product (controls (load_finish sel lc now (Inr rows) st)) = [] \<and>
   selected_region (controls (load_finish sel lc now (Inr rows) st)) = [] \<and>
   search_text (controls (load_finish sel lc now (Inr rows) st)) = search_text (controls st) \<and>
   sort_key_name (controls (load_finish sel lc now (Inr rows) st)) = sort_key_name (controls st)"
proof -
  let ?st1 = "populate_filters (update_stats now (st\<lparr>data := rows\<rparr>))"
  obtain st2 err where a: "apply_filters_app sel lc now ?st1 = (st2, err)" by fastforce
  have "controls st2 = controls ?st1" using apply_filters_app_controls [of sel lc now ?st1] a by simp
  then show ?thesis using a
    by (cases err) (simp_all add: load_finish_def show_error_def populate_filters_def update_stats_def)
qed

text \<open>
  C23. Liveness of loading: from a state satisfying the shell's invariant (every
  reachable state does, C15), once each suspended load has settled, whatever its
  outcome and at whatever time, no load is pending and the loading flag is clear.
\<close>

lemma loads_settle_clear_flag:
  assumes "app_inv st" and "length rs = pending st"
  shows "pending (fold (\<lambda>(t, r). load_finish sel lc t r) rs st) = 0 \<and>
         \<not> is_loading (fold (\<lambda>(t, r). load_finish sel lc t r) rs st)"
  using settle_all [of st rs sel lc] assms by (simp add: app_inv_def)

lemma loads_settle_clear_flag_witness:
  "pending (fold (\<lambda>(t, r). load_finish (\<lambda>_. True) (\<lambda>_ _. 0) t r) [(0, Inl NoCommodityPrices)] (app_init ''date'' Map.empty)) = 0 \<and>
   \<not> is_loading (fold (\<lambda>(t, r). load_finish (\<lambda>_. True) (\<lambda>_ _. 0) t r) [(0, Inl NoCommodityPrices)] (app_init ''date'' Map.empty))"
proof -
  have "app_inv (app_init ''date'' Map.empty)"
    by (simp add: app_inv_def rows_inv_def app_init_def load_start_def)
  moreover have "length [(0::int, Inl NoCommodityPrices :: error + item list)] = pending (app_init ''date'' Map.empty)"
    by (simp add: app_init_def load_start_def)
  ultimately show ?thesis
    by (rule loads_settle_clear_flag)
qed

text \<open>
  C27. The watchlist stars of a freshly rendered table are misplaced:
  \<open>renderTable\<close> calls \<open>updateWatchlistButton(name, true)\<close> for a row of a watched
  product before appending that row, so the call stars the earlier rows of the
  product and never the row itself. After any successful render, a row is shown
  starred exactly when its product is in the watchlist and a later row has the
  same product; a product listed once is never shown starred after a search, a
  filter change or a load.
\<close>

lemma render_table_stars:
  assumes "render_table sel st = (st', None)" and "j < length (table st')"
  shows "rv_starred (table st' ! j) \<longleftrightarrow>
           later_same (table st') j \<and> watch_star (watchlist (store st)) (productName (rv_item (table st' ! j))) = Inr True"
proof (cases "filtered st = []")
  case True
  then have "table st' = []" using assms(1) by (auto simp: render_table_def)
  then show ?thesis using assms(2) by simp
next
  case False
  then have r: "render_rows sel (filtered st) (watchlist (store st)) 0 [] (filtered st) = (table st', None)"
    using assms(1) by (auto simp: render_table_def split: prod.splits option.splits)
  have "stars_exact (watchlist (store st)) (table st')"
    by (rule render_rows_stars [OF r]) (simp add: stars_exact_def)
  then show ?thesis using assms(2) by (simp add: stars_exact_def)
qed

lemma render_table_stars_witness:
  "snd (render_table (\<lambda>_. True) ((app_init ''date'' Map.empty)\<lparr>filtered := [(0, \<lparr>productName = ''Corn'', price = Num 6975 2, currency = ''GHS'',
      location = JStr ''Chicago, Illinois'', date = ''2023-11-14'', source = ''API Ninjas'', usdPrice = Num 45 1\<rparr>)],
      store := \<lparr>watchlist = JArr [JObj [(''productName'', JStr ''Corn'')]], storage = Map.empty, notifications = []\<rparr>\<rparr>)) = None \<and>
   watch_star (JArr [JObj [(''productName'', JStr ''Corn'')]]) ''Corn'' = Inr True \<and>
   \<not> rv_starred (table (fst (render_table (\<lambda>_. True) ((app_init ''date'' Map.empty)\<lparr>filtered := [(0, \<lparr>productName = ''Corn'', price = Num 6975 2, currency = ''GHS'',
      location = JStr ''Chicago, Illinois'', date = ''2023-11-14'', source = ''API Ninjas'', usdPrice = Num 45 1\<rparr>)],
      store := \<lparr>watchlist = JArr [JObj [(''productName'', JStr ''Corn'')]], storage = Map.empty, notifications = []\<rparr>\<rparr>))) ! 0)"
proof -
  let ?it = "\<lparr>productName = ''Corn'', price = Num 6975 2, currency = ''GHS'',
      location = JStr ''Chicago, Illinois'', date = ''2023-11-14'', source = ''API Ninjas'', usdPrice = Num 45 1\<rparr>"
  let ?st = "(app_init ''date'' Map.empty)\<lparr>filtered := [(0, ?it)],
      store := \<lparr>watchlist = JArr [JObj [(''productName'', JStr ''Corn'')]], storage = Map.empty, notifications = []\<rparr>\<rparr>"
  let ?rv = "\<lparr>rv_index = 0, rv_item = ?it, rv_trend = ''stable'', rv_change = ''stable'', rv_starred = False\<rparr>"
  have w: "watch_star (JArr [JObj [(''productName'', JStr ''Corn'')]]) ''Corn'' = Inr True"
    by (simp add: watch_star_def)
  have r: "render_table (\<lambda>_. True) ?st = (?st\<lparr>table := [?rv], no_data := False\<rparr>, None)"
    using w by (simp add: render_table_def calculate_trend_def mark_starred_def)
  have "rv_starred ([?rv] ! 0) \<longleftrightarrow> later_same [?rv] 0 \<and> watch_star (JArr [JObj [(''productName'', JStr ''Corn'')]]) ''Corn'' = Inr True"
    using render_table_stars [OF r, of 0] by simp
  then show ?thesis using r w by (simp add: later_same_def)
qed

end
