(* ===== verification/Display.thy ===== *)
theory Display
  imports App
begin

text \<open>
  The text the table and the details modal display (\<open>src/script.js\<close>):
  \<open>escapeHtml\<close> (lines 646-650), \<open>formatPrice\<close> with \<open>Number::toFixed\<close> (565-580),
  \<open>formatDate\<close> (582-592), \<open>getTimeAgo\<close> (217-232), \<open>renderTrend\<close> (555-563) and
  \<open>getPriceChangeIndicator\<close> (206-215), put together into the cells of a table row
  (the template of lines 487-527) and the fields of the details modal (249-305).
  The host's locale services are parameters: the \<open>Intl.NumberFormat\<close> currency
  format, the local time zone offset and the \<open>en-US\<close> short date format.
\<close>

section \<open>escapeHtml\<close>

text \<open>
  \<open>div.textContent = text\<close> stores \<open>""\<close> for \<open>null\<close> and \<open>String(text)\<close> otherwise;
  reading \<open>div.innerHTML\<close> serialises the text node, which escapes \<open>&\<close>, \<open><\<close>,
  \<open>>\<close> and the no-break space (U+00A0, the bytes C2 A0) and nothing else.
\<close>

definition text_content :: "jsval \<Rightarrow> string" where
  "text_content v = (if v = JNull then [] else to_js_string v)"

fun html_escape :: "string \<Rightarrow> string" where
  "html_escape [] = []"
| "html_escape (c # cs) =
     (if c = CHR ''&'' then ''&amp;'' @ html_escape cs
      else if c = CHR ''<'' then ''&lt;'' @ html_escape cs
      else if c = CHR ''>'' then ''&gt;'' @ html_escape cs
      else if c = CHR 0xC2 \<and> take 1 cs = [CHR 0xA0] then ''&nbsp;'' @ html_escape (drop 1 cs)
      else c # html_escape cs)"

definition escape_html :: "jsval \<Rightarrow> string" where
  "escape_html v = html_escape (text_content v)"

text \<open>
  What the HTML parser makes of such text in element content: the four character
  references are decoded, every other byte stands for itself.
\<close>

fun html_unescape :: "string \<Rightarrow> string" where
  "html_unescape [] = []"
| "html_unescape (c # r) =
     (if c = CHR ''&'' \<and> take 4 r = ''amp;'' then CHR ''&'' # html_unescape (drop 4 r)
      else if c = CHR ''&'' \<and> take 3 r = ''lt;'' then CHR ''<'' # html_unescape (drop 3 r)
      else if c = CHR ''&'' \<and> take 3 r = ''gt;'' then CHR ''>'' # html_unescape (drop 3 r)
      else if c = CHR ''&'' \<and> take 5 r = ''nbsp;'' then CHR 0xC2 # CHR 0xA0 # html_unescape (drop 5 r)
      else c # html_unescape r)"

section \<open>Number::toFixed and formatPrice\<close>

text \<open>
  \<open>x.toFixed(f)\<close> (ECMA-262 21.1.3.3): a non-finite \<open>x\<close> is written as by
  \<open>String\<close>; otherwise the sign is written first, a magnitude of \<open>1e21\<close> or
  more is written as by \<open>String\<close>, and a smaller one as the integer \<open>n\<close> nearest
  to \<open>x \<times> 10^f\<close> (the larger one on a tie), with a point before its last \<open>f\<close>
  digits after padding it with zeros to at least \<open>f + 1\<close> digits. On an exact
  decimal \<open>m / 10^k\<close> of magnitude \<open>a / 10^k\<close>, \<open>n\<close> is \<open>(2a10^f + 10^k) div (2 \<times> 10^k)\<close>.
\<close>

definition fixed_point :: "nat \<Rightarrow> nat \<Rightarrow> string" where
  "fixed_point f n =
     (let m = nat_digits n in
      if f = 0 then m
      else (let m' = (if length m \<le> f then replicate (f + 1 - length m) CHR ''0'' @ m else m);
                k = length m'
            in take (k - f) m' @ ''.'' @ drop (k - f) m'))"

definition to_fixed :: "nat \<Rightarrow> jsnum \<Rightarrow> string" where
  "to_fixed f x =
    (case x of
       Num m k \<Rightarrow>
         (let s = (if m < 0 then ''-'' else []); a = nat \<bar>m\<bar> in
          if 10 ^ 21 * 10 ^ k \<le> a then s @ num_to_string (Num (int a) k)
          else s @ fixed_point f ((2 * a * 10 ^ f + 10 ^ k) div (2 * 10 ^ k)))
     | _ \<Rightarrow> num_to_string x)"

text \<open>
  \<open>formatPrice(price, currency)\<close>: \<open>N/A\<close> for \<open>NaN\<close> (every price of the model is a
  number); \<open>GH\<close>, the cedi sign (U+20B5, the bytes E2 82 B5), a space and
  \<open>price.toFixed(2)\<close> for \<open>GHS\<close>; otherwise the host's \<open>Intl.NumberFormat('en-US',
  {style: 'currency', currency: currency || 'USD', minimumFractionDigits: 2})\<close>,
  the parameter \<open>intl\<close>, whose constructor throws a \<open>RangeError\<close> on a currency
  code that is not three ASCII letters (ECMA-402 \<open>IsWellFormedCurrencyCode\<close>).
\<close>

type_synonym number_format = "string \<Rightarrow> jsnum \<Rightarrow> string"

definition ghs_sign :: string where
  "ghs_sign = ''GH'' @ [CHR 0xE2, CHR 0x82, CHR 0xB5]"

definition well_formed_currency :: "string \<Rightarrow> bool" where
  "well_formed_currency c \<longleftrightarrow> length c = 3 \<and> list_all (\<lambda>x. is_upper x \<or> is_lower x) c"

definition format_price :: "number_format \<Rightarrow> jsnum \<Rightarrow> string \<Rightarrow> error + string" where
  "format_price intl p cur =
    (if js_is_nan p then Inr ''N/A''
     else if cur = ''GHS'' then Inr (ghs_sign @ '' '' @ to_fixed 2 p)
     else (let c = (if cur = [] then ''USD'' else cur) in
           if well_formed_currency c then Inr (intl c p) else Inl RangeError))"

text \<open>\<open>$${item.usdPrice?.toFixed(2) || 'N/A'}\<close>: the text after the dollar sign.\<close>

definition usd_text :: "jsnum \<Rightarrow> string" where
  "usd_text u = (let s = to_fixed 2 u in if s = [] then ''N/A'' else s)"

section \<open>Trend icons and the price-change indicator\<close>

text \<open>
  \<open>renderTrend(trend)\<close>: \<open>icons[trend] || icons.stable\<close> on an object literal, read
  as \<open>literal_get\<close> reads one (a key of \<open>Object.prototype\<close> finds its member).
\<close>

definition trend_icons :: "(string \<times> string) list" where
  \<open>trend_icons =
     [(''up'', ''<i class="fas fa-arrow-up trend-up"></i>''),
      (''down'', ''<i class="fas fa-arrow-down trend-down"></i>''),
      (''stable'', ''<i class="fas fa-minus trend-stable"></i>'')]\<close>

definition render_trend :: "string \<Rightarrow> string" where
  "render_trend t = to_js_string (js_or (literal_get trend_icons t) (literal_get trend_icons ''stable''))"

text \<open>
  The markup of \<open>getPriceChangeIndicator\<close> for the trend \<open>calculateTrend(item,
  this.data.indexOf(item))\<close> (the arrows U+2197, U+2198 and U+2192 in UTF-8); the
  trend itself, and the exception it can throw, is \<open>rv_change\<close> of the row (theory
  \<open>App\<close>).
\<close>

definition change_indicators :: "(string \<times> string) list" where
  \<open>change_indicators =
     [(''up'', ''<span class="price-up">'' @ [CHR 0xE2, CHR 0x86, CHR 0x97] @ '' +2.5%</span>''),
      (''down'', ''<span class="price-down">'' @ [CHR 0xE2, CHR 0x86, CHR 0x98] @ '' -1.8%</span>''),
      (''stable'', ''<span class="price-stable">'' @ [CHR 0xE2, CHR 0x86, CHR 0x92] @ '' 0.0%</span>'')]\<close>

definition change_indicator :: "string \<Rightarrow> string" where
  "change_indicator t =
     to_js_string (js_or (literal_get change_indicators t) (literal_get change_indicators ''stable''))"

section \<open>formatDate and getTimeAgo\<close>

text \<open>
  \<open>new Date(dateString).toLocaleDateString('en-US', {year: 'numeric', month:
  'short', day: 'numeric'})\<close>: \<open>Invalid Date\<close> for an unparsable string (the
  \<open>catch\<close> is never taken); otherwise the calendar day of the local time
  \<open>t + tz t\<close>, with \<open>tz\<close> the host's offset from UTC in milliseconds
  (\<open>LocalTZA\<close>), written \<open>MMM d, y\<close> with the year of the era.
\<close>

type_synonym tz_offset = "int \<Rightarrow> int"

definition month_abbr :: "string list" where
  "month_abbr = [''Jan'', ''Feb'', ''Mar'', ''Apr'', ''May'', ''Jun'', ''Jul'', ''Aug'', ''Sep'', ''Oct'', ''Nov'', ''Dec'']"

definition en_us_date :: "int \<times> int \<times> int \<Rightarrow> string" where
  "en_us_date ymd =
    (case ymd of (y, m, d) \<Rightarrow>
       month_abbr ! nat (m - 1) @ '' '' @ nat_digits (nat d) @ '', '' @ nat_digits (nat (if 0 < y then y else 1 - y)))"

definition format_date :: "tz_offset \<Rightarrow> string \<Rightarrow> string" where
  "format_date tz s =
    (case parse_iso_date s of
       None \<Rightarrow> ''Invalid Date''
     | Some tv \<Rightarrow> en_us_date (civil_from_days ((tv + tz tv) div ms_per_day)))"

text \<open>
  \<open>getTimeAgo(dateString)\<close> at clock time \<open>now\<close>: \<open>now - date\<close> in milliseconds,
  floored to minutes, hours and days; on an invalid date every quotient is
  \<open>NaN\<close>, no comparison holds, and the text is \<open>NaNd ago\<close>.
\<close>

definition int_text :: "int \<Rightarrow> string" where
  "int_text x = num_to_string (Num x 0)"

definition ago_text :: "int \<Rightarrow> string" where
  "ago_text diff =
    (if diff div 60000 < 60 then int_text (diff div 60000) @ ''m ago''
     else if diff div 3600000 < 24 then int_text (diff div 3600000) @ ''h ago''
     else int_text (diff div 86400000) @ ''d ago'')"

definition time_ago :: "int \<Rightarrow> string \<Rightarrow> string" where
  "time_ago now s =
    (case parse_iso_date s of
       None \<Rightarrow> ''NaNd ago''
     | Some tv \<Rightarrow> ago_text (now - tv))"

section \<open>A table row\<close>

text \<open>
  The values the template of \<open>renderTable\<close> (lines 487-527) interpolates into a row,
  in the order it evaluates them; \<open>formatPrice\<close> is the one that can throw. The
  fixed markup around them is not represented, except that \<open>cell_commodity\<close> is the
  text between the double quotes of the two \<open>data-commodity\<close> attributes.
\<close>

record row_text =
  cell_name :: string
  cell_category :: string
  cell_price :: string
  cell_usd :: string
  cell_change :: string
  cell_location :: string
  cell_date :: string
  cell_ago :: string
  cell_trend :: string
  cell_commodity :: string

definition row_cells :: "number_format \<Rightarrow> tz_offset \<Rightarrow> int \<Rightarrow> row_view \<Rightarrow> error + row_text" where
  "row_cells intl tz now rv =
    (let it = rv_item rv in
     case format_price intl (price it) (currency it) of
       Inl e \<Rightarrow> Inl e
     | Inr p \<Rightarrow>
         Inr \<lparr>cell_name = escape_html (JStr (productName it)),
              cell_category = to_js_string (get_commodity_category (productName it)),
              cell_price = p, cell_usd = usd_text (usdPrice it),
              cell_change = change_indicator (rv_change rv),
              cell_location = escape_html (location it),
              cell_date = format_date tz (date it), cell_ago = time_ago now (date it),
              cell_trend = render_trend (rv_trend rv),
              cell_commodity = escape_html (JStr (productName it))\<rparr>)"

text \<open>
  The value of such an attribute as the HTML parser reads it: the attribute ends at
  the first double quote, and the character references in it are decoded.
\<close>

definition attr_value :: "string \<Rightarrow> string" where
  "attr_value s = html_unescape (takeWhile (\<lambda>c. c \<noteq> CHR 0x22) s)"

section \<open>The details modal\<close>

text \<open>
  \<open>createCommodityDetailsModal(item)\<close> (lines 249-305): the values of its template.
  The trend is \<open>calculateTrend(item, 0)\<close>; the rate is \<open>${this.usdToGhsRate}\<close>; the
  footer button's \<open>onclick\<close> text is \<open>JSON.stringify(item)\<close> with every double
  quote replaced by \<open>&quot;\<close>. \<open>item.source\<close> is interpolated without escaping.
\<close>

record modal_view =
  md_name :: string
  md_price :: string
  md_usd :: string
  md_location :: string
  md_category :: string
  md_date :: string
  md_ago :: string
  md_source :: string
  md_trend :: string
  md_rate :: string
  md_onclick :: string

definition quot_escape :: "string \<Rightarrow> string" where
  "quot_escape s = concat (map (\<lambda>c. if c = CHR 0x22 then ''&quot;'' else [c]) s)"

definition commodity_modal ::
  "number_format \<Rightarrow> tz_offset \<Rightarrow> int \<Rightarrow> (nat \<times> item) list \<Rightarrow> item \<Rightarrow> error + modal_view" where
  "commodity_modal intl tz now fl it =
    (case format_price intl (price it) (currency it) of
       Inl e \<Rightarrow> Inl e
     | Inr p \<Rightarrow>
         (case calculate_trend fl it 0 of
            Inl e \<Rightarrow> Inl e
          | Inr tr \<Rightarrow>
              (case json_stringify (JObj (item_props it)) of
                 None \<Rightarrow> Inl TypeError
               | Some j \<Rightarrow>
                   Inr \<lparr>md_name = escape_html (JStr (productName it)), md_price = p,
                        md_usd = usd_text (usdPrice it), md_location = escape_html (location it),
                        md_category = to_js_string (get_commodity_category (productName it)),
                        md_date = format_date tz (date it), md_ago = time_ago now (date it),
                        md_source = source it, md_trend = render_trend tr,
                        md_rate = num_to_string usd_to_ghs_rate, md_onclick = quot_escape j\<rparr>)))"

section \<open>Lemmas\<close>

lemma html_escape_no_tags: "CHR ''<'' \<notin> set (html_escape s) \<and> CHR ''>'' \<notin> set (html_escape s)"
  by (induction s rule: html_escape.induct) auto

lemma html_escape_quote: "CHR 0x22 \<in> set (html_escape s) \<longleftrightarrow> CHR 0x22 \<in> set s"
proof (induction s rule: html_escape.induct)
  case (2 c cs)
  show ?case
  proof (cases "c = CHR 0xC2 \<and> take 1 cs = [CHR 0xA0]")
    case True
    then obtain ds where "cs = CHR 0xA0 # ds" by (cases cs) auto
    then show ?thesis using True "2.IH" by simp
  next
    case False
    then show ?thesis using "2.IH" by auto
  qed
qed simp

lemma html_unescape_escape: "html_unescape (html_escape s) = s"
proof (induction s rule: html_escape.induct)
  case (2 c cs)
  show ?case
  proof (cases "c = CHR 0xC2 \<and> take 1 cs = [CHR 0xA0]")
    case True
    then obtain ds where "cs = CHR 0xA0 # ds" by (cases cs) auto
    then show ?thesis using True "2.IH" by simp
  next
    case False
    then show ?thesis using "2.IH" by auto
  qed
qed simp

lemma fixed_point_shape:
  "\<exists>ip fp. fixed_point f n = ip @ (if fp = [] then [] else CHR ''.'' # fp) \<and> ip \<noteq> [] \<and>
     list_all is_digit ip \<and> list_all is_digit fp \<and> length fp = f \<and> digits_val (ip @ fp) = n"
proof (cases "f = 0")
  case True
  then show ?thesis using nat_digits_props [of n]
    by (intro exI [of _ "nat_digits n"] exI [of _ "[]"]) (simp add: fixed_point_def)
next
  case False
  let ?m = "nat_digits n"
  define m' where "m' = (if length ?m \<le> f then replicate (f + 1 - length ?m) CHR ''0'' @ ?m else ?m)"
  have len: "f < length m'" using False by (auto simp: m'_def)
  have dg: "list_all is_digit m'" using nat_digits_props [of n] by (auto simp: m'_def list_all_iff)
  have v: "digits_val m' = n" by (simp add: m'_def)
  let ?ip = "take (length m' - f) m'" and ?fp = "drop (length m' - f) m'"
  have "fixed_point f n = ?ip @ ''.'' @ ?fp"
    unfolding fixed_point_def Let_def m'_def [symmetric] using False by simp
  then have f: "fixed_point f n = ?ip @ (if ?fp = [] then [] else CHR ''.'' # ?fp)"
    using len False by auto
  have "?ip \<noteq> []" "length ?fp = f" using len False by auto
  moreover have "list_all is_digit ?ip" "list_all is_digit ?fp"
    using dg by (auto simp: list_all_iff dest: in_set_takeD in_set_dropD)
  ultimately show ?thesis using f v by (intro exI [of _ ?ip] exI [of _ ?fp]) simp
qed

lemma num_val_js_neg_Num [simp]: "num_val (js_neg (Num m k)) = Some (- dec_val m k)"
  by (simp add: dec_val_neg)

lemma parse_float_fixed_point:
  assumes "s \<in> {[], ''-''}"
  shows "num_val (parse_float (s @ fixed_point f n)) = Some ((if s = ''-'' then -1 else 1) * of_nat n / 10 ^ f)"
proof -
  obtain ip fp where e: "fixed_point f n = ip @ (if fp = [] then [] else CHR ''.'' # fp)"
      and p: "ip \<noteq> []" "list_all is_digit ip" "list_all is_digit fp" "length fp = f" "digits_val (ip @ fp) = n"
    using fixed_point_shape [of f n] by blast
  have sc: "scan_unsigned (fixed_point f n) = Some (scale_num n f 0, [])"
    using scan_unsigned_shape [OF p(1-3), of "[]"] e p(4,5) by simp
  have val: "num_val (scale_num n f 0) = Some (of_nat n / 10 ^ f)"
    by (simp add: num_val_scale_num' power_int_minus divide_inverse)
  obtain c r where cr: "fixed_point f n = c # r" "is_digit c" using e p(1,2) by (cases ip) auto
  have nsp: "\<not> is_space c" "c \<noteq> CHR ''-''" "c \<noteq> CHR ''+''" using cr(2) digit_no_space by (auto simp: is_digit_def)
  obtain a b where ab: "scale_num n f 0 = Num a b" by (simp add: scale_num_def)
  from assms show ?thesis
  proof (elim insertE emptyE)
    assume "s = []"
    then show ?thesis using sc val cr nsp by (simp add: parse_float_def scan_decimal_def)
  next
    assume "s = ''-''"
    then show ?thesis using sc val cr nsp ab by (simp add: parse_float_def scan_decimal_def is_space_def dec_val_neg)
  qed
qed

lemma round_half_bound:
  fixes a k f :: nat
  shows "\<bar>(of_nat ((2 * a * 10 ^ f + 10 ^ k) div (2 * 10 ^ k)) :: rat) / 10 ^ f - of_nat a / 10 ^ k\<bar> \<le> 1 / (2 * 10 ^ f)"
proof -
  define N where "N = 2 * a * 10 ^ f + 10 ^ k"
  define D :: nat where "D = 2 * 10 ^ k"
  define n where "n = N div D"
  have D0: "0 < D" by (simp add: D_def)
  have lo: "n * D \<le> N" by (simp add: n_def)
  have hi: "N < n * D + D" using D0 by (simp add: n_def) (metis div_mult_mod_eq mod_less_divisor nat_add_left_cancel_less)
  have "2 * n * 10 ^ k \<le> 2 * a * 10 ^ f + 10 ^ k" using lo by (simp add: N_def D_def mult_ac)
  then have "(of_nat (2 * n * 10 ^ k) :: rat) \<le> of_nat (2 * a * 10 ^ f + 10 ^ k)" by (simp only: of_nat_le_iff)
  then have lo': "2 * of_nat n * 10 ^ k \<le> 2 * of_nat a * 10 ^ f + (10 ^ k :: rat)" by simp
  have "2 * a * 10 ^ f + 10 ^ k < 2 * n * 10 ^ k + 2 * 10 ^ k" using hi by (simp add: N_def D_def mult_ac)
  then have "(of_nat (2 * a * 10 ^ f + 10 ^ k) :: rat) < of_nat (2 * n * 10 ^ k + 2 * 10 ^ k)" by (simp only: of_nat_less_iff)
  then have hi': "2 * of_nat a * 10 ^ f + (10 ^ k :: rat) < 2 * of_nat n * 10 ^ k + 2 * 10 ^ k" by simp
  have p: "(0::rat) < 10 ^ f" "(0::rat) < 10 ^ k" by simp_all
  have "of_nat n / 10 ^ f - of_nat a / 10 ^ k = (2 * of_nat n * 10 ^ k - 2 * of_nat a * 10 ^ f) / (2 * 10 ^ f * 10 ^ k :: rat)"
    using p by (simp add: field_simps)
  then have "\<bar>of_nat n / 10 ^ f - of_nat a / 10 ^ k\<bar> = \<bar>2 * of_nat n * 10 ^ k - 2 * of_nat a * 10 ^ f\<bar> / (2 * 10 ^ f * 10 ^ k :: rat)"
    using p by (simp add: abs_divide)
  also have "\<dots> \<le> 10 ^ k / (2 * 10 ^ f * 10 ^ k)"
    using lo' hi' p by (intro divide_right_mono) (simp_all add: abs_le_iff)
  also have "\<dots> = 1 / (2 * 10 ^ f)" using p by (simp add: field_simps)
  finally show ?thesis by (simp add: n_def N_def D_def)
qed

lemma html_escape_takeWhile_quote:
  "takeWhile (\<lambda>x. x \<noteq> CHR 0x22) (html_escape s) = html_escape (takeWhile (\<lambda>x. x \<noteq> CHR 0x22) s)"
proof (induction s rule: html_escape.induct)
  case (2 c cs)
  show ?case
  proof (cases "c = CHR 0xC2 \<and> take 1 cs = [CHR 0xA0]")
    case True
    then obtain r where "cs = CHR 0xA0 # r" by (cases cs) auto
    then show ?thesis using 2 True by simp
  next
    case False
    have "\<not> (c = CHR 0xC2 \<and> take 1 (takeWhile (\<lambda>x. x \<noteq> CHR 0x22) cs) = [CHR 0xA0])"
      using False by (cases cs) auto
    then show ?thesis using 2 False by auto
  qed
qed simp

lemma attr_value_escape: "attr_value (html_escape s) = takeWhile (\<lambda>x. x \<noteq> CHR 0x22) s"
  by (simp add: attr_value_def html_escape_takeWhile_quote html_unescape_escape)

lemma to_fixed_read_back:
  assumes "\<bar>dec_val m k\<bar> < 10 ^ 21"
  shows "\<exists>v. num_val (parse_float (to_fixed f (Num m k))) = Some v \<and> \<bar>v - dec_val m k\<bar> \<le> 1 / (2 * 10 ^ f)"
proof -
  define a where "a = nat \<bar>m\<bar>"
  have dv: "\<bar>dec_val m k\<bar> = of_nat a / 10 ^ k" by (simp add: dec_val_def a_def abs_divide)
  have small: "\<not> 10 ^ 21 * 10 ^ k \<le> a"
  proof
    assume "10 ^ 21 * 10 ^ k \<le> a"
    then have "(of_nat (10 ^ 21 * 10 ^ k) :: rat) \<le> of_nat a" by (simp only: of_nat_le_iff)
    then have "10 ^ 21 \<le> (of_nat a :: rat) / 10 ^ k" by (simp add: field_simps)
    then show False using assms dv by simp
  qed
  define n where "n = (2 * a * 10 ^ f + 10 ^ k) div (2 * 10 ^ k)"
  have tf: "to_fixed f (Num m k) = (if m < 0 then ''-'' else []) @ fixed_point f n"
    using small by (simp add: to_fixed_def a_def n_def Let_def)
  have rb: "\<bar>of_nat n / 10 ^ f - of_nat a / 10 ^ k\<bar> \<le> (1 :: rat) / (2 * 10 ^ f)"
    using round_half_bound [of a f k] by (simp add: n_def)
  show ?thesis
  proof (cases "m < 0")
    case True
    then have "dec_val m k = - (of_nat a / 10 ^ k)" by (simp add: dec_val_def a_def)
    moreover have "num_val (parse_float (to_fixed f (Num m k))) = Some (- (of_nat n / 10 ^ f))"
      using parse_float_fixed_point [of "''-''" f n] True tf by simp
    ultimately show ?thesis using rb by (simp add: abs_minus_commute)
  next
    case False
    then have "dec_val m k = of_nat a / 10 ^ k" by (simp add: dec_val_def a_def)
    moreover have "num_val (parse_float (to_fixed f (Num m k))) = Some (of_nat n / 10 ^ f)"
      using parse_float_fixed_point [of "[]" f n] False tf by simp
    ultimately show ?thesis using rb by simp
  qed
qed

lemma parse_iso_date_midnight: "parse_iso_date s = Some tv \<Longrightarrow> ms_per_day dvd tv"
  by (auto simp: parse_iso_date_def Let_def split: option.splits list.splits if_splits)

lemma local_day_shift:
  assumes "ms_per_day dvd tv" and "- ms_per_day \<le> off" and "off < ms_per_day"
  shows "(tv + off) div ms_per_day = tv div ms_per_day - (if off < 0 then 1 else 0)"
proof -
  obtain q where q: "tv = ms_per_day * q" using assms(1) by blast
  have "(tv + off) div ms_per_day = q + off div ms_per_day" by (simp add: q ms_per_day_def add.commute)
  moreover have "off div ms_per_day = (if off < 0 then -1 else 0)"
  proof (cases "off < 0")
    case True
    have "(- ms_per_day) div ms_per_day \<le> off div ms_per_day" using assms(2) by (rule zdiv_mono1) (simp add: ms_per_day_def)
    moreover have "off div ms_per_day < 0" using True by (simp add: ms_per_day_def pos_imp_zdiv_neg_iff)
    ultimately show ?thesis using True by (simp add: ms_per_day_def)
  qed (use assms(3) in \<open>simp add: ms_per_day_def\<close>)
  ultimately show ?thesis by (simp add: q ms_per_day_def)
qed

lemma format_price_ghs: "\<not> js_is_nan p \<Longrightarrow> format_price intl p ''GHS'' = Inr (ghs_sign @ '' '' @ to_fixed 2 p)"
  by (simp add: format_price_def)

lemma row_cells_Inr:
  "row_cells intl tz now rv = Inr c \<Longrightarrow>
     cell_commodity c = escape_html (JStr (productName (rv_item rv))) \<and>
     cell_name c = escape_html (JStr (productName (rv_item rv))) \<and>
     cell_location c = escape_html (location (rv_item rv))"
  by (auto simp: row_cells_def Let_def split: sum.splits)

lemma retained_not_nan: "retained r \<Longrightarrow> \<not> js_is_nan (price r)"
  by (cases "price r") (auto simp: retained_def)

lemmas iso_parse_defs = parse_iso_date_def parse_year_def all_digits_def days_from_civil_def
  days_of_shifted_def days_of_yoe_def ms_per_day_def max_time_def

lemma quot_escape_no_quote: "CHR 0x22 \<notin> set (quot_escape s)"
  by (induction s) (auto simp: quot_escape_def)

text \<open>
  The modal: its trend is always \<open>calculateTrend(item, 0)\<close>, the stable icon, and
  its \<open>onclick\<close> text has no double quote left to end the attribute early.
\<close>

lemma modal_trend_stable:
  "commodity_modal intl tz now fl it = Inr m \<Longrightarrow>
     md_trend m = render_trend ''stable'' \<and> CHR 0x22 \<notin> set (md_onclick m)"
  by (auto simp: commodity_modal_def calculate_trend_def quot_escape_no_quote split: sum.splits option.splits)

text \<open>
  In general: the age a row shows at clock time \<open>t\<close> is measured from the UTC
  midnight of the day of its record's time \<open>u\<close>, not from \<open>u\<close>.
\<close>

lemma time_ago_row:
  assumes "normalize_item now raw = Inr it" and "\<bar>now\<bar> \<le> max_time"
  shows "\<exists>u. updated_date now raw = Some u \<and> time_ago t (date it) = ago_text (t - u div ms_per_day * ms_per_day)"
proof -
  obtain u where u: "updated_date now raw = Some u" "date it = iso_date u" "\<bar>u\<bar> \<le> max_time"
    using normalize_item_time [OF assms] by blast
  then show ?thesis using parse_iso_date_iso_date [OF u(3)] by (simp add: time_ago_def)
qed

text \<open>
  \<open>getTimeAgo\<close> measures from the UTC midnight of the row's date, not from the
  record's timestamp: corn updated at 23:50 UTC on 1 March 2024, seen five minutes
  later, is shown as updated 23 hours ago.
\<close>

lemma time_ago_from_midnight:
  "\<exists>it. normalize_item now (JObj [(''name'', JStr ''corn''), (''exchange'', JStr ''CBOT''),
      (''updated'', JNumber (Num 1709337000 0)), (''price'', JNumber (Num 45 1))]) = Inr it \<and>
    date it = ''2024-03-01'' \<and> time_ago 1709337300000 (date it) = ''23h ago''"
  by (simp add: normalize_defs js_simps time_ago_def ago_text_def int_text_def iso_parse_defs)

section \<open>Properties of the display\<close>

text \<open>
  C28. The \<open>data-commodity\<close> attribute of a rendered row, as the HTML parser reads
  it back, is the product name up to its first double quote: it is the product name
  exactly when the name has no double quote, because \<open>escapeHtml\<close> escapes
  \<open>&\<close>, \<open><\<close> and \<open>>\<close> but not the quote. The name and location cells contain no
  markup.
\<close>

theorem row_commodity_attribute:
  assumes "row_cells intl tz now rv = Inr c"
  shows "attr_value (cell_commodity c) = takeWhile (\<lambda>x. x \<noteq> CHR 0x22) (productName (rv_item rv)) \<and>
         (attr_value (cell_commodity c) = productName (rv_item rv) \<longleftrightarrow> CHR 0x22 \<notin> set (productName (rv_item rv))) \<and>
         CHR ''<'' \<notin> set (cell_name c) \<and> CHR ''<'' \<notin> set (cell_location c)"
  using row_cells_Inr [OF assms] html_escape_no_tags
  by (auto simp: escape_html_def text_content_def attr_value_escape takeWhile_eq_all_conv)

theorem row_commodity_attribute_witness:
  \<open>\<exists>c. row_cells (\<lambda>_ _. []) (\<lambda>_. 0) 0
         \<lparr>rv_index = 0, rv_item = \<lparr>productName = ''Corn "Futures"'', price = Num 62 0, currency = ''GHS'',
            location = JStr ''Chicago, Illinois'', date = ''2024-03-01'', source = ''API Ninjas'', usdPrice = Num 4 0\<rparr>,
          rv_trend = ''stable'', rv_change = ''stable'', rv_starred = False\<rparr> = Inr c \<and>
       attr_value (cell_commodity c) = ''Corn ''\<close>
proof -
  let ?rv = \<open>\<lparr>rv_index = 0, rv_item = \<lparr>productName = ''Corn "Futures"'', price = Num 62 0, currency = ''GHS'',
            location = JStr ''Chicago, Illinois'', date = ''2024-03-01'', source = ''API Ninjas'', usdPrice = Num 4 0\<rparr>,
          rv_trend = ''stable'', rv_change = ''stable'', rv_starred = False\<rparr>\<close>
  have "\<exists>c. row_cells (\<lambda>_ _. []) (\<lambda>_. 0) 0 ?rv = Inr c" by (simp add: row_cells_def format_price_def)
  then obtain c where c: "row_cells (\<lambda>_ _. []) (\<lambda>_. 0) 0 ?rv = Inr c" by blast
  show ?thesis using row_commodity_attribute [OF c] c by auto
qed

text \<open>
  C29. The price cell of a GHS price below \<open>1e21\<close> is the cedi sign and a decimal
  text that reads back within half a pesewa of the price (\<open>toFixed(2)\<close> rounds to
  the nearest hundredth).
\<close>

theorem format_price_ghs_bound:
  assumes "\<bar>dec_val m k\<bar> < 10 ^ 21"
  shows "\<exists>t v. format_price intl (Num m k) ''GHS'' = Inr (ghs_sign @ '' '' @ t) \<and>
           num_val (parse_float t) = Some v \<and> \<bar>v - dec_val m k\<bar> \<le> 1 / 200"
  using to_fixed_read_back [OF assms, of 2] by (simp add: format_price_def)

theorem format_price_ghs_bound_witness:
  "\<bar>dec_val 12345 3\<bar> < 10 ^ 21 \<and>
   (\<exists>t v. format_price (\<lambda>_ _. []) (Num 12345 3) ''GHS'' = Inr (ghs_sign @ '' '' @ t) \<and>
      num_val (parse_float t) = Some v \<and> \<bar>v - dec_val 12345 3\<bar> \<le> 1 / 200)"
  using format_price_ghs_bound [of 12345 3 "\<lambda>_ _. []"] by (simp add: dec_val_def)

text \<open>
  C30. \<open>formatDate\<close> shows a row's date as the calendar day of the local time:
  the normaliser writes the UTC day of the record's update time, which reads back
  as UTC midnight, so on a host behind UTC (an offset under a day) the table
  shows the day before the day of the update, and on a host at or ahead of UTC
  the day itself.
\<close>

theorem row_date_local_day:
  assumes "normalize_item now raw = Inr it" and "\<bar>now\<bar> \<le> max_time"
    and "\<forall>t. - ms_per_day \<le> tz t \<and> tz t < ms_per_day"
  shows "\<exists>u. updated_date now raw = Some u \<and>
           format_date tz (date it) =
             en_us_date (civil_from_days (u div ms_per_day - (if tz (u div ms_per_day * ms_per_day) < 0 then 1 else 0)))"
proof -
  obtain u where u: "updated_date now raw = Some u" "date it = iso_date u" "\<bar>u\<bar> \<le> max_time"
    using normalize_item_time [OF assms(1,2)] by blast
  have p: "parse_iso_date (date it) = Some (u div ms_per_day * ms_per_day)"
    using parse_iso_date_iso_date [OF u(3)] u(2) by simp
  have "(u div ms_per_day * ms_per_day + tz (u div ms_per_day * ms_per_day)) div ms_per_day =
        u div ms_per_day - (if tz (u div ms_per_day * ms_per_day) < 0 then 1 else 0)"
    using local_day_shift [OF parse_iso_date_midnight [OF p]] assms(3) by (simp add: ms_per_day_def)
  then show ?thesis using u(1) p by (simp add: format_date_def)
qed

theorem row_date_local_day_witness:
  "normalize_item 0 (JObj [(''name'', JStr ''corn''), (''exchange'', JStr ''CBOT''),
      (''updated'', JNumber (Num 1700000000 0)), (''price'', JNumber (Num 45 1))]) =
     Inr \<lparr>productName = ''Corn'', price = Num 6975 2, currency = ''GHS'',
         location = JStr ''Chicago, Illinois'', date = ''2023-11-14'', source = ''API Ninjas'',
         usdPrice = Num 45 1\<rparr> \<and>
   \<bar>0::int\<bar> \<le> max_time \<and> (\<forall>t. - ms_per_day \<le> (- 18000000 :: int) \<and> (- 18000000 :: int) < ms_per_day) \<and>
   format_date (\<lambda>_. - 18000000) ''2023-11-14'' = ''Nov 13, 2023''"
proof -
  have n: "normalize_item 0 (JObj [(''name'', JStr ''corn''), (''exchange'', JStr ''CBOT''),
      (''updated'', JNumber (Num 1700000000 0)), (''price'', JNumber (Num 45 1))]) =
     Inr \<lparr>productName = ''Corn'', price = Num 6975 2, currency = ''GHS'',
         location = JStr ''Chicago, Illinois'', date = ''2023-11-14'', source = ''API Ninjas'',
         usdPrice = Num 45 1\<rparr>"
    by (simp add: normalize_defs js_simps)
  have m: "\<bar>0::int\<bar> \<le> max_time" by (simp add: max_time_def)
  have z: "\<forall>t. - ms_per_day \<le> (- 18000000 :: int) \<and> (- 18000000 :: int) < ms_per_day" by (simp add: ms_per_day_def)
  have c: "updated_date 0 (JObj [(''name'', JStr ''corn''), (''exchange'', JStr ''CBOT''),
      (''updated'', JNumber (Num 1700000000 0)), (''price'', JNumber (Num 45 1))]) = Some 1700000000000"
    by (simp add: normalize_defs js_simps)
  from row_date_local_day [OF n m, of "\<lambda>_. - 18000000"] z c
  have "format_date (\<lambda>_. - 18000000) ''2023-11-14'' = en_us_date (civil_from_days 19674)"
    by (simp add: ms_per_day_def)
  also have "\<dots> = ''Nov 13, 2023''"
    by (simp add: civil_defs civil_of_doy_def civil_of_mp_def civil_ymd_def en_us_date_def month_abbr_def js_simps)
  finally show ?thesis using n m z by simp
qed

text \<open>
  C31. In every state satisfying the shell's invariant (C15), every row of the table
  renders without an exception, and its price cell is the cedi sign and
  \<open>price.toFixed(2)\<close>: the table never shows \<open>N/A\<close> for a price.
\<close>

theorem table_rows_render:
  assumes "app_inv st" and "rv \<in> set (table st)"
  shows "\<exists>c. row_cells intl tz now rv = Inr c \<and> cell_price c = ghs_sign @ '' '' @ to_fixed 2 (price (rv_item rv))"
proof -
  have "row_ok (rv_item rv)" using assms by (auto simp: app_inv_def rows_inv_def list_all_iff)
  then have "currency (rv_item rv) = ''GHS''" "\<not> js_is_nan (price (rv_item rv))"
    by (simp_all add: row_ok_def retained_not_nan)
  then show ?thesis by (simp add: row_cells_def format_price_def Let_def)
qed

theorem table_rows_render_witness:
  "app_inv ((app_init ''date'' Map.empty)\<lparr>table :=
      [\<lparr>rv_index = 0, rv_item = \<lparr>productName = ''Corn'', price = Num 6975 2, currency = ''GHS'',
          location = JStr ''Chicago, Illinois'', date = ''2023-11-14'', source = ''API Ninjas'', usdPrice = Num 45 1\<rparr>,
        rv_trend = ''stable'', rv_change = ''stable'', rv_starred = False\<rparr>]\<rparr>) \<and>
   (\<exists>c. row_cells (\<lambda>_ _. []) (\<lambda>_. 0) 0
      \<lparr>rv_index = 0, rv_item = \<lparr>productName = ''Corn'', price = Num 6975 2, currency = ''GHS'',
          location = JStr ''Chicago, Illinois'', date = ''2023-11-14'', source = ''API Ninjas'', usdPrice = Num 45 1\<rparr>,
        rv_trend = ''stable'', rv_change = ''stable'', rv_starred = False\<rparr> = Inr c \<and>
      cell_price c = ghs_sign @ '' 69.75'')"
  using table_rows_render [where st = "(app_init ''date'' Map.empty)\<lparr>table :=
      [\<lparr>rv_index = 0, rv_item = \<lparr>productName = ''Corn'', price = Num 6975 2, currency = ''GHS'',
          location = JStr ''Chicago, Illinois'', date = ''2023-11-14'', source = ''API Ninjas'', usdPrice = Num 45 1\<rparr>,
        rv_trend = ''stable'', rv_change = ''stable'', rv_starred = False\<rparr>]\<rparr>" and intl = "\<lambda>_ _. []" and tz = "\<lambda>_. 0" and now = 0]
  by (simp add: app_inv_def rows_inv_def row_ok_def retained_def app_init_def load_start_def
      to_fixed_def fixed_point_def js_simps digit_char_def)

end
