(* ===== verification/Spec2Isabelle.thy ===== *)
theory Spec2Isabelle
  imports Fetcher Filter_Sort Watchlist Display
begin

text \<open>
  A verification development for the price board of \<open>src/script.js\<close>, a single
  JavaScript class \<open>PriceBoardApp\<close> that fetches commodity prices from an external
  API, normalises them into display rows, filters and sorts the rows for a table,
  and keeps a watchlist in \<open>localStorage\<close>. The parts interact as the spec's data
  flow says: the fetcher's settled responses go to the normaliser, whose rows
  become \<open>this.data\<close>; every filter event recomputes the displayed subset from
  \<open>this.data\<close>; the watchlist is read once at start-up and written on each toggle,
  and the table's rows consult it for their star.

  Theories, in dependency order:
  \<^item> \<open>Prelude\<close>: the JavaScript values the program handles (\<open>jsnum\<close>, exact
    decimals with the infinities and \<open>NaN\<close>; \<open>jsval\<close>, JSON-like values and
    built-in functions), truthiness and \<open>||\<close>, property access, the error type,
    a \<open>map\<close> and a \<open>filter\<close> through which an exception propagates.
  \<^item> \<open>Js_Number\<close>: \<open>Number::toString\<close>, \<open>String(v)\<close>, \<open>parseFloat\<close>,
    \<open>ToNumber\<close>, on one scanner of decimal literals.
  \<^item> \<open>Dates\<close>: \<open>TimeClip\<close>, \<open>toISOString\<close> (with its \<open>RangeError\<close>) and the
    date-only parse used by the date sort, on the proleptic Gregorian calendar,
    with the proof that the calendar conversions are inverse.
  \<^item> \<open>Json\<close>: \<open>JSON.stringify\<close> and \<open>JSON.parse\<close>; the parser runs on fuel
    \<open>2 * length s + 1\<close>, and every call in a chain consumes input.
  \<^item> \<open>Json_Laws\<close>: what a value becomes in JSON (\<open>json_norm\<close>), equality
    of JSON values with numbers by value (\<open>jeq\<close>), the round trip of the two
    functions and the adequacy of the parser's fuel.
  \<^item> \<open>Normalizer\<close>: \<open>toTitleCase\<close>, \<open>getExchangeLocation\<close>,
    \<open>getCommodityCategory\<close> and the map/filter of \<open>loadFromNewAPI\<close> (lines 104-125).
  \<^item> \<open>Fetcher\<close>: \<open>fetchCommodityPrice\<close> and the batch of \<open>loadFromNewAPI\<close>
    (\<open>load_from_new_api\<close>), the API being a function from URL to response.
  \<^item> \<open>Filter_Sort\<close>: the filter predicate of \<open>applyFilters\<close> and \<open>sortData\<close>
    (a stable insertion sort, refined to HOL's \<open>sort_key\<close>), with
    \<open>localeCompare\<close> as a parameter.
  \<^item> \<open>Watchlist\<close>: \<open>loadWatchlistFromStorage\<close> and \<open>addToWatchlist\<close> over a
    record of \<open>this.watchlist\<close>, \<open>localStorage\<close> and the notifications.
  \<^item> \<open>App\<close>: the shell as a state machine: \<open>loadData\<close> split at its \<open>await\<close>
    into \<open>load_start\<close> and \<open>load_finish\<close>, \<open>applyFilters\<close> with
    \<open>renderTable\<close>, \<open>calculateTrend\<close>, \<open>updateStats\<close>, \<open>populateFilters\<close>, the
    debounced search and the row buttons as events, and \<open>app_reach\<close>, the
    reachable states under any interleaving of events and settling loads.
  \<^item> \<open>Display\<close>: the text the table and the details modal show:
    \<open>escapeHtml\<close> (and what the HTML parser reads back), \<open>formatPrice\<close> with
    \<open>Number::toFixed\<close>, \<open>formatDate\<close>, \<open>getTimeAgo\<close>, \<open>renderTrend\<close>,
    \<open>getPriceChangeIndicator\<close>, the cells of a row (\<open>row_cells\<close>, the template
    of \<open>renderTable\<close>) and the fields of the modal (\<open>commodity_modal\<close>).

  What the lemmas show (the claims C1-C31):
  \<^item> Normaliser: which rows the \<open>price > 0\<close> filter keeps, in terms of the USD
    price (C1); that a missing or non-numeric price drops the row (C2); that
    one bad timestamp aborts the whole batch (C3); that \<open>toTitleCase\<close> deletes
    a \<open>futures\<close> word anywhere after white space (C4); that a row's date parses
    back as the UTC midnight of its record's day (C10, resting on the calendar
    round trip of \<open>Dates\<close>); which exchange codes give a string location (C24).
  \<^item> Filter and sort: the filter's refinement of a contract on string locations
    (C5); \<open>price-low\<close> refines HOL's stable \<open>sort_key\<close> (C6), and
    \<open>price-high\<close> is its reverse on distinct prices (C7).
  \<^item> Fetcher: all failures give the "No commodity prices" error (C8); one record
    is enough to avoid it (C9).
  \<^item> Watchlist: the two toggle laws (C11, C12), the \<open>TypeError\<close> on a stored
    non-array (C13), the store invariant (C14), that what a toggle saves is what
    the next start reads back (C25), and that a toggle whose selector the host
    rejects is not saved (C26).
  \<^item> Shell: its invariant on every reachable state, by rule induction (C15); the
    rendering failure of the trend indicator (C16); the outcomes of a failed load
    (C17) and of a load whose records are all dropped (C18); the loading flag of
    overlapping loads (C19); the debounce (C20); the reset of the selections
    (C21); that once every pending load settles, whatever the outcomes, the flag
    is clear (C23, liveness); where the watchlist stars end up (C27).
  \<^item> Across components (below): a search throws on a row whose location is
    not a string, which an exchange code naming an \<open>Object.prototype\<close> member
    produces (C22, with the example of a load from the API).
  \<^item> Display: the \<open>data-commodity\<close> attribute reads back as the product name only
    for names without a double quote (C28); the GHS price text reads back within
    half a pesewa (C29, bounds); a row's date is shown as the local day of the
    UTC midnight of its day, the day before behind UTC (C30); every row of a state
    satisfying the shell's invariant renders with a GHS price text (C31).
  Laws of the modelled built-ins that the claims rest on are lemmas of their
  theories: the range of \<open>TimeClip\<close>, the round trips of \<open>Number::toString\<close>
  with \<open>parseFloat\<close> and of \<open>JSON.stringify\<close> with \<open>JSON.parse\<close>, and the
  adequacy of the parser's fuel.

  Fuel: \<open>json_parse\<close> runs the parser on \<open>2 * length s + 1\<close>. Each call of
  the parser consumes at least one character before it recurses (the lemma
  \<open>json_parse_fuel_enough\<close> rests on this), so no chain of calls is longer than
  the text, and any larger fuel gives the same result. No other definition uses
  fuel: the scanners and the sort are structural recursions, and
  \<open>strip_zeros\<close>, \<open>nat_digits\<close> and \<open>strip_futures\<close> are total by their
  termination proofs.

  Modelling choices: numbers are exact decimals, so the conversion by 15.5 is
  exact where the code rounds to a double and never overflows; C29 reads the
  price text back against the decimal price, where the host's \<open>toFixed\<close> rounds
  the double nearest to it, and C1 holds of doubles as well (the product of a
  nonzero double with 15.5 keeps its sign). Dates are parsed only in the ISO day form
  \<open>YYYY-MM-DD\<close> (\<open>parse_iso_date\<close>); on any other string the model gives an
  invalid date, where a host's \<open>Date\<close> parser may fall back to an
  implementation-defined format. Every date the program itself writes is an ISO
  day, so the rows never reach that fallback. The clock is a parameter \<open>now\<close> of
  each step; the host's collation (\<open>localeCompare\<close>) and its CSS selector
  parser (whether \<open>querySelectorAll\<close> accepts a selector) are parameters
  \<open>lc\<close> and \<open>sel\<close> of the handlers; handlers return the exception they let
  escape, with the state as it was when the exception was thrown. The display
  takes the host's locale services as parameters: the \<open>Intl.NumberFormat\<close>
  currency format \<open>intl\<close> (used only for currencies other than GHS, which the
  program's rows never have) and the time zone offset \<open>tz\<close>; the \<open>en-US\<close>
  short date \<open>MMM d, y\<close> is written out.

  Not modelled: the fixed markup of the row and modal templates around the values
  they interpolate (only the attribute quoting that C28 is about is kept), the
  DOM wiring (\<open>bindElements\<close>, the event listeners, \<open>showCommodityDetails\<close>
  and \<open>closeModal\<close>, which only attach, show and remove the modal; its
  "Add to Watchlist" button is modelled as the \<open>TypeError\<close> it throws),
  which selectors the host's CSS parser accepts (the parameter \<open>sel\<close>), object
  identity of exchange values given as JSON objects (compared by structure), and
  the service worker registration, which is a call to a browser API with logging
  only.
\<close>

section \<open>Properties across components\<close>

text \<open>
  C22. A search throws on a row whose location is not a string: when the data
  holds such a row (an exchange code naming an \<open>Object.prototype\<close> member gives
  one, C24) and the search text, lower-cased, is not empty and not in the row's
  lower-cased product name, the debounced search calls \<open>toLowerCase\<close> on the
  location and throws \<open>TypeError\<close> before \<open>filteredData\<close> is assigned: the
  search text is recorded, the timer is consumed, and the table, the filtered
  subset and the statistics stay as they were.
\<close>

theorem search_nonstring_location_error:
  assumes "r \<in> set (data st)" and "\<forall>l. location r \<noteq> JStr l"
    and "to_lower s \<noteq> []" and "\<not> js_includes (to_lower (productName r)) (to_lower s)"
  shows "app_run sel lc now [SearchInput s, SearchTimer] st =
           (st\<lparr>controls := (controls st)\<lparr>search_text := s\<rparr>, search_timer := False\<rparr>, [TypeError])"
proof -
  obtain i where "i < length (data st)" and "data st ! i = r"
    using assms(1) by (auto simp: in_set_conv_nth)
  then have "(i, r) \<in> set (enumerate 0 (data st))" by (simp add: in_set_enumerate_eq)
  moreover have "matches ((controls st)\<lparr>search_text := s\<rparr>) (snd (i, r)) = Inl TypeError"
    using assms(2-4) by (simp add: matches_nonstring_location)
  ultimately have "apply_filters lc ((controls st)\<lparr>search_text := s\<rparr>) snd (enumerate 0 (data st)) = Inl TypeError"
    by (rule apply_filters_Inl)
  then show ?thesis by (simp add: app_event_def apply_filters_app_def)
qed

lemma search_nonstring_location_error_witness:
  "app_run (\<lambda>_. True) (\<lambda>_ _. 0) 0 [SearchInput ''wheat'', SearchTimer]
     ((app_init ''date'' Map.empty)\<lparr>data := [\<lparr>productName = ''Corn'', price = Num 6975 2, currency = ''GHS'',
        location = JFun ''toString'', date = ''2023-11-14'', source = ''API Ninjas'', usdPrice = Num 45 1\<rparr>]\<rparr>) =
   ((app_init ''date'' Map.empty)\<lparr>data := [\<lparr>productName = ''Corn'', price = Num 6975 2, currency = ''GHS'',
        location = JFun ''toString'', date = ''2023-11-14'', source = ''API Ninjas'', usdPrice = Num 45 1\<rparr>],
      controls := (controls (app_init ''date'' Map.empty))\<lparr>search_text := ''wheat''\<rparr>, search_timer := False\<rparr>, [TypeError])"
  using search_nonstring_location_error
      [of "\<lparr>productName = ''Corn'', price = Num 6975 2, currency = ''GHS'', location = JFun ''toString'',
          date = ''2023-11-14'', source = ''API Ninjas'', usdPrice = Num 45 1\<rparr>"
          "(app_init ''date'' Map.empty)\<lparr>data := [\<lparr>productName = ''Corn'', price = Num 6975 2, currency = ''GHS'',
             location = JFun ''toString'', date = ''2023-11-14'', source = ''API Ninjas'', usdPrice = Num 45 1\<rparr>]\<rparr>"
          "''wheat''" "\<lambda>_. True" "\<lambda>_ _. 0" 0]
  by (simp add: char_defs js_simps)

text \<open>
  Example: an API record whose exchange is \<open>"toString"\<close> gets the function
  \<open>Object.prototype.toString\<close> as its location (\<open>locations[exchange]\<close> finds the
  inherited member); the load succeeds and renders, but a search for a text not in
  the product name calls \<open>toLowerCase\<close> on that function and throws \<open>TypeError\<close>,
  leaving the table of the load in place.
\<close>

lemma proto_exchange_search_error:
  "(case app_run sel lc now [SearchInput ''wheat'', SearchTimer]
           (load_finish sel lc now
             (load_from_new_api (\<lambda>u. if u = api_url ''corn'' then Response True (Some (JArr [JObj [(''name'', JStr ''corn''),
                (''exchange'', JStr ''toString''), (''updated'', JNumber (Num 1700000000 0)), (''price'', JNumber (Num 45 1))]]))
                else Response False None) now)
             (load_start (app_init k0 Map.empty))) of
      (st, errs) \<Rightarrow> errs = [TypeError] \<and> map rv_item (table st) =
         [\<lparr>productName = ''Corn'', price = Num 6975 2, currency = ''GHS'', location = JFun ''toString'',
           date = ''2023-11-14'', source = ''API Ninjas'', usdPrice = Num 45 1\<rparr>])"
proof -
  have l: "load_from_new_api (\<lambda>u. if u = api_url ''corn'' then Response True (Some (JArr [JObj [(''name'', JStr ''corn''),
                (''exchange'', JStr ''toString''), (''updated'', JNumber (Num 1700000000 0)), (''price'', JNumber (Num 45 1))]]))
                else Response False None) now =
      Inr [\<lparr>productName = ''Corn'', price = Num 6975 2, currency = ''GHS'', location = JFun ''toString'',
           date = ''2023-11-14'', source = ''API Ninjas'', usdPrice = Num 45 1\<rparr>]"
    by (simp add: load_from_new_api_def fetched_items_def default_commodities_def api_url_def encode_uri_component_def
        uri_unreserved_def char_defs fetch_commodity_price_def js_or_def normalize_defs js_simps)
  show ?thesis
    by (simp add: l load_finish_def populate_filters_def update_stats_def apply_filters_app_def apply_filters_def
        render_table_def sort_data_def app_init_def load_start_def app_event_def matches_def matches_search_def
        calculate_trend_def watch_star_def wl_init_def load_watchlist_def js_max_def max_time_def date_value_sample char_defs js_simps)
qed


end
